(* ===== verification/Prelude.thy ===== *)
theory Prelude
  imports Main "HOL-Library.Word"
begin

text \<open>
  Types, automation and generic lemmas that every component shares.

  Bytes are 8-bit words, so a frame, a message or an encoded payload is a
  \<open>u8 list\<close>. Lengths and byte counters (\<open>usize\<close>, \<open>u64\<close>) are natural numbers: they
  count bytes held in memory, and the bounds theorems of the components show where
  they stay below \<open>2 ^ 64\<close>. Values the program masks, casts or counts past a wrap
  are words of their Rust width.
  A Rust \<open>Result<T, E>\<close> is \<open>'e + 't\<close> (\<open>Inl\<close> is \<open>Err\<close>, \<open>Inr\<close> is \<open>Ok\<close>), an
  \<open>Option<T>\<close> is \<open>'t option\<close>.
\<close>

unbundle bit_operations_syntax

type_synonym u8 = "8 word"
type_synonym u16 = "16 word"
type_synonym u32 = "32 word"
type_synonym u64 = "64 word"
type_synonym i32 = "32 word"
type_synonym bytes = "u8 list"

text \<open>The facts that unfold the wire format, the string functions and the state updates.\<close>

named_theorems wire_simps \<open>equations of the wire format\<close>
named_theorems str_simps \<open>equations of the string functions\<close>
named_theorems step_simps \<open>definitions of the operations of stateful components\<close>

section \<open>Results\<close>

definition is_ok :: "'e + 'a \<Rightarrow> bool" where
  "is_ok r = (case r of Inl _ \<Rightarrow> False | Inr _ \<Rightarrow> True)"

lemma is_ok_simps [simp]: "\<not> is_ok (Inl e)" "is_ok (Inr a)"
  by (simp_all add: is_ok_def)

lemma is_ok_iff: "is_ok r \<longleftrightarrow> (\<exists>a. r = Inr a)"
  by (cases r) auto

text \<open>The \<open>?\<close> operator: stop at the first error.\<close>

definition res_bind :: "'e + 'a \<Rightarrow> ('a \<Rightarrow> 'e + 'b) \<Rightarrow> 'e + 'b" where
  "res_bind r f = (case r of Inl e \<Rightarrow> Inl e | Inr a \<Rightarrow> f a)"

lemma res_bind_simps [simp]:
  "res_bind (Inl e) f = Inl e"
  "res_bind (Inr a) f = f a"
  by (simp_all add: res_bind_def)

lemma res_bind_eq_Inr: "res_bind r f = Inr b \<longleftrightarrow> (\<exists>a. r = Inr a \<and> f a = Inr b)"
  by (cases r) auto

lemma is_ok_bind [simp]: "is_ok (res_bind r f) \<longleftrightarrow> (\<exists>a. r = Inr a \<and> is_ok (f a))"
  by (cases r) auto

text \<open>\<open>Result::map_err\<close> and \<open>Option::filter\<close>.\<close>

definition map_err :: "('e \<Rightarrow> 'f) \<Rightarrow> 'e + 'a \<Rightarrow> 'f + 'a" where
  "map_err g r = (case r of Inl e \<Rightarrow> Inl (g e) | Inr a \<Rightarrow> Inr a)"

lemma map_err_simps [simp]:
  "map_err g (Inl e) = Inl (g e)"
  "map_err g (Inr a) = Inr a"
  by (simp_all add: map_err_def)

lemma is_ok_map_err [simp]: "is_ok (map_err g r) = is_ok r"
  by (cases r) auto

definition opt_filter :: "bool \<Rightarrow> 'a option \<Rightarrow> 'a option" where
  "opt_filter b x = (if b then x else None)"

lemma opt_filter_simps [simp]:
  "opt_filter True x = x"
  "opt_filter False x = None"
  "opt_filter b None = None"
  by (simp_all add: opt_filter_def)

section \<open>Lists\<close>

lemma sum_list_map_append [simp]:
  "sum_list (map f (xs @ [x])) = sum_list (map f xs) + (f x :: nat)"
  by simp

lemma sum_list_tl_hd:
  "xs \<noteq> [] \<Longrightarrow> sum_list (map f xs) = (f (hd xs) :: nat) + sum_list (map f (tl xs))"
  by (cases xs) auto

section \<open>Machine integers\<close>

text \<open>All 256 bytes can be checked one by one.\<close>

lemma u8_all: "(\<forall>b :: u8. P b) \<longleftrightarrow> (\<forall>n \<in> set [0..<256]. P (word_of_nat n))"
proof
  assume all: "\<forall>n \<in> set [0..<256]. P (word_of_nat n)"
  show "\<forall>b :: u8. P b"
  proof
    fix b :: u8
    have "unat b < 256"
      using unsigned_less [of b] by simp
    then have "unat b \<in> set [0..<256]" by simp
    with all have "P (word_of_nat (unat b))" by blast
    then show "P b" by simp
  qed
qed simp

end
