(* ===== verification/Dc_Frame.thy ===== *)
theory Dc_Frame
  imports Prelude
begin

text \<open>
  The one-byte frame header of the chunking wire format
  (\<open>crates/reactor-webrtc-dc-chunking/src/frame.rs\<close>), the codec interface the queue
  and the reassembler share, and its interpretation on the code's header.
\<close>

definition MORE :: u8 where "MORE = 1"
definition TEXT :: u8 where "TEXT = 2"
definition VERSION_MASK :: u8 where "VERSION_MASK = NOT (MORE OR TEXT)"

record header =
  hdr_more :: bool
  hdr_text :: bool

datatype frame_error = Empty | UnknownVersion u8 | TypeChanged

definition encode :: "header \<Rightarrow> u8" where
  "encode h = (if hdr_more h then MORE else 0) OR (if hdr_text h then TEXT else 0)"

definition decode :: "u8 \<Rightarrow> frame_error + header" where
  "decode byte =
     (if byte AND VERSION_MASK \<noteq> 0 then Inl (UnknownVersion byte)
      else Inr \<lparr>hdr_more = (byte AND MORE \<noteq> 0), hdr_text = (byte AND TEXT \<noteq> 0)\<rparr>)"

lemmas header_defs = encode_def decode_def MORE_def TEXT_def VERSION_MASK_def

lemma header_all: "(\<And>m t. P \<lparr>hdr_more = m, hdr_text = t\<rparr>) \<Longrightarrow> P (h :: header)"
  by (cases h) simp

lemma decode_encode [simp]: "decode (encode h) = Inr h"
  by (rule header_all [of "\<lambda>h. decode (encode h) = Inr h"]) (auto simp: header_defs)

lemma encode_inj: "encode h = encode h' \<longleftrightarrow> h = h'"
  by (metis decode_encode sum.inject(2))

lemma decode_bytes:
  "\<forall>b :: u8. (case decode b of Inl e \<Rightarrow> 4 \<le> unat b \<and> e = UnknownVersion b
                             | Inr h \<Rightarrow> unat b < 4 \<and> encode h = b)"
  unfolding u8_all by code_simp

lemma encode_decode: "decode b = Inr h \<Longrightarrow> encode h = b"
  using decode_bytes [rule_format, of b] by simp

lemma decode_ok_iff: "is_ok (decode b) \<longleftrightarrow> unat b < 4"
  using decode_bytes [rule_format, of b] by (auto split: sum.splits)

text \<open>
  The contract between the two ends of the wire: the receiver reads back the header
  the sender wrote. The queue and the reassembler are proved against this interface.
\<close>

locale header_codec =
  fixes enc :: "'h \<Rightarrow> u8"
    and dec :: "u8 \<Rightarrow> 'e + 'h"
  assumes dec_enc: "dec (enc h) = Inr h"
begin

lemma enc_inj: "enc h = enc h' \<Longrightarrow> h = h'"
  using dec_enc by (metis sum.inject(2))

lemma dec_frame: "dec (hd (enc h # payload)) = Inr h \<and> tl (enc h # payload) = payload"
  by (simp add: dec_enc)

end

interpretation hdr: header_codec encode decode
  by unfold_locales simp

text \<open>Every defined header survives the wire, and exactly the four bytes 0 to 3 are
  accepted: a byte with a version bit set is the error that carries it.\<close>
theorem header_round_trip:
  "decode (encode h) = Inr h \<and> (unat b < 4 \<longleftrightarrow> is_ok (decode b)) \<and>
   (case decode b of Inl e \<Rightarrow> e = UnknownVersion b | Inr h' \<Rightarrow> encode h' = b)"
  using decode_bytes [rule_format, of b]
  by (auto simp: hdr.dec_enc decode_ok_iff split: sum.splits)

end
