(* ===== verification/Dc_Send.thy ===== *)
theory Dc_Send
  imports Dc_Frame
begin

text \<open>
  The per-channel send queue (\<open>crates/reactor-webrtc-dc-chunking/src/send.rs\<close>): its
  configuration and the checks on it, the queue of messages with the offset of the
  one leaving, and the frame cutter gated by the native buffer's high-water mark.
\<close>

definition DEFAULT_MAX_MESSAGE_SIZE :: nat where "DEFAULT_MAX_MESSAGE_SIZE = 64 * 1024 * 1024"
definition DEFAULT_SEND_BUFFER_LIMIT :: nat where "DEFAULT_SEND_BUFFER_LIMIT = 128 * 1024 * 1024"
definition DEFAULT_CHUNK_SIZE :: nat where "DEFAULT_CHUNK_SIZE = 64 * 1024"
definition BROWSER_CHUNK_SIZE :: nat where "BROWSER_CHUNK_SIZE = 4 * 1024"
definition DEFAULT_HIGH_WATER :: nat where "DEFAULT_HIGH_WATER = 8 * 1024 * 1024"
definition DEFAULT_LOW_WATER :: nat where "DEFAULT_LOW_WATER = 4 * 1024 * 1024"
definition NATIVE_SEND_BUFFER_LIMIT :: nat where "NATIVE_SEND_BUFFER_LIMIT = 16 * 1024 * 1024"
definition LEGACY_MAX_MESSAGE_SIZE :: nat where "LEGACY_MAX_MESSAGE_SIZE = 256 * 1024"

lemmas dc_constants = DEFAULT_MAX_MESSAGE_SIZE_def DEFAULT_SEND_BUFFER_LIMIT_def
  DEFAULT_CHUNK_SIZE_def BROWSER_CHUNK_SIZE_def DEFAULT_HIGH_WATER_def DEFAULT_LOW_WATER_def
  NATIVE_SEND_BUFFER_LIMIT_def LEGACY_MAX_MESSAGE_SIZE_def

section \<open>Configuration\<close>

record send_config =
  chunk_size :: nat
  high_water :: nat
  low_water :: nat
  queue_limit :: nat
  max_message_size :: nat

definition default_send_config :: send_config where
  "default_send_config =
     \<lparr>chunk_size = DEFAULT_CHUNK_SIZE, high_water = DEFAULT_HIGH_WATER, low_water = DEFAULT_LOW_WATER,
      queue_limit = DEFAULT_SEND_BUFFER_LIMIT, max_message_size = DEFAULT_MAX_MESSAGE_SIZE\<rparr>"

datatype config_error =
    ChunkSize nat
  | Watermarks nat nat \<comment> \<open>low, high\<close>
  | HighWater nat
  | QueueBelowMessage nat nat \<comment> \<open>queue, message\<close>

definition validate :: "send_config \<Rightarrow> config_error + unit" where
  "validate c =
     (if chunk_size c < 2 \<or> chunk_size c > LEGACY_MAX_MESSAGE_SIZE then Inl (ChunkSize (chunk_size c))
      else if low_water c \<ge> high_water c then Inl (Watermarks (low_water c) (high_water c))
      else if high_water c > NATIVE_SEND_BUFFER_LIMIT - chunk_size c then Inl (HighWater (high_water c))
      else if queue_limit c < max_message_size c
        then Inl (QueueBelowMessage (queue_limit c) (max_message_size c))
      else Inr ())"

definition valid_config :: "send_config \<Rightarrow> bool" where
  "valid_config c \<longleftrightarrow>
     2 \<le> chunk_size c \<and> chunk_size c \<le> LEGACY_MAX_MESSAGE_SIZE \<and>
     low_water c < high_water c \<and> high_water c + chunk_size c \<le> NATIVE_SEND_BUFFER_LIMIT \<and>
     max_message_size c \<le> queue_limit c"

lemma validate_ok: "validate c = Inr () \<longleftrightarrow> valid_config c"
  by (auto simp: validate_def valid_config_def dc_constants)

lemma default_config_valid: "valid_config default_send_config"
  by (simp add: valid_config_def default_send_config_def dc_constants)

section \<open>The queue\<close>

datatype send_error =
    TooLarge nat nat \<comment> \<open>size, max\<close>
  | QueueFull nat nat nat \<comment> \<open>queued, size, limit\<close>

record pending_msg =
  p_data :: bytes
  p_text :: bool
  p_offset :: nat

record send_queue =
  sq_config :: send_config
  sq_pending :: "pending_msg list"
  sq_queued :: nat

text \<open>\<open>new\<close> panics on a configuration that fails \<open>validate\<close>: no queue.\<close>

definition send_new :: "send_config \<Rightarrow> send_queue option" where
  "send_new c =
     (case validate c of
        Inl _ \<Rightarrow> None
      | Inr _ \<Rightarrow> Some \<lparr>sq_config = c, sq_pending = [], sq_queued = 0\<rparr>)"

definition send_push :: "send_queue \<Rightarrow> bytes \<Rightarrow> bool \<Rightarrow> (send_error + unit) \<times> send_queue" where
  "send_push q data binary =
     (let sz = length data in
      if sz > max_message_size (sq_config q)
        then (Inl (TooLarge sz (max_message_size (sq_config q))), q)
      else if sq_queued q + sz > queue_limit (sq_config q)
        then (Inl (QueueFull (sq_queued q) sz (queue_limit (sq_config q))), q)
      else (Inr (), q\<lparr>sq_queued := sq_queued q + sz,
                      sq_pending := sq_pending q @
                        [\<lparr>p_data = data, p_text = \<not> binary, p_offset = 0\<rparr>]\<rparr>))"

definition next_frame :: "send_queue \<Rightarrow> nat \<Rightarrow> bytes option \<times> send_queue" where
  "next_frame q native_buffered =
     (if native_buffered \<ge> high_water (sq_config q) then (None, q)
      else case sq_pending q of
        [] \<Rightarrow> (None, q)
      | head # rest \<Rightarrow>
          (let room = chunk_size (sq_config q) - 1;
               tk = min room (length (p_data head) - p_offset head);
               more = p_offset head + tk < length (p_data head);
               frame = encode \<lparr>hdr_more = more, hdr_text = p_text head\<rparr>
                       # take tk (drop (p_offset head) (p_data head));
               head' = head\<lparr>p_offset := p_offset head + tk\<rparr>
           in (Some frame,
               q\<lparr>sq_queued := sq_queued q - tk,
                 sq_pending := (if more then head' # rest else rest)\<rparr>)))"

definition send_queued :: "send_queue \<Rightarrow> nat" where "send_queued q = sq_queued q"

definition send_is_empty :: "send_queue \<Rightarrow> bool" where "send_is_empty q = (sq_pending q = [])"

definition send_mid_message :: "send_queue \<Rightarrow> bool" where
  "send_mid_message q = (case sq_pending q of [] \<Rightarrow> False | p # _ \<Rightarrow> p_offset p > 0)"

definition send_clear :: "send_queue \<Rightarrow> send_queue" where
  "send_clear q = q\<lparr>sq_pending := [], sq_queued := 0\<rparr>"

lemmas send_defs [step_simps] = send_new_def send_push_def send_clear_def

section \<open>Invariant\<close>

definition remaining :: "pending_msg \<Rightarrow> nat" where
  "remaining p = length (p_data p) - p_offset p"

definition msg_ok :: "pending_msg \<Rightarrow> bool" where
  "msg_ok p \<longleftrightarrow> p_offset p = 0 \<or> p_offset p < length (p_data p)"

definition queue_inv :: "send_queue \<Rightarrow> bool" where
  "queue_inv q \<longleftrightarrow>
     valid_config (sq_config q) \<and>
     sq_queued q = sum_list (map remaining (sq_pending q)) \<and>
     sq_queued q \<le> queue_limit (sq_config q) \<and>
     (\<forall>p \<in> set (sq_pending q). msg_ok p \<and> length (p_data p) \<le> max_message_size (sq_config q)) \<and>
     (\<forall>p \<in> set (tl (sq_pending q)). p_offset p = 0)"

lemma queue_inv_new: "send_new c = Some q \<Longrightarrow> queue_inv q"
  by (auto simp: send_new_def queue_inv_def validate_ok [symmetric] split: sum.splits)

lemma queue_inv_push: "queue_inv q \<Longrightarrow> send_push q data binary = (r, q') \<Longrightarrow> queue_inv q'"
  by (cases "sq_pending q")
     (auto simp: send_push_def queue_inv_def Let_def remaining_def msg_ok_def split: if_splits)

lemma queue_inv_clear: "queue_inv q \<Longrightarrow> queue_inv (send_clear q)"
  by (auto simp: send_clear_def queue_inv_def)

lemma next_frame_None: "next_frame q n = (None, q') \<Longrightarrow> q' = q"
  by (auto simp: next_frame_def Let_def split: if_splits list.splits)

lemma next_frame_config: "sq_config (snd (next_frame q n)) = sq_config q"
  by (auto simp: next_frame_def Let_def split: list.splits)

text \<open>The shape of one frame: the slice of the head message it carries.\<close>

lemma next_frame_Some:
  assumes "next_frame q n = (Some f, q')"
  obtains head rest tk where
    "n < high_water (sq_config q)" "sq_pending q = head # rest"
    "tk = min (chunk_size (sq_config q) - 1) (remaining head)"
    "f = encode \<lparr>hdr_more = (p_offset head + tk < length (p_data head)), hdr_text = p_text head\<rparr>
         # take tk (drop (p_offset head) (p_data head))"
    "q' = q\<lparr>sq_queued := sq_queued q - tk,
            sq_pending := (if p_offset head + tk < length (p_data head)
                           then head\<lparr>p_offset := p_offset head + tk\<rparr> # rest else rest)\<rparr>"
proof (cases "sq_pending q")
  case Nil
  with assms show thesis by (simp add: next_frame_def split: if_splits)
next
  case (Cons head rest)
  with assms show thesis
    by (intro that [of head rest "min (chunk_size (sq_config q) - 1) (remaining head)"])
       (auto simp: next_frame_def Let_def remaining_def split: if_splits)
qed

lemma next_frame_is_Some:
  "n < high_water (sq_config q) \<Longrightarrow> sq_pending q \<noteq> [] \<Longrightarrow> \<exists>f q'. next_frame q n = (Some f, q')"
  by (cases "sq_pending q") (auto simp: next_frame_def Let_def)

lemma queue_inv_next:
  assumes inv: "queue_inv q" and nf: "next_frame q n = (f, q')"
  shows "queue_inv q'"
proof (cases f)
  case None
  with nf inv show ?thesis by (auto dest: next_frame_None)
next
  case (Some g)
  with nf have "next_frame q n = (Some g, q')" by simp
  then obtain head rest tk where
    h: "sq_pending q = head # rest" and
    tk: "tk = min (chunk_size (sq_config q) - 1) (remaining head)" and
    q': "q' = q\<lparr>sq_queued := sq_queued q - tk,
            sq_pending := (if p_offset head + tk < length (p_data head)
                           then head\<lparr>p_offset := p_offset head + tk\<rparr> # rest else rest)\<rparr>"
    by (rule next_frame_Some)
  have "set (tl rest) \<subseteq> set rest" by (cases rest) auto
  then show ?thesis
    using inv h tk by (auto simp: q' queue_inv_def remaining_def msg_ok_def)
qed

section \<open>Progress\<close>

text \<open>How many frames a message still needs: one at least, else its bytes in pieces of
  \<open>chunk_size - 1\<close>, rounded up.\<close>

definition frames_needed :: "nat \<Rightarrow> nat \<Rightarrow> nat" where
  "frames_needed room n = max 1 ((n + room - 1) div room)"

definition frames_left :: "send_queue \<Rightarrow> nat" where
  "frames_left q =
     sum_list (map (\<lambda>p. frames_needed (chunk_size (sq_config q) - 1) (remaining p)) (sq_pending q))"

lemma frames_needed_more:
  assumes "room < n" "0 < room"
  shows "frames_needed room n = Suc (frames_needed room (n - room))"
proof -
  obtain m where m: "n = Suc m" using assms by (cases n) auto
  with assms have "0 < m div room" by (simp add: div_greater_zero_iff)
  moreover have "Suc m - room + room - 1 = m" using assms m by simp
  moreover have "(m + room) div room = Suc (m div room)" 
    using assms(2) div_add_self2 [of room m] by linarith
  ultimately show ?thesis by (simp add: frames_needed_def m max_def)
qed

lemma frames_needed_last:
  assumes "n \<le> room" "0 < room"
  shows "frames_needed room n = 1"
proof -
  have "(n + room - 1) div room < 2" using assms by (simp add: div_less_iff_less_mult)
  then show ?thesis by (simp add: frames_needed_def)
qed

lemma frames_needed_pos [simp]: "0 < frames_needed room n"
  by (simp add: frames_needed_def)

text \<open>One frame is one frame less to go.\<close>

lemma frames_left_next:
  assumes inv: "queue_inv q" and nf: "next_frame q n = (Some f, q')"
  shows "frames_left q = Suc (frames_left q')"
proof -
  obtain head rest tk where
    h: "sq_pending q = head # rest" and
    tk: "tk = min (chunk_size (sq_config q) - 1) (remaining head)" and
    q': "q' = q\<lparr>sq_queued := sq_queued q - tk,
            sq_pending := (if p_offset head + tk < length (p_data head)
                           then head\<lparr>p_offset := p_offset head + tk\<rparr> # rest else rest)\<rparr>"
    using nf by (rule next_frame_Some)
  define room where "room = chunk_size (sq_config q) - 1"
  have room: "0 < room" using inv by (simp add: room_def queue_inv_def valid_config_def)
  have ok: "p_offset head \<le> length (p_data head)"
    using inv h by (auto simp: queue_inv_def msg_ok_def)
  show ?thesis
  proof (cases "room < remaining head")
    case True
    then have "p_offset head + tk < length (p_data head)" "tk = room"
      using tk ok by (auto simp: room_def remaining_def)
    moreover have "remaining (head\<lparr>p_offset := p_offset head + tk\<rparr>) = remaining head - room"
      using \<open>tk = room\<close> by (simp add: remaining_def)
    ultimately show ?thesis
      using frames_needed_more [OF True room]
      by (simp add: q' h frames_left_def room_def)
  next
    case False
    then have "\<not> p_offset head + tk < length (p_data head)"
      using tk ok by (auto simp: room_def remaining_def)
    then show ?thesis
      using frames_needed_last [of "remaining head" room] False room
      by (simp add: q' h frames_left_def room_def)
  qed
qed

section \<open>The interface the pump relies on\<close>

text \<open>
  A source of frames for a native channel: what the pump may assume of the queue it
  empties. \<open>work\<close> counts the frames still to come.
\<close>

locale frame_source =
  fixes next_of :: "'q \<Rightarrow> nat \<Rightarrow> bytes option \<times> 'q"
    and inv :: "'q \<Rightarrow> bool"
    and high :: "'q \<Rightarrow> nat"
    and chunk :: "'q \<Rightarrow> nat"
    and work :: "'q \<Rightarrow> nat"
  assumes next_inv: "inv q \<Longrightarrow> next_of q n = (x, q') \<Longrightarrow> inv q'"
    and next_same: "next_of q n = (x, q') \<Longrightarrow> high q' = high q \<and> chunk q' = chunk q"
    and next_gate: "next_of q n = (Some f, q') \<Longrightarrow> n < high q"
    and next_length: "inv q \<Longrightarrow> next_of q n = (Some f, q') \<Longrightarrow> 0 < length f \<and> length f \<le> chunk q"
    and next_work: "inv q \<Longrightarrow> next_of q n = (Some f, q') \<Longrightarrow> work q = Suc (work q')"
    and next_idle: "next_of q n = (None, q') \<Longrightarrow> q' = q"
    and next_blocked: "next_of q n = (None, q') \<Longrightarrow> work q = 0 \<or> high q \<le> n"

lemma next_frame_length:
  assumes inv: "queue_inv q" and nf: "next_frame q n = (Some f, q')"
  shows "0 < length f \<and> length f \<le> chunk_size (sq_config q)"
proof -
  obtain head tk where
    "tk = min (chunk_size (sq_config q) - 1) (remaining head)"
    "f = encode \<lparr>hdr_more = (p_offset head + tk < length (p_data head)), hdr_text = p_text head\<rparr>
         # take tk (drop (p_offset head) (p_data head))"
    using nf by (rule next_frame_Some)
  moreover have "2 \<le> chunk_size (sq_config q)"
    using inv by (simp add: queue_inv_def valid_config_def)
  ultimately show ?thesis by auto
qed

interpretation sendq: frame_source next_frame queue_inv "high_water \<circ> sq_config"
  "chunk_size \<circ> sq_config" frames_left
proof unfold_locales
  fix q n x q'
  assume "queue_inv q" "next_frame q n = (x, q')"
  then show "queue_inv q'" by (rule queue_inv_next)
next
  fix q n x q'
  assume "next_frame q n = (x, q')"
  then show "(high_water \<circ> sq_config) q' = (high_water \<circ> sq_config) q \<and>
             (chunk_size \<circ> sq_config) q' = (chunk_size \<circ> sq_config) q"
    using next_frame_config [of q n] by simp
next
  fix q n f q'
  assume "next_frame q n = (Some f, q')"
  then show "n < (high_water \<circ> sq_config) q" by (auto elim: next_frame_Some)
next
  fix q n f q'
  assume "queue_inv q" "next_frame q n = (Some f, q')"
  then show "0 < length f \<and> length f \<le> (chunk_size \<circ> sq_config) q"
    using next_frame_length by simp
next
  fix q n f q'
  assume "queue_inv q" "next_frame q n = (Some f, q')"
  then show "frames_left q = Suc (frames_left q')" by (rule frames_left_next)
next
  fix q n q'
  assume "next_frame q n = (None, q')"
  then show "q' = q" by (rule next_frame_None)
next
  fix q n q'
  assume none: "next_frame q n = (None, q')"
  show "frames_left q = 0 \<or> (high_water \<circ> sq_config) q \<le> n"
  proof (cases "n < high_water (sq_config q)")
    case True
    with none next_frame_is_Some [of n q] have "sq_pending q = []" by fastforce
    then show ?thesis by (simp add: frames_left_def)
  qed simp
qed

section \<open>Properties\<close>

text \<open>Runs of a queue: any sequence of its operations.\<close>

datatype send_op = PushOp bytes bool | NextOp nat | ClearOp

fun send_step :: "send_queue \<Rightarrow> send_op \<Rightarrow> send_queue" where
  "send_step q (PushOp data binary) = snd (send_push q data binary)"
| "send_step q (NextOp native_buffered) = snd (next_frame q native_buffered)"
| "send_step q ClearOp = send_clear q"

definition send_run :: "send_queue \<Rightarrow> send_op list \<Rightarrow> send_queue" where
  "send_run q ops = foldl send_step q ops"

lemma queue_inv_step: "queue_inv q \<Longrightarrow> queue_inv (send_step q op)"
  by (cases op) (auto intro: queue_inv_push [OF _ surjective_pairing]
      queue_inv_next [OF _ surjective_pairing] queue_inv_clear)

lemma queue_inv_run: "queue_inv q \<Longrightarrow> queue_inv (send_run q ops)"
  unfolding send_run_def by (induction ops arbitrary: q) (auto intro: queue_inv_step)

lemma send_step_config: "sq_config (send_step q op) = sq_config q"
  by (cases op) (auto simp: send_push_def send_clear_def Let_def next_frame_config)

lemma send_run_config: "sq_config (send_run q ops) = sq_config q"
  unfolding send_run_def by (induction ops arbitrary: q) (auto simp: send_step_config)

text \<open>C27: A queue is made exactly from a configuration that passes \<open>validate\<close>, and after any
  operations its byte counter is the sum of the bytes still to leave and at most the
  queue limit, every queued message is within the size limit, and only the first message
  can have started leaving.\<close>

theorem send_queue_invariant:
  "(case send_new c of
      None \<Rightarrow> \<not> is_ok (validate c)
    | Some q \<Rightarrow> is_ok (validate c) \<and> queue_inv (send_run q ops) \<and>
        sq_queued (send_run q ops) \<le> queue_limit c)"
proof (cases "send_new c")
  case None
  then show ?thesis by (simp add: send_new_def split: sum.splits)
next
  case (Some q)
  then have "queue_inv (send_run q ops)" by (intro queue_inv_run queue_inv_new)
  moreover have "sq_config (send_run q ops) = c" "is_ok (validate c)"
    using Some by (auto simp: send_new_def send_run_config split: sum.splits)
  ultimately show ?thesis using Some by (auto simp: queue_inv_def)
qed

text \<open>\<open>validate\<close> accepts exactly the configurations whose frames carry a byte and fit
  256 KiB, whose low-water mark is below the high-water mark, whose high-water mark
  leaves room for one frame below the native 16 MiB limit, and whose queue can hold the
  largest message; the first check that fails names the error.\<close>

theorem validate_complete:
  "validate c = Inr () \<longleftrightarrow> valid_config c"
  by (rule validate_ok)

text \<open>\<open>push\<close> queues a message at the end, or refuses it and leaves the queue as it was:
  first for its own size, then for the bytes already queued.\<close>

theorem send_push_behaviour:
  "(case send_push q data binary of
      (Inl (TooLarge n mx), q') \<Rightarrow>
        q' = q \<and> n = length data \<and> mx = max_message_size (sq_config q) \<and> mx < n
    | (Inl (QueueFull queued n limit), q') \<Rightarrow>
        q' = q \<and> queued = sq_queued q \<and> n = length data \<and> limit = queue_limit (sq_config q) \<and>
        n \<le> max_message_size (sq_config q) \<and> limit < queued + n
    | (Inr _, q') \<Rightarrow>
        length data \<le> max_message_size (sq_config q) \<and>
        send_queued q' = send_queued q + length data \<and> send_queued q' \<le> queue_limit (sq_config q) \<and>
        sq_pending q' = sq_pending q @ [\<lparr>p_data = data, p_text = \<not> binary, p_offset = 0\<rparr>])"
  by (auto simp: send_push_def Let_def send_queued_def)

text \<open>A frame is handed out exactly when something is queued and the native buffer is below
  the high-water mark; otherwise nothing changes. A frame has its header and at most
  \<open>chunk_size\<close> bytes, and brings the queue one frame closer to empty.\<close>

theorem next_frame_progress:
  assumes "queue_inv q"
  shows "(case next_frame q native_buffered of
            (None, q') \<Rightarrow>
               q' = q \<and> (send_is_empty q \<or> high_water (sq_config q) \<le> native_buffered)
          | (Some f, q') \<Rightarrow>
               \<not> send_is_empty q \<and> native_buffered < high_water (sq_config q) \<and>
               0 < length f \<and> length f \<le> chunk_size (sq_config q) \<and>
               frames_left q = Suc (frames_left q') \<and> sq_queued q = sq_queued q' + (length f - 1))"
proof (cases "next_frame q native_buffered")
  case (Pair x q')
  show ?thesis
  proof (cases x)
    case None
    with Pair have "q' = q" by (auto dest: next_frame_None)
    moreover have "send_is_empty q \<or> high_water (sq_config q) \<le> native_buffered"
      using Pair None next_frame_is_Some [of native_buffered q]
      by (fastforce simp: send_is_empty_def)
    ultimately show ?thesis using Pair None by simp
  next
    case (Some f)
    with Pair have nf: "next_frame q native_buffered = (Some f, q')" by simp
    have "sq_queued q = sq_queued q' + (length f - 1) \<and> \<not> send_is_empty q"
      using nf assms
      by (elim next_frame_Some) (auto simp: send_is_empty_def queue_inv_def remaining_def)
    with nf Some show ?thesis
      using sendq.next_gate [OF nf] sendq.next_length [OF assms nf] sendq.next_work [OF assms nf]
      by (cases f) auto
  qed
qed

definition small_config :: send_config where
  "small_config = \<lparr>chunk_size = 5, high_water = 100, low_water = 50, queue_limit = 64,
                   max_message_size = 32\<rparr>"

lemma small_config_valid: "valid_config small_config"
  by (simp add: valid_config_def small_config_def dc_constants)

definition small_queue :: send_queue where
  "small_queue = send_run \<lparr>sq_config = small_config, sq_pending = [], sq_queued = 0\<rparr>
                   [PushOp [97, 98, 99, 100, 101, 102] True]"

lemma small_queue_inv: "queue_inv small_queue"
  unfolding small_queue_def
  by (rule queue_inv_run) (simp add: queue_inv_def small_config_valid)

lemma next_frame_progress_witness:
  "queue_inv small_queue \<and> fst (next_frame small_queue 99) = Some [1, 97, 98, 99, 100] \<and>
   frames_left small_queue = Suc (frames_left (snd (next_frame small_queue 99)))"
proof -
  have "fst (next_frame small_queue 99) = Some [1, 97, 98, 99, 100]"
    by code_simp
  then show ?thesis
    using next_frame_progress [OF small_queue_inv, of 99] small_queue_inv
    by (cases "next_frame small_queue 99") auto
qed

end
