(* ===== verification/Dc_Recv.thy ===== *)
theory Dc_Recv
  imports Dc_Frame
begin

text \<open>
  The per-channel reassembler (\<open>crates/reactor-webrtc-dc-chunking/src/recv.rs\<close>): one
  partial message, its type, and, once the message passes the local limit, the bytes
  skipped so far. \<open>recv_push\<close> returns the result together with the new state, since
  the code keeps its state on an error.
\<close>

datatype delivery =
    Pending
  | Message bytes bool \<comment> \<open>data, binary\<close>
  | Dropped nat

record reassembler =
  ra_max_message_size :: nat
  ra_buf :: bytes
  ra_text :: "bool option"
  ra_skipping :: "nat option"

definition recv_new :: "nat \<Rightarrow> reassembler" where
  "recv_new mx = \<lparr>ra_max_message_size = mx, ra_buf = [], ra_text = None, ra_skipping = None\<rparr>"

text \<open>The middle of \<open>push\<close>: keep the payload, or count it once the limit is passed.\<close>

definition recv_store :: "reassembler \<Rightarrow> bytes \<Rightarrow> reassembler" where
  "recv_store r payload =
     (case ra_skipping r of
        Some skipped \<Rightarrow> r\<lparr>ra_skipping := Some (skipped + length payload)\<rparr>
      | None \<Rightarrow>
          if length (ra_buf r) + length payload > ra_max_message_size r
          then r\<lparr>ra_skipping := Some (length (ra_buf r) + length payload), ra_buf := []\<rparr>
          else r\<lparr>ra_buf := ra_buf r @ payload\<rparr>)"

text \<open>The end of \<open>push\<close>: the last frame completes or drops the message.\<close>

definition recv_finish :: "reassembler \<Rightarrow> header \<Rightarrow> delivery \<times> reassembler" where
  "recv_finish r h =
     (if hdr_more h then (Pending, r)
      else case ra_skipping r of
        Some n \<Rightarrow> (Dropped n, r\<lparr>ra_text := None, ra_skipping := None\<rparr>)
      | None \<Rightarrow> (Message (ra_buf r) (\<not> hdr_text h), r\<lparr>ra_text := None, ra_buf := []\<rparr>))"

definition recv_push :: "reassembler \<Rightarrow> bytes \<Rightarrow> (frame_error + delivery) \<times> reassembler" where
  "recv_push r frame =
     (case frame of
        [] \<Rightarrow> (Inl Empty, r)
      | first # payload \<Rightarrow>
          (case decode first of
             Inl e \<Rightarrow> (Inl e, r)
           | Inr h \<Rightarrow>
               if (\<exists>t. ra_text r = Some t \<and> t \<noteq> hdr_text h) then (Inl TypeChanged, r)
               else
                 (case recv_finish (recv_store (r\<lparr>ra_text := Some (hdr_text h)\<rparr>) payload) h of
                    (d, r') \<Rightarrow> (Inr d, r'))))"

lemma recv_push_code [code]:
  "recv_push r frame =
     (case frame of
        [] \<Rightarrow> (Inl Empty, r)
      | first # payload \<Rightarrow>
          (case decode first of
             Inl e \<Rightarrow> (Inl e, r)
           | Inr h \<Rightarrow>
               if (case ra_text r of None \<Rightarrow> False | Some t \<Rightarrow> t \<noteq> hdr_text h) then (Inl TypeChanged, r)
               else
                 (case recv_finish (recv_store (r\<lparr>ra_text := Some (hdr_text h)\<rparr>) payload) h of
                    (d, r') \<Rightarrow> (Inr d, r'))))"
  unfolding recv_push_def by (auto split: list.splits sum.splits option.splits)

definition recv_mid_message :: "reassembler \<Rightarrow> bool" where
  "recv_mid_message r = (ra_text r \<noteq> None)"

definition recv_reset :: "reassembler \<Rightarrow> reassembler" where
  "recv_reset r = r\<lparr>ra_buf := [], ra_text := None, ra_skipping := None\<rparr>"

text \<open>Feed a list of frames, collecting the results.\<close>

fun recv_all :: "reassembler \<Rightarrow> bytes list \<Rightarrow> (frame_error + delivery) list \<times> reassembler" where
  "recv_all r [] = ([], r)"
| "recv_all r (f # fs) =
     (case recv_push r f of (d, r') \<Rightarrow> (case recv_all r' fs of (ds, r'') \<Rightarrow> (d # ds, r'')))"

lemmas recv_defs [step_simps] = recv_push_def recv_store_def recv_finish_def recv_new_def recv_reset_def

text \<open>
  The invariant: never more than the limit is buffered, the buffer is empty while
  skipping, and between messages nothing is held.
\<close>

definition recv_inv :: "reassembler \<Rightarrow> bool" where
  "recv_inv r \<longleftrightarrow>
     length (ra_buf r) \<le> ra_max_message_size r \<and>
     (\<forall>n. ra_skipping r = Some n \<longrightarrow> ra_buf r = [] \<and> n > ra_max_message_size r) \<and>
     (ra_text r = None \<longrightarrow> ra_buf r = [] \<and> ra_skipping r = None)"

lemma recv_inv_new: "recv_inv (recv_new mx)"
  by (simp add: recv_inv_def recv_new_def)

lemma recv_inv_reset: "recv_inv (recv_reset r)"
  by (simp add: recv_inv_def recv_reset_def)

lemma recv_inv_push:
  assumes inv: "recv_inv r" and push: "recv_push r f = (d, r')"
  shows "recv_inv r' \<and> ra_max_message_size r' = ra_max_message_size r"
  using inv push unfolding recv_defs recv_inv_def
  by (cases f; cases "ra_skipping r") (auto split: sum.splits if_splits)

lemma recv_inv_all: "recv_inv r \<Longrightarrow> recv_inv (snd (recv_all r fs))"
  by (induction r fs rule: recv_all.induct) (auto split: prod.splits dest: recv_inv_push)

lemma recv_push_max: "ra_max_message_size (snd (recv_push r f)) = ra_max_message_size r"
  by (auto simp: recv_defs split: list.splits sum.splits option.splits)

lemma recv_all_max: "ra_max_message_size (snd (recv_all r fs)) = ra_max_message_size r"
proof (induction r fs rule: recv_all.induct)
  case (2 r f fs)
  then show ?case using recv_push_max [of r f] by (auto split: prod.splits)
qed simp

text \<open>
  What the reassembler holds when the bytes \<open>p\<close> of a message of type \<open>t\<close> have arrived
  and more are to come.
\<close>

definition holding :: "reassembler \<Rightarrow> bool \<Rightarrow> bytes \<Rightarrow> bool" where
  "holding r t p \<longleftrightarrow>
     ra_text r = Some t \<and>
     (if length p \<le> ra_max_message_size r then ra_buf r = p \<and> ra_skipping r = None
      else ra_buf r = [] \<and> ra_skipping r = Some (length p))"

definition idle :: "reassembler \<Rightarrow> bool" where
  "idle r \<longleftrightarrow> ra_text r = None \<and> ra_buf r = [] \<and> ra_skipping r = None"

text \<open>What a whole message turns into under a limit.\<close>

definition outcome :: "nat \<Rightarrow> bytes \<Rightarrow> bool \<Rightarrow> delivery" where
  "outcome mx data binary = (if length data \<le> mx then Message data binary else Dropped (length data))"

lemma recv_push_more:
  assumes "(idle r \<and> p = []) \<or> holding r t p"
  shows "\<exists>r'. recv_push r (encode \<lparr>hdr_more = True, hdr_text = t\<rparr> # c) = (Inr Pending, r') \<and>
              holding r' t (p @ c) \<and> ra_max_message_size r' = ra_max_message_size r"
  using assms by (auto simp: recv_defs holding_def idle_def split: if_splits option.splits)

lemma recv_push_last:
  assumes "(idle r \<and> p = []) \<or> holding r t p"
  shows "\<exists>r'. recv_push r (encode \<lparr>hdr_more = False, hdr_text = t\<rparr> # c)
                = (Inr (outcome (ra_max_message_size r) (p @ c) (\<not> t)), r') \<and>
              idle r' \<and> ra_max_message_size r' = ra_max_message_size r"
  using assms by (auto simp: recv_defs holding_def idle_def outcome_def split: if_splits option.splits)

text \<open>Whatever frames arrive, valid or not, the reassembler never buffers more than its
  limit, and holds no bytes between messages or while it skips an oversized one.\<close>
theorem reassembler_bounded:
  "recv_inv (snd (recv_all (recv_new mx) frames)) \<and>
   length (ra_buf (snd (recv_all (recv_new mx) frames))) \<le> mx"
  using recv_inv_all [OF recv_inv_new, of mx frames] recv_all_max [of "recv_new mx" frames]
  by (auto simp: recv_inv_def recv_new_def)

text \<open>An error leaves the state exactly as it was, and says why: an empty frame, a
  version bit, or a type that differs from the message in progress.\<close>
theorem recv_push_error:
  "recv_push r frame = (Inl e, r') \<longleftrightarrow>
     r' = r \<and>
     ((frame = [] \<and> e = Empty) \<or>
      (frame \<noteq> [] \<and> unat (hd frame) \<ge> 4 \<and> e = UnknownVersion (hd frame)) \<or>
      (frame \<noteq> [] \<and> e = TypeChanged \<and>
       (\<exists>h t. decode (hd frame) = Inr h \<and> ra_text r = Some t \<and> t \<noteq> hdr_text h)))"
proof (cases frame)
  case Nil
  then show ?thesis by (auto simp: recv_push_def)
next
  case (Cons b c)
  then show ?thesis
    using decode_bytes [rule_format, of b]
    by (auto simp: recv_push_def split: sum.splits prod.splits)
qed

end
