(* ===== verification/Dc_Wire.thy ===== *)
theory Dc_Wire
  imports Dc_Send Dc_Recv
begin

text \<open>
  The two ends of the wire together: what the queue cuts, the reassembler joins. The
  system state is a queue and the reassembler at the other end of an ordered, reliable
  channel; the abstract specification is a first-in first-out list of whole messages.
\<close>

section \<open>The system\<close>

record wire =
  w_send :: send_queue
  w_recv :: reassembler
  w_accepted :: "(bytes \<times> bool) list" \<comment> \<open>messages \<open>push\<close> took, oldest first\<close>
  w_results :: "(frame_error + delivery) list" \<comment> \<open>what the reassembler returned, oldest first\<close>

datatype wire_op =
    WSend bytes bool \<comment> \<open>\<open>push\<close> a message at the sender\<close>
  | WPump nat \<comment> \<open>ask for a frame with this much buffered; deliver it\<close>

definition wire_send :: "wire \<Rightarrow> bytes \<Rightarrow> bool \<Rightarrow> wire" where
  "wire_send w data binary =
     (case send_push (w_send w) data binary of
        (Inl _, q) \<Rightarrow> w\<lparr>w_send := q\<rparr>
      | (Inr _, q) \<Rightarrow> w\<lparr>w_send := q, w_accepted := w_accepted w @ [(data, binary)]\<rparr>)"

definition wire_pump :: "wire \<Rightarrow> nat \<Rightarrow> wire" where
  "wire_pump w n =
     (case next_frame (w_send w) n of
        (None, q) \<Rightarrow> w\<lparr>w_send := q\<rparr>
      | (Some f, q) \<Rightarrow>
          (case recv_push (w_recv w) f of
             (d, r) \<Rightarrow> w\<lparr>w_send := q, w_recv := r, w_results := w_results w @ [d]\<rparr>))"

fun wire_step :: "wire \<Rightarrow> wire_op \<Rightarrow> wire" where
  "wire_step w (WSend data binary) = wire_send w data binary"
| "wire_step w (WPump n) = wire_pump w n"

definition wire_run :: "wire \<Rightarrow> wire_op list \<Rightarrow> wire" where
  "wire_run w ops = foldl wire_step w ops"

definition wire_new :: "send_queue \<Rightarrow> nat \<Rightarrow> wire" where
  "wire_new q mx = \<lparr>w_send = q, w_recv = recv_new mx, w_accepted = [], w_results = []\<rparr>"

section \<open>Abstraction\<close>

text \<open>The messages that came out, the pending results left out.\<close>

definition completed :: "(frame_error + delivery) list \<Rightarrow> (frame_error + delivery) list" where
  "completed ds = filter (\<lambda>d. d \<noteq> Inr Pending) ds"

definition outcome_of :: "nat \<Rightarrow> bytes \<times> bool \<Rightarrow> frame_error + delivery" where
  "outcome_of mx m = Inr (outcome mx (fst m) (snd m))"

definition msg_of :: "pending_msg \<Rightarrow> bytes \<times> bool" where
  "msg_of p = (p_data p, \<not> p_text p)"

text \<open>The reassembler holds what the queue's first message has already sent.\<close>

definition in_step :: "send_queue \<Rightarrow> reassembler \<Rightarrow> bool" where
  "in_step q r \<longleftrightarrow>
     (case sq_pending q of
        [] \<Rightarrow> idle r
      | p # _ \<Rightarrow> if p_offset p = 0 then idle r else holding r (p_text p) (take (p_offset p) (p_data p)))"

text \<open>
  The simulation: the accepted messages are those already out, in order, followed by
  those in the queue.
\<close>

definition wire_inv :: "nat \<Rightarrow> wire \<Rightarrow> bool" where
  "wire_inv mx w \<longleftrightarrow>
     queue_inv (w_send w) \<and> in_step (w_send w) (w_recv w) \<and>
     ra_max_message_size (w_recv w) = mx \<and>
     (\<exists>out. w_accepted w = out @ map msg_of (sq_pending (w_send w)) \<and>
            completed (w_results w) = map (outcome_of mx) out)"

lemma completed_simps [simp]:
  "completed [] = []"
  "completed (ds @ [Inr Pending]) = completed ds"
  "d \<noteq> Inr Pending \<Longrightarrow> completed (ds @ [d]) = completed ds @ [d]"
  by (simp_all add: completed_def)

lemma outcome_not_Pending [simp]: "outcome mx data b \<noteq> Pending"
  by (simp add: outcome_def)

lemma wire_inv_new: "queue_inv q \<Longrightarrow> sq_pending q = [] \<Longrightarrow> wire_inv mx (wire_new q mx)"
  by (auto simp: wire_inv_def wire_new_def in_step_def idle_def recv_new_def)

lemma wire_inv_send:
  assumes "wire_inv mx w"
  shows "wire_inv mx (wire_send w data binary)"
proof (cases "send_push (w_send w) data binary")
  case (Pair x q)
  have inv: "queue_inv q"
    using assms Pair by (auto simp: wire_inv_def intro: queue_inv_push)
  show ?thesis
  proof (cases x)
    case (Inl e)
    with Pair have "q = w_send w" by (auto simp: send_push_def Let_def split: if_splits)
    with Pair Inl assms show ?thesis by (auto simp: wire_send_def wire_inv_def)
  next
    case (Inr u)
    with Pair have pend: "sq_pending q =
        sq_pending (w_send w) @ [\<lparr>p_data = data, p_text = \<not> binary, p_offset = 0\<rparr>]"
      by (auto simp: send_push_def Let_def split: if_splits)
    have "in_step q (w_recv w)"
      using assms pend by (auto simp: wire_inv_def in_step_def split: list.splits)
    with Pair Inr inv pend assms show ?thesis
      by (auto simp: wire_send_def wire_inv_def msg_of_def)
  qed
qed

lemma in_step_head:
  "in_step q r \<Longrightarrow> sq_pending q = p # rest \<Longrightarrow>
     (idle r \<and> take (p_offset p) (p_data p) = []) \<or> holding r (p_text p) (take (p_offset p) (p_data p))"
  by (auto simp: in_step_def split: if_splits)

lemma in_step_tail:
  "queue_inv q \<Longrightarrow> sq_pending q = p # rest \<Longrightarrow> idle r \<Longrightarrow> in_step (q\<lparr>sq_queued := n, sq_pending := rest\<rparr>) r"
  by (auto simp: in_step_def queue_inv_def split: list.splits)

lemma wire_inv_pump:
  assumes inv: "wire_inv mx w"
  shows "wire_inv mx (wire_pump w n)"
proof (cases "next_frame (w_send w) n")
  case (Pair x q)
  show ?thesis
  proof (cases x)
    case None
    with Pair have "q = w_send w" by (auto dest: next_frame_None)
    with Pair None inv show ?thesis by (simp add: wire_pump_def)
  next
    case (Some f)
    with Pair have nf: "next_frame (w_send w) n = (Some f, q)" by simp
    have qinv: "queue_inv q" and sinv: "queue_inv (w_send w)"
      using inv nf by (auto simp: wire_inv_def intro: queue_inv_next)
    obtain p rest tk where
      p: "sq_pending (w_send w) = p # rest" and
      tk: "tk = min (chunk_size (sq_config (w_send w)) - 1) (remaining p)" and
      f: "f = encode \<lparr>hdr_more = (p_offset p + tk < length (p_data p)), hdr_text = p_text p\<rparr>
              # take tk (drop (p_offset p) (p_data p))" and
      q: "q = (w_send w)\<lparr>sq_queued := sq_queued (w_send w) - tk,
              sq_pending := (if p_offset p + tk < length (p_data p)
                             then p\<lparr>p_offset := p_offset p + tk\<rparr> # rest else rest)\<rparr>"
      using nf by (rule next_frame_Some)
    let ?r = "w_recv w" and ?pre = "take (p_offset p) (p_data p)"
    let ?c = "take tk (drop (p_offset p) (p_data p))"
    have hold: "(idle ?r \<and> ?pre = []) \<or> holding ?r (p_text p) ?pre"
      using inv p by (intro in_step_head) (auto simp: wire_inv_def)
    have mx: "ra_max_message_size ?r = mx" using inv by (simp add: wire_inv_def)
    have cat: "?pre @ ?c = take (p_offset p + tk) (p_data p)" by (simp add: take_add)
    show ?thesis
    proof (cases "p_offset p + tk < length (p_data p)")
      case True
      with recv_push_more [OF hold, of ?c] f obtain r' where
        r': "recv_push ?r f = (Inr Pending, r')" "holding r' (p_text p) (?pre @ ?c)"
            "ra_max_message_size r' = mx" by (auto simp: mx)
      have "0 < tk" using True tk sinv by (auto simp: remaining_def queue_inv_def valid_config_def)
      then have "in_step q r'" using True r' cat by (simp add: q in_step_def)
      with r' nf inv qinv True p q show ?thesis
        by (auto simp: wire_pump_def wire_inv_def msg_of_def)
    next
      case False
      then have all: "take (p_offset p + tk) (p_data p) = p_data p" by simp
      with False recv_push_last [OF hold, of ?c] f cat mx obtain r' where
        r': "recv_push ?r f = (Inr (outcome mx (p_data p) (\<not> p_text p)), r')" "idle r'"
            "ra_max_message_size r' = mx" by auto
      have "in_step q r'" using in_step_tail [OF sinv p r'(2)] False q by simp
      with r' nf inv qinv False p q show ?thesis
        by (fastforce simp: wire_pump_def wire_inv_def msg_of_def outcome_of_def)
    qed
  qed
qed

lemma wire_inv_run: "wire_inv mx w \<Longrightarrow> wire_inv mx (wire_run w ops)"
  unfolding wire_run_def
proof (induction ops arbitrary: w)
  case (Cons op ops)
  then show ?case by (cases op) (auto simp: wire_inv_send wire_inv_pump)
qed simp

section \<open>Properties\<close>

text \<open>C2: The round trip, for any interleaving of sends and pumps: no frame is ever refused,
  and the messages that come out are the accepted ones, whole, in order and with their
  type, followed by those still queued. A message larger than the receiver's limit comes
  out as a drop of its exact size and harms no other.\<close>
theorem wire_delivers_in_order:
  assumes "send_new c = Some q"
  shows "\<exists>out. w_accepted (wire_run (wire_new q mx) ops)
                 = out @ map msg_of (sq_pending (w_send (wire_run (wire_new q mx) ops))) \<and>
               completed (w_results (wire_run (wire_new q mx) ops)) = map (outcome_of mx) out"
proof -
  have "queue_inv q" "sq_pending q = []"
    using assms by (auto simp: queue_inv_new) (auto simp: send_new_def split: sum.splits)
  then have "wire_inv mx (wire_run (wire_new q mx) ops)" by (intro wire_inv_run wire_inv_new)
  then show ?thesis by (simp add: wire_inv_def)
qed

lemma small_new: "send_new small_config = Some \<lparr>sq_config = small_config, sq_pending = [], sq_queued = 0\<rparr>"
  using small_config_valid by (simp add: send_new_def validate_ok [symmetric])

definition small_wire :: wire where
  "small_wire = wire_run (wire_new \<lparr>sq_config = small_config, sq_pending = [], sq_queued = 0\<rparr> 5)
     [WSend [104, 101, 108, 108, 111, 33] False, WPump 0, WSend [7, 8] True, WPump 99, WPump 100, WPump 3,
      WSend [9] True]"

lemma wire_delivers_in_order_witness:
  "w_accepted small_wire = [([104, 101, 108, 108, 111, 33], False), ([7, 8], True), ([9], True)] \<and>
   completed (w_results small_wire) = [Inr (Dropped 6), Inr (Message [7, 8] True)] \<and>
   (\<exists>out. w_accepted small_wire = out @ map msg_of (sq_pending (w_send small_wire)) \<and>
          completed (w_results small_wire) = map (outcome_of 5) out)"
proof -
  have "w_accepted small_wire = [([104, 101, 108, 108, 111, 33], False), ([7, 8], True), ([9], True)]"
    by code_simp
  moreover have "completed (w_results small_wire) = [Inr (Dropped 6), Inr (Message [7, 8] True)]"
    by code_simp
  ultimately show ?thesis
    using wire_delivers_in_order [OF small_new, of 5] unfolding small_wire_def by blast
qed

section \<open>Draining\<close>

lemma frames_left_0: "frames_left q = 0 \<longleftrightarrow> sq_pending q = []"
  by (cases "sq_pending q") (auto simp: frames_left_def frames_needed_def)

lemma wire_pump_drains:
  assumes inv: "wire_inv mx w" and left: "frames_left (w_send w) = Suc k"
  shows "frames_left (w_send (wire_pump w 0)) = k"
proof -
  have q: "queue_inv (w_send w)" using inv by (simp add: wire_inv_def)
  then have "0 < high_water (sq_config (w_send w))"
    by (simp add: queue_inv_def valid_config_def)
  moreover have "sq_pending (w_send w) \<noteq> []" using left frames_left_0 [of "w_send w"] by auto
  ultimately obtain f q' where "next_frame (w_send w) 0 = (Some f, q')"
    using next_frame_is_Some by blast
  with frames_left_next [OF q this] left show ?thesis
    by (auto simp: wire_pump_def split: prod.splits)
qed

lemma wire_pump_accepted: "w_accepted (wire_pump w n) = w_accepted w"
  by (auto simp: wire_pump_def split: prod.splits option.splits)

lemma wire_run_pumps:
  assumes "wire_inv mx w"
  shows "frames_left (w_send w) = k \<Longrightarrow>
    sq_pending (w_send (wire_run w (replicate k (WPump 0)))) = [] \<and>
    w_accepted (wire_run w (replicate k (WPump 0))) = w_accepted w"
  using assms
proof (induction k arbitrary: w)
  case 0
  then show ?case by (simp add: wire_run_def frames_left_0)
next
  case (Suc k)
  then have "frames_left (w_send (wire_pump w 0)) = k" "wire_inv mx (wire_pump w 0)"
    by (auto intro: wire_pump_drains wire_inv_pump)
  from Suc.IH [OF this] show ?case by (simp add: wire_run_def wire_pump_accepted)
qed

text \<open>C10: Nothing is lost and draining ends: while the native buffer has room, exactly
  \<open>frames_left\<close> pumps empty the queue, and then every accepted message has come out, in
  order, as the receiver's limit has it.\<close>

theorem wire_drains_completely:
  assumes "send_new c = Some q" and "w = wire_run (wire_new q mx) ops"
    and "w' = wire_run w (replicate (frames_left (w_send w)) (WPump 0))"
  shows "sq_pending (w_send w') = [] \<and> w_accepted w' = w_accepted w \<and>
         completed (w_results w') = map (outcome_of mx) (w_accepted w)"
proof -
  have "queue_inv q" "sq_pending q = []"
    using assms(1) by (auto simp: queue_inv_new) (auto simp: send_new_def split: sum.splits)
  then have inv: "wire_inv mx w" unfolding assms(2) by (intro wire_inv_run wire_inv_new)
  then have "wire_inv mx w'" unfolding assms(3) by (rule wire_inv_run)
  with wire_run_pumps [OF inv refl] show ?thesis
    unfolding assms(3) by (auto simp: wire_inv_def)
qed

lemma wire_drains_completely_witness:
  "completed (w_results (wire_run small_wire (replicate 1 (WPump 0)))) =
     [Inr (Dropped 6), Inr (Message [7, 8] True), Inr (Message [9] True)]"
proof -
  have "frames_left (w_send small_wire) = 1" by code_simp
  moreover have "w_accepted small_wire = [([104, 101, 108, 108, 111, 33], False), ([7, 8], True), ([9], True)]"
    by code_simp
  ultimately show ?thesis
    using wire_drains_completely [OF small_new small_wire_def refl]
    by (simp add: outcome_of_def outcome_def)
qed

end
