(* ===== verification/Rust_Str.thy ===== *)
theory Rust_Str
  imports Prelude
begin

text \<open>
  The operations of Rust's \<open>str\<close> that the SDP code calls. A string is its list of
  UTF-8 bytes as \<open>char\<close>s. The white space and digit tests are those of the ASCII
  range; a byte from 128 on (part of a multi-byte character) is not white space
  here, so SDP lines padded with non-ASCII white space are outside the model.
\<close>

definition LF :: char where "LF = CHR 0x0A"
definition CR :: char where "CR = CHR 0x0D"
definition CRLF :: string where "CRLF = [CR, LF]"

lemma LF_neq_CR [simp]: "LF \<noteq> CR" "CR \<noteq> LF"
  by (simp_all add: LF_def CR_def)

section \<open>Lines\<close>

text \<open>
  \<open>str::lines\<close>: split after every line feed, then drop the line feed and one carriage
  return before it. A last piece without a line feed is kept as it is. The first
  argument is the current line, reversed.
\<close>

definition strip_cr_rev :: "string \<Rightarrow> string" where
  "strip_cr_rev cur = (case cur of [] \<Rightarrow> [] | c # cs \<Rightarrow> if c = CR then cs else cur)"

fun lines_aux :: "string \<Rightarrow> string \<Rightarrow> string list" where
  "lines_aux cur [] = (if cur = [] then [] else [rev cur])"
| "lines_aux cur (c # cs) =
     (if c = LF then rev (strip_cr_rev cur) # lines_aux [] cs else lines_aux (c # cur) cs)"

definition str_lines :: "string \<Rightarrow> string list" where
  "str_lines s = lines_aux [] s"

definition no_lf :: "string \<Rightarrow> bool" where
  "no_lf l = (LF \<notin> set l)"

lemma no_lf_simps [simp]:
  "no_lf []"
  "no_lf (c # cs) \<longleftrightarrow> c \<noteq> LF \<and> no_lf cs"
  "no_lf (xs @ ys) \<longleftrightarrow> no_lf xs \<and> no_lf ys"
  "no_lf (rev xs) \<longleftrightarrow> no_lf xs"
  by (auto simp: no_lf_def)

lemma no_lf_strip_cr_rev [simp]: "no_lf cur \<Longrightarrow> no_lf (strip_cr_rev cur)"
  by (auto simp: strip_cr_rev_def split: list.splits)

lemma lines_aux_no_lf: "no_lf cur \<Longrightarrow> \<forall>l \<in> set (lines_aux cur s). no_lf l"
  by (induction cur s rule: lines_aux.induct) auto

lemma str_lines_no_lf: "l \<in> set (str_lines s) \<Longrightarrow> no_lf l"
  using lines_aux_no_lf [of "[]" s] by (auto simp: str_lines_def)

lemma lines_aux_crlf:
  "no_lf l \<Longrightarrow> lines_aux cur (l @ CRLF @ s) = (rev cur @ l) # lines_aux [] s"
proof (induction l arbitrary: cur)
  case Nil
  then show ?case by (simp add: CRLF_def strip_cr_rev_def)
next
  case (Cons c l)
  then show ?case by simp
qed

text \<open>What the rewriting functions produce: every line followed by CR LF.\<close>

definition join_crlf :: "string list \<Rightarrow> string" where
  "join_crlf ls = concat (map (\<lambda>l. l @ CRLF) ls)"

lemma join_crlf_simps [simp]:
  "join_crlf [] = []"
  "join_crlf (l # ls) = l @ CRLF @ join_crlf ls"
  "join_crlf (ls @ ms) = join_crlf ls @ join_crlf ms"
  by (simp_all add: join_crlf_def)

lemma str_lines_join_crlf:
  "\<forall>l \<in> set ls. no_lf l \<Longrightarrow> str_lines (join_crlf ls) = ls"
proof (induction ls)
  case Nil
  then show ?case by (simp add: str_lines_def)
next
  case (Cons l ls)
  then show ?case
    using lines_aux_crlf [of l "[]" "join_crlf ls"] by (simp add: str_lines_def)
qed

lemma str_lines_normal [simp]: "str_lines (join_crlf (str_lines s)) = str_lines s"
  by (rule str_lines_join_crlf) (simp add: str_lines_no_lf)

lemma lines_aux_eq_Nil: "lines_aux cur s = [] \<longleftrightarrow> cur = [] \<and> s = []"
  by (induction cur s rule: lines_aux.induct) auto

lemma str_lines_eq_Nil [simp]: "str_lines s = [] \<longleftrightarrow> s = []"
  by (simp add: str_lines_def lines_aux_eq_Nil)

section \<open>Prefixes, trimming, splitting\<close>

fun strip_prefix :: "string \<Rightarrow> string \<Rightarrow> string option" where
  "strip_prefix [] s = Some s"
| "strip_prefix (p # ps) [] = None"
| "strip_prefix (p # ps) (c # cs) = (if p = c then strip_prefix ps cs else None)"

definition starts_with :: "string \<Rightarrow> string \<Rightarrow> bool" where
  "starts_with s p = (strip_prefix p s \<noteq> None)"

lemma strip_prefix_append [simp]: "strip_prefix p (p @ s) = Some s"
  by (induction p) auto

lemma strip_prefix_eq_Some: "strip_prefix p s = Some r \<longleftrightarrow> s = p @ r"
  by (induction p s rule: strip_prefix.induct) auto

lemma starts_with_append [simp]: "starts_with (p @ s) p"
  by (simp add: starts_with_def)

lemma starts_with_iff: "starts_with s p \<longleftrightarrow> (\<exists>r. s = p @ r)"
  by (auto simp: starts_with_def strip_prefix_eq_Some)

text \<open>\<open>char::is_whitespace\<close> on the ASCII range: tab to carriage return, and space.\<close>

definition is_whitespace :: "char \<Rightarrow> bool" where
  "is_whitespace c = ((9 \<le> (of_char c :: nat) \<and> (of_char c :: nat) \<le> 13) \<or> (of_char c :: nat) = 32)"

definition trim_start :: "string \<Rightarrow> string" where
  "trim_start s = dropWhile is_whitespace s"

definition trim_end :: "string \<Rightarrow> string" where
  "trim_end s = rev (dropWhile is_whitespace (rev s))"

definition trim :: "string \<Rightarrow> string" where
  "trim s = trim_end (trim_start s)"

lemma trim_start_id: "s = [] \<or> \<not> is_whitespace (hd s) \<Longrightarrow> trim_start s = s"
  by (cases s) (auto simp: trim_start_def)

lemma trim_end_id: "s = [] \<or> \<not> is_whitespace (last s) \<Longrightarrow> trim_end s = s"
  by (cases s rule: rev_cases) (auto simp: trim_end_def)

lemma trim_id:
  "s = [] \<or> (\<not> is_whitespace (hd s) \<and> \<not> is_whitespace (last s)) \<Longrightarrow> trim s = s"
  by (auto simp: trim_def trim_start_id trim_end_id)

text \<open>\<open>split_once\<close> at the first character that satisfies a predicate, and \<open>split\<close> at every one.\<close>

fun split_once :: "(char \<Rightarrow> bool) \<Rightarrow> string \<Rightarrow> (string \<times> string) option" where
  "split_once p [] = None"
| "split_once p (c # cs) =
     (if p c then Some ([], cs) else map_option (\<lambda>(a, b). (c # a, b)) (split_once p cs))"

fun str_split :: "char \<Rightarrow> string \<Rightarrow> string list" where
  "str_split sep [] = [[]]"
| "str_split sep (c # cs) =
     (if c = sep then [] # str_split sep cs
      else case str_split sep cs of [] \<Rightarrow> [[c]] | p # ps \<Rightarrow> (c # p) # ps)"

lemma split_once_append:
  "\<forall>c \<in> set a. \<not> p c \<Longrightarrow> p s \<Longrightarrow> split_once p (a @ s # b) = Some (a, b)"
  by (induction a) auto

lemma split_once_None: "\<forall>c \<in> set a. \<not> p c \<Longrightarrow> split_once p a = None"
  by (induction a) auto

lemma str_split_none: "sep \<notin> set s \<Longrightarrow> str_split sep s = [s]"
  by (induction s) auto

section \<open>Numbers\<close>

text \<open>
  \<open>str::parse\<close> for an unsigned integer type whose largest value is \<open>mx\<close>: an optional
  plus sign, then at least one digit, refusing any value above \<open>mx\<close>.
\<close>

definition char_digit :: "char \<Rightarrow> nat option" where
  "char_digit c = (let n = of_char c in if 48 \<le> n \<and> n \<le> 57 then Some (n - 48) else None)"

fun digits_val :: "nat \<Rightarrow> nat \<Rightarrow> string \<Rightarrow> nat option" where
  "digits_val mx acc [] = Some acc"
| "digits_val mx acc (c # cs) =
     (case char_digit c of
        None \<Rightarrow> None
      | Some d \<Rightarrow> if acc * 10 + d > mx then None else digits_val mx (acc * 10 + d) cs)"

definition parse_uint :: "nat \<Rightarrow> string \<Rightarrow> nat option" where
  "parse_uint mx s =
     (let s' = (case s of [] \<Rightarrow> [] | c # cs \<Rightarrow> if c = CHR ''+'' then cs else s)
      in if s' = [] then None else digits_val mx 0 s')"

definition u32_max :: nat where "u32_max = 4294967295"
definition u64_max :: nat where "u64_max = 18446744073709551615"

text \<open>The decimal digits \<open>format!\<close> writes.\<close>

definition digit_char :: "nat \<Rightarrow> char" where
  "digit_char d = char_of (48 + d)"

fun show_nat :: "nat \<Rightarrow> string" where
  "show_nat n = (if n < 10 then [digit_char n] else show_nat (n div 10) @ [digit_char (n mod 10)])"

declare show_nat.simps [simp del]

lemma of_char_digit_char: "d < 10 \<Longrightarrow> (of_char (digit_char d) :: nat) = 48 + d"
  by (simp add: digit_char_def)

lemma char_digit_digit_char [simp]: "d < 10 \<Longrightarrow> char_digit (digit_char d) = Some d"
  by (simp add: char_digit_def of_char_digit_char Let_def)

lemma show_nat_not_Nil [simp]: "show_nat n \<noteq> []"
  by (subst show_nat.simps) simp

lemma show_nat_digits: "c \<in> set (show_nat n) \<Longrightarrow> \<exists>d < 10. c = digit_char d"
proof (induction n rule: show_nat.induct)
  case (1 n)
  have last: "\<exists>d < 10. digit_char (n mod 10) = digit_char d"
    by (rule exI [of _ "n mod 10"]) simp
  from "1.prems" show ?case
    by (subst (asm) show_nat.simps) (use "1.IH" last in \<open>auto split: if_splits\<close>)
qed

lemma digit_char_not_ws: "d < 10 \<Longrightarrow> \<not> is_whitespace (digit_char d)"
  by (simp add: is_whitespace_def of_char_digit_char)

lemma digit_char_neq:
  "d < 10 \<Longrightarrow> digit_char d \<noteq> CHR ''+''"
  "d < 10 \<Longrightarrow> digit_char d \<noteq> CHR '';''"
  "d < 10 \<Longrightarrow> digit_char d \<noteq> CHR ''=''"
  "d < 10 \<Longrightarrow> digit_char d \<noteq> LF"
  by (auto simp: LF_def dest!: arg_cong [where f = "of_char :: char \<Rightarrow> nat"]
      simp: of_char_digit_char)

lemma show_nat_not_ws: "c \<in> set (show_nat n) \<Longrightarrow> \<not> is_whitespace c"
  by (auto dest!: show_nat_digits simp: digit_char_not_ws)

lemma show_nat_neq:
  "c \<in> set (show_nat n) \<Longrightarrow> c \<noteq> CHR ''+'' \<and> c \<noteq> CHR '';'' \<and> c \<noteq> CHR ''='' \<and> c \<noteq> LF"
  by (auto dest!: show_nat_digits simp: digit_char_neq)

lemma show_nat_no_lf [simp]: "no_lf (show_nat n)"
  using show_nat_neq by (auto simp: no_lf_def)

lemma trim_show_nat [simp]: "trim (show_nat n) = show_nat n"
  by (rule trim_id) (simp add: show_nat_not_ws [of _ n])

lemma digits_val_show_nat:
  "n \<le> mx \<Longrightarrow> digits_val mx 0 (show_nat n @ cs) = digits_val mx n cs"
proof (induction n arbitrary: cs rule: show_nat.induct)
  case (1 n)
  show ?case
  proof (cases "n < 10")
    case True
    with 1 show ?thesis by (subst show_nat.simps) simp
  next
    case False
    have "n div 10 \<le> mx" using 1(2) by simp
    with 1(1) [OF False] have
      "digits_val mx 0 (show_nat (n div 10) @ digit_char (n mod 10) # cs)
       = digits_val mx (n div 10) (digit_char (n mod 10) # cs)" by blast
    with False 1(2) show ?thesis by (subst show_nat.simps) simp
  qed
qed

lemma parse_show_nat [simp]: "n \<le> mx \<Longrightarrow> parse_uint mx (show_nat n) = Some n"
proof -
  assume le: "n \<le> mx"
  obtain c cs where c: "show_nat n = c # cs" by (cases "show_nat n") auto
  then have "c \<noteq> CHR ''+''" using show_nat_neq [of c n] by simp
  with c le digits_val_show_nat [OF le, of "[]"] show ?thesis
    by (simp add: parse_uint_def)
qed

lemma digits_val_le: "digits_val mx acc s = Some n \<Longrightarrow> acc \<le> mx \<Longrightarrow> n \<le> mx"
  by (induction mx acc s rule: digits_val.induct) (auto split: option.splits if_splits)

lemma parse_uint_le: "parse_uint mx s = Some n \<Longrightarrow> n \<le> mx"
  by (auto simp: parse_uint_def Let_def dest: digits_val_le split: if_splits)

section \<open>ASCII case\<close>

definition to_ascii_lowercase :: "char \<Rightarrow> char" where
  "to_ascii_lowercase c =
     (if 65 \<le> (of_char c :: nat) \<and> (of_char c :: nat) \<le> 90 then char_of ((of_char c :: nat) + 32) else c)"

definition eq_ignore_ascii_case :: "string \<Rightarrow> string \<Rightarrow> bool" where
  "eq_ignore_ascii_case s t \<longleftrightarrow> map to_ascii_lowercase s = map to_ascii_lowercase t"

end
