(* ===== verification/Dc_Sdp.thy ===== *)
theory Dc_Sdp
  imports Rust_Str Dc_Send
begin

text \<open>
  The session-level SDP attribute both peers declare
  (\<open>crates/reactor-webrtc-dc-chunking/src/sdp.rs\<close>), the loop that inserts a session-level
  line, and the interface of an attribute that is declared and read back.
\<close>

definition DC_CHUNKING_ATTRIBUTE :: string where
  "DC_CHUNKING_ATTRIBUTE = ''x-reactor-dc-chunking''"
definition DC_CHUNKING_VERSION :: nat where "DC_CHUNKING_VERSION = 1"
definition MAX_MESSAGE_SIZE_PARAM :: string where "MAX_MESSAGE_SIZE_PARAM = ''max-message-size''"

record params =
  pa_version :: nat
  pa_max_message_size :: "nat option"

definition params_local :: "nat \<Rightarrow> params" where
  "params_local n = \<lparr>pa_version = DC_CHUNKING_VERSION, pa_max_message_size = Some n\<rparr>"

definition dc_prefix :: string where
  "dc_prefix = ''a='' @ DC_CHUNKING_ATTRIBUTE @ '':''"

definition params_line :: "params \<Rightarrow> string" where
  "params_line p =
     (case pa_max_message_size p of
        Some n \<Rightarrow> dc_prefix @ show_nat (pa_version p) @ '' '' @ MAX_MESSAGE_SIZE_PARAM @ ''='' @ show_nat n
      | None \<Rightarrow> dc_prefix @ show_nat (pa_version p))"

definition effective_max_message_size :: "nat \<Rightarrow> params \<Rightarrow> nat" where
  "effective_max_message_size local remote =
     min local (case pa_max_message_size remote of Some n \<Rightarrow> n | None \<Rightarrow> LEGACY_MAX_MESSAGE_SIZE)"

definition has_attribute :: "string \<Rightarrow> bool" where
  "has_attribute sdp = list_ex (\<lambda>l. starts_with l dc_prefix) (str_lines sdp)"

section \<open>Inserting a session-level line\<close>

text \<open>The loop of \<open>declare\<close>: copy the lines with CR LF endings, the declaration before the
  first media line, or at the end when there is none.\<close>

fun insert_loop :: "string \<Rightarrow> bool \<Rightarrow> string list \<Rightarrow> string" where
  "insert_loop declaration inserted [] = (if inserted then [] else declaration)"
| "insert_loop declaration inserted (line # ls) =
     (if \<not> inserted \<and> starts_with line ''m=''
      then declaration @ line @ CRLF @ insert_loop declaration True ls
      else line @ CRLF @ insert_loop declaration inserted ls)"

definition dc_declare :: "string \<Rightarrow> params \<Rightarrow> string" where
  "dc_declare sdp p =
     (if has_attribute sdp \<or> str_lines sdp = [] then sdp
      else insert_loop (params_line p @ CRLF) False (str_lines sdp))"

section \<open>Parsing\<close>

fun find_prefixed :: "string \<Rightarrow> string list \<Rightarrow> string option" where
  "find_prefixed prefix [] = None"
| "find_prefixed prefix (l # ls) =
     (case strip_prefix prefix l of Some v \<Rightarrow> Some v | None \<Rightarrow> find_prefixed prefix ls)"

text \<open>The loop over the parameters; the outer \<open>None\<close> is the early return.\<close>

fun parse_params :: "string list \<Rightarrow> nat option \<Rightarrow> nat option option" where
  "parse_params [] mx = Some mx"
| "parse_params (pair # rest) mx =
     (case split_once (\<lambda>c. c = CHR ''='') pair of
        None \<Rightarrow> None
      | Some (key, val) \<Rightarrow>
          if trim key = MAX_MESSAGE_SIZE_PARAM
          then (case parse_uint u64_max (trim val) of None \<Rightarrow> None | Some n \<Rightarrow> parse_params rest (Some n))
          else parse_params rest mx)"

definition dc_parse :: "string \<Rightarrow> params option" where
  "dc_parse sdp =
     (case find_prefixed dc_prefix (str_lines sdp) of
        None \<Rightarrow> None
      | Some v \<Rightarrow>
          (let value = trim v;
               (ver, ps) = (case split_once is_whitespace value of
                              Some (a, rest) \<Rightarrow> (a, trim rest)
                            | None \<Rightarrow> (value, []))
           in case parse_uint u32_max ver of
                None \<Rightarrow> None
              | Some version \<Rightarrow>
                  if version \<noteq> DC_CHUNKING_VERSION then None
                  else map_option (\<lambda>mx. \<lparr>pa_version = version, pa_max_message_size = mx\<rparr>)
                         (parse_params (filter (\<lambda>p. p \<noteq> []) (map trim (str_split CHR '';'' ps))) None)))"

lemmas dc_sdp_constants = DC_CHUNKING_ATTRIBUTE_def DC_CHUNKING_VERSION_def MAX_MESSAGE_SIZE_PARAM_def
  dc_prefix_def

section \<open>The lines of a declared description\<close>

fun insert_line :: "string \<Rightarrow> string list \<Rightarrow> string list" where
  "insert_line d [] = [d]"
| "insert_line d (l # ls) = (if starts_with l ''m='' then d # l # ls else l # insert_line d ls)"

lemma insert_loop_True: "insert_loop decl True ls = join_crlf ls"
  by (induction ls) auto

lemma insert_loop_False: "insert_loop (d @ CRLF) False ls = join_crlf (insert_line d ls)"
  by (induction ls) (auto simp: insert_loop_True)

lemma set_insert_line: "set (insert_line d ls) = insert d (set ls)"
  by (induction ls) auto

text \<open>Everything but the inserted line is kept, in order; the line goes before the first media
  line.\<close>

lemma insert_line_split:
  "insert_line d ls = takeWhile (\<lambda>l. \<not> starts_with l ''m='') ls @ [d]
                      @ dropWhile (\<lambda>l. \<not> starts_with l ''m='') ls"
  by (induction ls) auto

lemma no_lf_prefix: "no_lf dc_prefix"
  by (simp add: dc_sdp_constants no_lf_def LF_def)

lemma no_lf_params_line [simp]: "no_lf (params_line p)"
  by (auto simp: params_line_def no_lf_prefix split: option.splits)
     (simp_all add: MAX_MESSAGE_SIZE_PARAM_def LF_def)

lemma str_lines_insert:
  assumes "no_lf d"
  shows "str_lines (insert_loop (d @ CRLF) False (str_lines s)) = insert_line d (str_lines s)"
  unfolding insert_loop_False
  by (rule str_lines_join_crlf) (auto simp: set_insert_line assms dest: str_lines_no_lf)

lemma str_lines_declare:
  "s \<noteq> [] \<Longrightarrow> \<not> has_attribute s \<Longrightarrow>
   str_lines (dc_declare s p) = insert_line (params_line p) (str_lines s)"
  using str_lines_insert [OF no_lf_params_line] by (simp add: dc_declare_def)

lemma find_prefixed_None: "find_prefixed p ls = None \<longleftrightarrow> (\<forall>l \<in> set ls. \<not> starts_with l p)"
  by (induction ls) (auto simp: starts_with_def split: option.splits)

lemma find_prefixed_insert:
  assumes "\<forall>l \<in> set ls. \<not> starts_with l p"
  shows "find_prefixed p (insert_line (p @ v) ls) = Some v"
  using assms by (induction ls) (auto simp: starts_with_def split: option.splits)

lemma params_line_prefix: "\<exists>v. params_line p = dc_prefix @ v"
  by (auto simp: params_line_def split: option.splits)

lemma has_attribute_declare:
  "s \<noteq> [] \<Longrightarrow> has_attribute (dc_declare s p)"
proof (cases "has_attribute s")
  case False
  assume "s \<noteq> []"
  then show ?thesis
    using False params_line_prefix [of p] str_lines_declare [of s p]
    by (auto simp: has_attribute_def list_ex_iff set_insert_line)
qed (simp add: dc_declare_def)

section \<open>A declared capability\<close>

text \<open>
  An attribute a description can carry: reading it, and declaring it. Both session-level
  attributes of the program are proved against this interface.
\<close>

locale sdp_capability =
  fixes declares :: "string \<Rightarrow> bool"
    and with_decl :: "string \<Rightarrow> string"
  assumes with_decl_same: "declares s \<Longrightarrow> with_decl s = s"
    and with_decl_empty: "with_decl [] = []"
    and with_decl_declares: "s \<noteq> [] \<Longrightarrow> declares (with_decl s)"
begin

lemma with_decl_idem: "with_decl (with_decl s) = with_decl s"
  using with_decl_same with_decl_declares with_decl_empty by (cases "s = []") auto

lemma declares_with_decl: "declares (with_decl s) \<longleftrightarrow> s \<noteq> [] \<or> declares []"
  using with_decl_declares with_decl_empty by (cases "s = []") auto

text \<open>Mirroring: an answer declares what the offer declared.\<close>

lemma mirror:
  "answer \<noteq> [] \<Longrightarrow> \<not> declares answer \<Longrightarrow>
   declares (if b then with_decl answer else answer) \<longleftrightarrow> b"
  using with_decl_declares by auto

end

lemma dc_declare_same: "has_attribute s \<Longrightarrow> dc_declare s p = s"
  by (simp add: dc_declare_def)

lemma dc_declare_Nil [simp]: "dc_declare [] p = []"
  by (simp add: dc_declare_def)

interpretation dc_cap: sdp_capability has_attribute "\<lambda>s. dc_declare s p" for p
  by unfold_locales (simp_all add: dc_declare_same has_attribute_declare)

section \<open>Round trip\<close>

definition wire_value :: "params \<Rightarrow> string" where
  "wire_value p =
     (case pa_max_message_size p of
        Some n \<Rightarrow> show_nat (pa_version p) @ '' '' @ MAX_MESSAGE_SIZE_PARAM @ ''='' @ show_nat n
      | None \<Rightarrow> show_nat (pa_version p))"

lemma params_line_value: "params_line p = dc_prefix @ wire_value p"
  by (simp add: params_line_def wire_value_def split: option.splits)

lemma show_nat_hd_last [simp]:
  "\<not> is_whitespace (hd (show_nat n))" "\<not> is_whitespace (last (show_nat n))"
  by (simp_all add: show_nat_not_ws [of _ n])

lemma wire_value_ends: "\<not> is_whitespace (hd (wire_value p)) \<and> \<not> is_whitespace (last (wire_value p))"
  by (cases "pa_max_message_size p") (simp_all add: wire_value_def hd_append)

lemma trim_wire_value: "trim (wire_value p) = wire_value p"
  by (rule trim_id) (simp add: wire_value_ends)

lemma ws_space: "is_whitespace CHR '' ''"
  by (simp add: is_whitespace_def)

lemma param_not_ws: "\<forall>c \<in> set MAX_MESSAGE_SIZE_PARAM. \<not> is_whitespace c \<and> c \<noteq> CHR ''='' \<and> c \<noteq> CHR '';''"
  by (simp add: MAX_MESSAGE_SIZE_PARAM_def is_whitespace_def)

lemma param_hd: "MAX_MESSAGE_SIZE_PARAM \<noteq> []" "\<not> is_whitespace (hd (MAX_MESSAGE_SIZE_PARAM @ s))"
  by (simp_all add: MAX_MESSAGE_SIZE_PARAM_def is_whitespace_def)

lemma trim_param: "trim MAX_MESSAGE_SIZE_PARAM = MAX_MESSAGE_SIZE_PARAM"
  by (rule trim_id) (simp add: MAX_MESSAGE_SIZE_PARAM_def is_whitespace_def)

lemma parse_params_size:
  assumes "n \<le> u64_max"
  shows "parse_params (filter (\<lambda>p. p \<noteq> []) (map trim (str_split CHR '';''
           (trim (MAX_MESSAGE_SIZE_PARAM @ CHR ''='' # show_nat n))))) None = Some (Some n)"
proof -
  let ?s = "MAX_MESSAGE_SIZE_PARAM @ CHR ''='' # show_nat n"
  have tr: "trim ?s = ?s"
    by (rule trim_id) (use param_hd(2) [of "[]"] in \<open>simp add: param_hd(1)\<close>)
  have "CHR '';'' \<notin> set ?s"
    using show_nat_neq [of _ n] by (auto simp: MAX_MESSAGE_SIZE_PARAM_def)
  then have split: "str_split CHR '';'' ?s = [?s]" by (rule str_split_none)
  have "split_once (\<lambda>c. c = CHR ''='') (MAX_MESSAGE_SIZE_PARAM @ CHR ''='' # show_nat n)
        = Some (MAX_MESSAGE_SIZE_PARAM, show_nat n)"
    by (rule split_once_append) (use param_not_ws in auto)
  then show ?thesis using assms by (simp add: tr split trim_param)
qed

lemma dc_parse_value:
  assumes "find_prefixed dc_prefix (str_lines s) = Some (wire_value p)"
    and "pa_version p = DC_CHUNKING_VERSION"
    and "\<forall>n. pa_max_message_size p = Some n \<longrightarrow> n \<le> u64_max"
  shows "dc_parse s = Some p"
proof (cases "pa_max_message_size p")
  case None
  have v: "wire_value p = show_nat (pa_version p)" using None by (simp add: wire_value_def)
  have "split_once is_whitespace (show_nat (pa_version p)) = None"
    by (rule split_once_None) (simp add: show_nat_not_ws)
  moreover have "parse_uint u32_max (show_nat 1) = Some 1" by (simp add: u32_max_def)
  ultimately show ?thesis
    using assms None trim_wire_value [of p]
    by (simp add: dc_parse_def v DC_CHUNKING_VERSION_def trim_def trim_start_def trim_end_def)
next
  case (Some n)
  have v: "wire_value p = show_nat (pa_version p) @ CHR '' '' # MAX_MESSAGE_SIZE_PARAM @ CHR ''='' # show_nat n"
    using Some by (simp add: wire_value_def)
  have "split_once is_whitespace (wire_value p)
        = Some (show_nat (pa_version p), MAX_MESSAGE_SIZE_PARAM @ CHR ''='' # show_nat n)"
    unfolding v by (rule split_once_append) (use show_nat_not_ws ws_space in \<open>blast+\<close>)
  moreover have "parse_uint u32_max (show_nat 1) = Some 1" by (simp add: u32_max_def)
  ultimately show ?thesis
    using assms Some parse_params_size [of n] trim_wire_value [of p]
    by (simp add: dc_parse_def DC_CHUNKING_VERSION_def)
qed

lemma dc_parse_declare:
  assumes "s \<noteq> []" "\<not> has_attribute s" "pa_version p = DC_CHUNKING_VERSION"
    and "\<forall>n. pa_max_message_size p = Some n \<longrightarrow> n \<le> u64_max"
  shows "dc_parse (dc_declare s p) = Some p"
proof (rule dc_parse_value)
  have "str_lines (dc_declare s p) = insert_line (params_line p) (str_lines s)"
    using assms(1,2) str_lines_declare by simp
  then show "find_prefixed dc_prefix (str_lines (dc_declare s p)) = Some (wire_value p)"
    using assms(2) find_prefixed_insert [of "str_lines s" dc_prefix "wire_value p"]
    by (simp add: has_attribute_def list_ex_iff params_line_value)
qed (use assms in auto)

lemma dc_parse_None: "\<not> has_attribute s \<Longrightarrow> dc_parse s = None"
  using find_prefixed_None [of dc_prefix "str_lines s"]
  by (auto simp: dc_parse_def has_attribute_def list_ex_iff)

lemma dc_parse_has: "dc_parse s = Some p \<Longrightarrow> has_attribute s"
  using dc_parse_None by fastforce

section \<open>Properties\<close>

text \<open>C29: Declaring the capability and reading it back. A description that does not carry the
  attribute yet, declared with parameters of the version this build speaks, parses to exactly
  those parameters: the peer reads the receive limit this side wrote.\<close>
theorem dc_declare_parse_round_trip:
  assumes "s \<noteq> []" and "\<not> has_attribute s" and "pa_version p = DC_CHUNKING_VERSION"
    and "case pa_max_message_size p of Some n \<Rightarrow> n \<le> u64_max | None \<Rightarrow> True"
  shows "dc_parse (dc_declare s p) = Some p"
  by (rule dc_parse_declare) (use assms in \<open>auto split: option.splits\<close>)

definition sample_sdp :: string where
  "sample_sdp = ''v=0'' @ CRLF @ ''m=audio'' @ CRLF"

lemma sample_sdp_lines: "str_lines sample_sdp = [''v=0'', ''m=audio'']"
  by (simp add: sample_sdp_def str_lines_def CRLF_def LF_def CR_def strip_cr_rev_def)

lemma sample_sdp_no_attribute: "\<not> has_attribute sample_sdp"
  by (simp add: has_attribute_def sample_sdp_lines dc_sdp_constants starts_with_def)

lemma dc_declare_parse_round_trip_witness:
  "dc_parse (dc_declare sample_sdp (params_local 67108864)) = Some (params_local 67108864)"
  by (rule dc_declare_parse_round_trip [OF _ sample_sdp_no_attribute])
     (simp_all add: params_local_def u64_max_def sample_sdp_def)

text \<open>What declaring changes. A description that carries the attribute, or that is empty,
  comes back as it was; any other keeps every line in order and gains exactly one, immediately
  before the first media line (at the end when there is none). Declaring twice is declaring once,
  whatever parameters the second call has.\<close>
theorem dc_declare_inserts_one_line:
  "dc_declare s p =
     (if s = [] \<or> has_attribute s then s
      else join_crlf (takeWhile (\<lambda>l. \<not> starts_with l ''m='') (str_lines s) @ [params_line p]
                      @ dropWhile (\<lambda>l. \<not> starts_with l ''m='') (str_lines s)))
   \<and> dc_declare (dc_declare s p) q = dc_declare s p"
proof
  show "dc_declare s p =
     (if s = [] \<or> has_attribute s then s
      else join_crlf (takeWhile (\<lambda>l. \<not> starts_with l ''m='') (str_lines s) @ [params_line p]
                      @ dropWhile (\<lambda>l. \<not> starts_with l ''m='') (str_lines s)))"
    by (simp add: dc_declare_def insert_loop_False insert_line_split)
  show "dc_declare (dc_declare s p) q = dc_declare s p"
    using dc_cap.with_decl_declares [of s p]
    by (cases "s = []") (simp_all add: dc_declare_same)
qed

end
