(* ===== verification/Rust_Error.thy ===== *)
theory Rust_Error
  imports Dc_Send
begin

text \<open>
  The error type of the crate (\<open>crates/reactor-webrtc/src/lib.rs\<close>). A message built by
  \<open>format!\<close> is kept unrendered, as its template and its arguments.
\<close>

datatype fmt_arg = AStr string | ANat nat | AInt int | AChar char | AConfig config_error

datatype message = Fmt string "fmt_arg list"

abbreviation Text :: "string \<Rightarrow> message" where "Text s \<equiv> Fmt s []"

datatype error =
    Webrtc message
  | NotFound message
  | DataChannel send_error

type_synonym 'a result = "error + 'a"

end
