(* ===== verification/Session_Description.thy ===== *)
theory Session_Description
  imports Dc_Sdp Rust_Error
begin

text \<open>
  Session descriptions and the small signalling types
  (\<open>crates/reactor-webrtc/src/peer_connection.rs\<close>): the SDP kinds, the substitution of ICE
  credentials, the two session-level declarations, and the enumerations decoded from the
  native layer's integers.
\<close>

section \<open>SDP kinds\<close>

datatype sdp_type = Offer | PrAnswer | Answer | Rollback

fun sdp_as_str :: "sdp_type \<Rightarrow> string" where
  "sdp_as_str Offer = ''offer''"
| "sdp_as_str PrAnswer = ''pranswer''"
| "sdp_as_str Answer = ''answer''"
| "sdp_as_str Rollback = ''rollback''"

definition sdp_from_str :: "string \<Rightarrow> sdp_type option" where
  "sdp_from_str s =
     (if s = ''offer'' then Some Offer
      else if s = ''pranswer'' then Some PrAnswer
      else if s = ''answer'' then Some Answer
      else if s = ''rollback'' then Some Rollback
      else None)"

lemma sdp_from_str_iff: "sdp_from_str s = Some k \<longleftrightarrow> s = sdp_as_str k"
  by (cases k) (auto simp: sdp_from_str_def)

record session_description =
  sd_kind :: sdp_type
  sd_sdp :: string

section \<open>ICE credentials\<close>

text \<open>An inclusive range is its two bounds.\<close>

definition ICE_UFRAG_LEN :: "nat \<times> nat" where "ICE_UFRAG_LEN = (4, 256)"
definition ICE_PWD_LEN :: "nat \<times> nat" where "ICE_PWD_LEN = (22, 256)"

definition is_ascii_alphanumeric :: "char \<Rightarrow> bool" where
  "is_ascii_alphanumeric c =
     (let n = (of_char c :: nat) in
        (48 \<le> n \<and> n \<le> 57) \<or> (65 \<le> n \<and> n \<le> 90) \<or> (97 \<le> n \<and> n \<le> 122))"

definition is_ice_char :: "char \<Rightarrow> bool" where
  "is_ice_char c = (is_ascii_alphanumeric c \<or> c = CHR ''+'' \<or> c = CHR ''/'')"

definition check_ice_value :: "string \<Rightarrow> string \<Rightarrow> nat \<times> nat \<Rightarrow> unit result" where
  "check_ice_value what value len =
     (if \<not> (fst len \<le> length value \<and> length value \<le> snd len)
      then Inl (Webrtc (Fmt ''{what} must be {}..={} characters, got {}''
                  [AStr what, ANat (fst len), ANat (snd len), ANat (length value)]))
      else case find (\<lambda>c. \<not> is_ice_char c) value of
             Some bad \<Rightarrow> Inl (Webrtc (Fmt ''{what} contains {bad:?}, which is not an RFC 8445 ice-char''
                               [AStr what, AChar bad]))
           | None \<Rightarrow> Inr ())"

definition ufrag_prefix :: string where "ufrag_prefix = ''a=ice-ufrag:''"
definition pwd_prefix :: string where "pwd_prefix = ''a=ice-pwd:''"

definition ice_ufrags :: "session_description \<Rightarrow> string list" where
  "ice_ufrags d =
     List.map_filter (\<lambda>l. map_option trim_end (strip_prefix ufrag_prefix l)) (str_lines (sd_sdp d))"

text \<open>One turn of the substitution loop, without the line ending it appends.\<close>

definition ice_line :: "string \<Rightarrow> string \<Rightarrow> string \<Rightarrow> string" where
  "ice_line ufrag pwd line =
     (if starts_with line ufrag_prefix then ufrag_prefix @ ufrag
      else if starts_with line pwd_prefix then pwd_prefix @ pwd
      else line)"

definition with_ice_credentials ::
  "session_description \<Rightarrow> string \<Rightarrow> string \<Rightarrow> session_description result" where
  "with_ice_credentials d ufrag pwd =
     res_bind (check_ice_value ''ice-ufrag'' ufrag ICE_UFRAG_LEN) (\<lambda>_.
     res_bind (check_ice_value ''ice-pwd'' pwd ICE_PWD_LEN) (\<lambda>_.
       if ice_ufrags d = []
       then Inl (Webrtc (Text ''session description carries no ice-ufrag to replace''))
       else Inr \<lparr>sd_kind = sd_kind d,
                 sd_sdp = join_crlf (map (ice_line ufrag pwd) (str_lines (sd_sdp d)))\<rparr>))"

section \<open>Session-level declarations\<close>

definition FRAME_METADATA_ATTRIBUTE :: string where
  "FRAME_METADATA_ATTRIBUTE = ''x-reactor-frame-metadata''"
definition FRAME_METADATA_VERSION :: nat where "FRAME_METADATA_VERSION = 1"

definition fm_prefix :: string where "fm_prefix = ''a='' @ FRAME_METADATA_ATTRIBUTE @ '':''"

definition declares_frame_metadata :: "session_description \<Rightarrow> bool" where
  "declares_frame_metadata d =
     list_ex (\<lambda>line. case strip_prefix fm_prefix line of
                       None \<Rightarrow> False
                     | Some v \<Rightarrow> parse_uint u32_max (trim_end v) = Some FRAME_METADATA_VERSION)
       (str_lines (sd_sdp d))"

definition with_frame_metadata :: "session_description \<Rightarrow> session_description" where
  "with_frame_metadata d =
     (if declares_frame_metadata d \<or> str_lines (sd_sdp d) = [] then d
      else \<lparr>sd_kind = sd_kind d,
            sd_sdp = insert_loop (fm_prefix @ show_nat FRAME_METADATA_VERSION @ CRLF) False
                       (str_lines (sd_sdp d))\<rparr>)"

definition declares_dc_chunking :: "session_description \<Rightarrow> bool" where
  "declares_dc_chunking d = (dc_parse (sd_sdp d) \<noteq> None)"

definition with_dc_chunking :: "session_description \<Rightarrow> params \<Rightarrow> session_description" where
  "with_dc_chunking d p = \<lparr>sd_kind = sd_kind d, sd_sdp = dc_declare (sd_sdp d) p\<rparr>"

section \<open>Enumerations of the native layer\<close>

datatype transceiver_direction = SendRecv | SendOnly | RecvOnly | Inactive

fun direction_to_raw :: "transceiver_direction \<Rightarrow> int" where
  "direction_to_raw SendRecv = 0"
| "direction_to_raw SendOnly = 1"
| "direction_to_raw RecvOnly = 2"
| "direction_to_raw Inactive = 3"

datatype ice_gathering_state = GatheringNew | Gathering | GatheringComplete

definition ice_gathering_from_raw :: "int \<Rightarrow> ice_gathering_state" where
  "ice_gathering_from_raw state =
     (if state = 1 then Gathering else if state = 2 then GatheringComplete else GatheringNew)"

datatype peer_connection_state =
  PcNew | PcConnecting | PcConnected | PcDisconnected | PcFailed | PcClosed

definition peer_connection_state_from_raw :: "int \<Rightarrow> peer_connection_state" where
  "peer_connection_state_from_raw state =
     (if state = 0 then PcNew else if state = 1 then PcConnecting
      else if state = 2 then PcConnected else if state = 3 then PcDisconnected
      else if state = 4 then PcFailed else PcClosed)"

datatype data_channel_state = DcConnecting | DcOpen | DcClosing | DcClosed

definition data_channel_state_from_raw :: "int \<Rightarrow> data_channel_state" where
  "data_channel_state_from_raw v =
     (if v = 0 then DcConnecting else if v = 1 then DcOpen else if v = 2 then DcClosing else DcClosed)"

datatype ice_candidate_pair_state = PairWaiting | PairInProgress | PairFailed | PairSucceeded | PairCancelled

definition pair_state_from_raw :: "int \<Rightarrow> ice_candidate_pair_state" where
  "pair_state_from_raw v =
     (if v = 1 then PairInProgress else if v = 2 then PairFailed
      else if v = 3 then PairSucceeded else if v = 4 then PairCancelled else PairWaiting)"

datatype stream_kind = KindUnknown | KindAudio | KindVideo

definition stream_kind_from_raw :: "int \<Rightarrow> stream_kind" where
  "stream_kind_from_raw v = (if v = 0 then KindAudio else if v = 1 then KindVideo else KindUnknown)"

datatype ice_candidate_type = CandUnknown | Host | Srflx | Prflx | Relay

definition candidate_type_from_raw :: "int \<Rightarrow> ice_candidate_type" where
  "candidate_type_from_raw v =
     (if v = 0 then Host else if v = 1 then Srflx else if v = 2 then Prflx
      else if v = 3 then Relay else CandUnknown)"

datatype relay_protocol = NotRelayed | Udp | Tcp | Tls

definition relay_protocol_from_raw :: "int \<Rightarrow> relay_protocol" where
  "relay_protocol_from_raw v =
     (if v = 0 then Udp else if v = 1 then Tcp else if v = 2 then Tls else NotRelayed)"

section \<open>ICE: lemmas\<close>

lemma starts_with_no_lf_prefixes: "no_lf ufrag_prefix" "no_lf pwd_prefix" "no_lf fm_prefix"
  by (simp_all add: ufrag_prefix_def pwd_prefix_def fm_prefix_def FRAME_METADATA_ATTRIBUTE_def LF_def)

lemma ice_char_not_ws: "is_ice_char c \<Longrightarrow> \<not> is_whitespace c \<and> c \<noteq> LF"
  by (auto simp: is_ice_char_def is_ascii_alphanumeric_def is_whitespace_def LF_def Let_def)

lemma check_ice_value_ok:
  "check_ice_value what v len = Inr () \<longleftrightarrow>
     fst len \<le> length v \<and> length v \<le> snd len \<and> (\<forall>c \<in> set v. is_ice_char c)"
  using nth_mem [of _ v]
  by (auto simp: check_ice_value_def find_None_iff find_Some_iff split: option.splits)

lemma ice_chars_clean:
  assumes "\<forall>c \<in> set v. is_ice_char c"
  shows "no_lf v" and "trim_end v = v"
proof -
  show "no_lf v" using assms ice_char_not_ws by (auto simp: no_lf_def)
  show "trim_end v = v"
    by (rule trim_end_id) (use assms ice_char_not_ws last_in_set in blast)
qed

lemma prefixes_apart:
  "starts_with l ufrag_prefix \<Longrightarrow> \<not> starts_with l pwd_prefix"
  by (auto simp: starts_with_iff ufrag_prefix_def pwd_prefix_def)

lemma ufrags_ice_lines:
  assumes "trim_end u = u"
  shows "List.map_filter (\<lambda>l. map_option trim_end (strip_prefix ufrag_prefix l)) (map (ice_line u p) ls)
         = map (\<lambda>_. u) (List.map_filter (\<lambda>l. map_option trim_end (strip_prefix ufrag_prefix l)) ls)"
proof (induction ls)
  case (Cons l ls)
  have "\<not> starts_with (pwd_prefix @ p) ufrag_prefix"
    by (auto simp: starts_with_iff ufrag_prefix_def pwd_prefix_def)
  then show ?case
    using Cons assms
    by (auto simp: List.map_filter_simps ice_line_def starts_with_def split: option.splits if_splits)
qed (simp add: List.map_filter_simps)

lemma ice_line_idem: "ice_line u p (ice_line u p l) = ice_line u p l"
  by (auto simp: ice_line_def dest: prefixes_apart)


section \<open>Frame metadata: lemmas\<close>

lemma list_ex_insert_line: "list_ex P (insert_line d ls) \<longleftrightarrow> P d \<or> list_ex P ls"
  by (auto simp: list_ex_iff set_insert_line)

lemma fm_line_no_lf: "no_lf (fm_prefix @ show_nat FRAME_METADATA_VERSION)"
  by (simp add: starts_with_no_lf_prefixes)

lemma str_lines_with_frame_metadata:
  "str_lines (sd_sdp (with_frame_metadata d)) =
     (if declares_frame_metadata d \<or> sd_sdp d = [] then str_lines (sd_sdp d)
      else insert_line (fm_prefix @ show_nat FRAME_METADATA_VERSION) (str_lines (sd_sdp d)))"
  using str_lines_insert [OF fm_line_no_lf] by (simp add: with_frame_metadata_def)

lemma trim_end_show_nat [simp]: "trim_end (show_nat n) = show_nat n"
  by (rule trim_end_id) simp

lemma declares_with_frame_metadata:
  "sd_sdp d \<noteq> [] \<Longrightarrow> declares_frame_metadata (with_frame_metadata d)"
  by (cases "declares_frame_metadata d")
     (simp_all add: declares_frame_metadata_def [of "with_frame_metadata d"]
       str_lines_with_frame_metadata list_ex_insert_line FRAME_METADATA_VERSION_def u32_max_def
       add: declares_frame_metadata_def [of d])

definition fm_declares :: "string \<Rightarrow> bool" where
  "fm_declares s = declares_frame_metadata \<lparr>sd_kind = Offer, sd_sdp = s\<rparr>"

definition fm_with :: "string \<Rightarrow> string" where
  "fm_with s = sd_sdp (with_frame_metadata \<lparr>sd_kind = Offer, sd_sdp = s\<rparr>)"

lemma fm_declares_sd: "declares_frame_metadata d = fm_declares (sd_sdp d)"
  by (simp add: fm_declares_def declares_frame_metadata_def)

lemma with_frame_metadata_sd: "with_frame_metadata d = d\<lparr>sd_sdp := fm_with (sd_sdp d)\<rparr>"
  by (cases d) (simp add: fm_with_def with_frame_metadata_def declares_frame_metadata_def)

interpretation fm_cap: sdp_capability fm_declares fm_with
proof
  show "fm_with s = s" if "fm_declares s" for s
    using that by (simp add: fm_with_def fm_declares_def with_frame_metadata_def)
  show "fm_with [] = []"
    by (simp add: fm_with_def with_frame_metadata_def)
  show "fm_declares (fm_with s)" if "s \<noteq> []" for s
    using that declares_with_frame_metadata [of "\<lparr>sd_kind = Offer, sd_sdp = s\<rparr>"]
    by (simp add: fm_declares_sd fm_with_def)
qed

text \<open>A line inserted for one attribute is not read as the other.\<close>

lemma find_prefixed_other:
  "\<not> starts_with d p \<Longrightarrow> find_prefixed p (insert_line d ls) = find_prefixed p ls"
  by (induction ls) (auto simp: starts_with_def split: option.splits)

lemma fm_line_not_dc: "\<not> starts_with (fm_prefix @ s) dc_prefix"
  by (auto simp: starts_with_iff fm_prefix_def FRAME_METADATA_ATTRIBUTE_def dc_sdp_constants)

lemma dc_line_not_fm: "strip_prefix fm_prefix (params_line p) = None"
proof -
  have "strip_prefix fm_prefix (dc_prefix @ v) = None" for v
    by (simp add: fm_prefix_def FRAME_METADATA_ATTRIBUTE_def dc_sdp_constants)
  then show ?thesis using params_line_value by metis
qed

lemma dc_parse_with_frame_metadata [simp]: "dc_parse (fm_with s) = dc_parse s"
  using str_lines_with_frame_metadata [of "\<lparr>sd_kind = Offer, sd_sdp = s\<rparr>"]
  by (simp add: dc_parse_def fm_with_def find_prefixed_other fm_line_not_dc)

lemma has_attribute_with_frame_metadata [simp]: "has_attribute (fm_with s) = has_attribute s"
  using str_lines_with_frame_metadata [of "\<lparr>sd_kind = Offer, sd_sdp = s\<rparr>"]
  by (simp add: has_attribute_def fm_with_def list_ex_insert_line fm_line_not_dc)

lemma fm_with_eq_Nil [simp]: "fm_with s = [] \<longleftrightarrow> s = []"
proof -
  have "str_lines (fm_with s) = [] \<longleftrightarrow> str_lines s = []"
    using str_lines_with_frame_metadata [of "\<lparr>sd_kind = Offer, sd_sdp = s\<rparr>"]
    by (cases "str_lines s") (auto simp: fm_with_def)
  then show ?thesis by simp
qed

lemma fm_declares_dc_declare [simp]: "fm_declares (dc_declare s p) = fm_declares s"
proof (cases "s = [] \<or> has_attribute s")
  case False
  then show ?thesis
    by (simp add: fm_declares_def declares_frame_metadata_def str_lines_declare
        list_ex_insert_line dc_line_not_fm)
qed (auto simp: dc_declare_def)

text \<open>Declaring frame metadata. Every non-empty description declares it afterwards, a
  description that already did (and the empty one) is unchanged, and the kind is kept. The
  data-channel attribute is read the same before and after, and declaring that one leaves the
  frame-metadata declaration alone, so applying both, in either order, declares both.\<close>
theorem frame_metadata_declaration:
  "(declares_frame_metadata (with_frame_metadata d) \<longleftrightarrow> sd_sdp d \<noteq> [])
   \<and> with_frame_metadata (with_frame_metadata d) = with_frame_metadata d
   \<and> sd_kind (with_frame_metadata d) = sd_kind d
   \<and> dc_parse (sd_sdp (with_frame_metadata d)) = dc_parse (sd_sdp d)
   \<and> declares_frame_metadata (with_dc_chunking d p) = declares_frame_metadata d"
proof -
  have "\<not> fm_declares []"
    by (simp add: fm_declares_def declares_frame_metadata_def str_lines_def)
  then have "declares_frame_metadata (with_frame_metadata d) \<longleftrightarrow> sd_sdp d \<noteq> []"
    by (simp add: fm_declares_sd with_frame_metadata_sd fm_cap.declares_with_decl)
  then show ?thesis
    by (simp add: with_frame_metadata_sd fm_cap.with_decl_idem fm_declares_sd with_dc_chunking_def)
qed

end
