(* ===== verification/Dc_Negotiation.thy ===== *)
theory Dc_Negotiation
  imports Session_Description
begin

text \<open>
  The settings of chunked data channels and the negotiation of the capability
  (\<open>crates/reactor-webrtc/src/dc_chunking.rs\<close>): what a description moves in the state,
  the record-apply-undo around libwebrtc's own apply, and two peers exchanging descriptions.
\<close>

section \<open>Settings\<close>

record dc_chunking =
  dk_max_burst :: nat
  dk_max_message_size :: nat
  dk_send_buffer_limit :: nat
  dk_chunk_size :: nat

definition dc_chunking_default :: dc_chunking where
  "dc_chunking_default =
     \<lparr>dk_max_burst = 256, dk_max_message_size = DEFAULT_MAX_MESSAGE_SIZE,
      dk_send_buffer_limit = DEFAULT_SEND_BUFFER_LIMIT, dk_chunk_size = DEFAULT_CHUNK_SIZE\<rparr>"

definition i32_max :: nat where "i32_max = 2147483647"

definition dk_send_config :: "dc_chunking \<Rightarrow> params \<Rightarrow> send_config" where
  "dk_send_config s remote =
     default_send_config
       \<lparr>chunk_size := dk_chunk_size s, queue_limit := dk_send_buffer_limit s,
        max_message_size := effective_max_message_size (dk_max_message_size s) remote\<rparr>"

definition dk_validate :: "dc_chunking \<Rightarrow> unit result" where
  "dk_validate s =
     (if dk_max_burst s = 0 \<or> dk_max_burst s > i32_max
      then Inl (Webrtc (Fmt ''dc chunking: max_burst {} must be between 1 and {}''
                  [ANat (dk_max_burst s), ANat i32_max]))
      else map_err (\<lambda>e. Webrtc (Fmt ''dc chunking: {e}'' [AConfig e]))
             (validate (default_send_config
                \<lparr>chunk_size := dk_chunk_size s, queue_limit := dk_send_buffer_limit s,
                 max_message_size := dk_max_message_size s\<rparr>)))"

lemma effective_le:
  "effective_max_message_size n p \<le> n"
  "pa_max_message_size p = Some m \<Longrightarrow> effective_max_message_size n p \<le> m"
  by (auto simp: effective_max_message_size_def)

lemma accepted_settings_queue:
  assumes "dk_validate s = Inr ()"
  shows "send_new (dk_send_config s p)
       = Some \<lparr>sq_config = dk_send_config s p, sq_pending = [], sq_queued = 0\<rparr>"
proof -
  have "validate (default_send_config
                \<lparr>chunk_size := dk_chunk_size s, queue_limit := dk_send_buffer_limit s,
                 max_message_size := dk_max_message_size s\<rparr>) = Inr ()"
    using assms by (auto simp: dk_validate_def map_err_def split: if_splits sum.splits)
  then have "validate (dk_send_config s p) = Inr ()"
    using effective_le(1) [of "dk_max_message_size s" p]
    by (simp add: validate_ok valid_config_def dk_send_config_def)
  then show ?thesis by (simp add: send_new_def)
qed

text \<open>Settings the factory accepts give every channel a send queue. Whatever the peer
  declared, the configuration of the channel's queue passes the queue's own checks, so creating
  the queue cannot panic; its message limit is within this side's and within the one the peer
  advertised, and each side computes the same limit towards the other.\<close>
theorem accepted_settings_give_a_queue:
  "dk_validate s = Inr () \<longrightarrow>
     send_new (dk_send_config s p)
       = Some \<lparr>sq_config = dk_send_config s p, sq_pending = [], sq_queued = 0\<rparr>
     \<and> max_message_size (dk_send_config s p) \<le> dk_max_message_size s
     \<and> max_message_size (dk_send_config s (params_local n)) \<le> n
     \<and> (\<forall>s'. max_message_size (dk_send_config s (params_local (dk_max_message_size s')))
             = max_message_size (dk_send_config s' (params_local (dk_max_message_size s))))"
  using accepted_settings_queue [of s p]
  by (auto simp: dk_send_config_def effective_max_message_size_def params_local_def)

lemma accepted_settings_give_a_queue_witness:
  "max_message_size (dk_send_config dc_chunking_default (params_local 1000)) \<le> 1000"
proof -
  have "dk_validate dc_chunking_default = Inr ()"
    by (simp add: dk_validate_def dc_chunking_default_def i32_max_def validate_def
        default_send_config_def dc_constants)
  then show ?thesis using accepted_settings_give_a_queue [of dc_chunking_default _ 1000] by blast
qed

section \<open>The negotiation state\<close>

record negotiation_state =
  ns_remote :: "params option"
  ns_settled :: bool
  ns_pending :: "params option"
  ns_local_offer_declared :: bool

definition ns_default :: negotiation_state where
  "ns_default = \<lparr>ns_remote = None, ns_settled = False, ns_pending = None,
                 ns_local_offer_declared = False\<rparr>"

definition settle :: "negotiation_state \<Rightarrow> params option \<Rightarrow> negotiation_state" where
  "settle s p = (if ns_settled s then s else s\<lparr>ns_settled := True, ns_remote := p\<rparr>)"

definition on_local_description ::
  "negotiation_state \<Rightarrow> session_description \<Rightarrow> negotiation_state" where
  "on_local_description s d =
     (let declares = has_attribute (sd_sdp d) in
      case sd_kind d of
        Offer \<Rightarrow> s\<lparr>ns_local_offer_declared := declares\<rparr>
      | Answer \<Rightarrow> settle (s\<lparr>ns_pending := None\<rparr>) (opt_filter declares (ns_pending s))
      | Rollback \<Rightarrow> s\<lparr>ns_local_offer_declared := False\<rparr>
      | PrAnswer \<Rightarrow> s)"

definition on_remote_description ::
  "negotiation_state \<Rightarrow> session_description \<Rightarrow> negotiation_state" where
  "on_remote_description s d =
     (let parsed = dc_parse (sd_sdp d) in
      case sd_kind d of
        Offer \<Rightarrow> s\<lparr>ns_pending := parsed\<rparr>
      | Answer \<Rightarrow> settle s (opt_filter (ns_local_offer_declared s) parsed)
      | Rollback \<Rightarrow> s\<lparr>ns_pending := None\<rparr>
      | PrAnswer \<Rightarrow> s)"

section \<open>The connection's negotiation\<close>

datatype apply_error = Rejected error | Unconfirmed error

fun into_error :: "apply_error \<Rightarrow> error" where
  "into_error (Rejected e) = e"
| "into_error (Unconfirmed e) = e"

record negotiation =
  ng_settings :: "dc_chunking option"
  ng_state :: negotiation_state

definition ng_new :: "dc_chunking option \<Rightarrow> negotiation" where
  "ng_new s = \<lparr>ng_settings = s, ng_state = ns_default\<rparr>"

definition ng_remote :: "negotiation \<Rightarrow> params option" where
  "ng_remote n = ns_remote (ng_state n)"

definition ng_offer :: "negotiation \<Rightarrow> session_description \<Rightarrow> session_description" where
  "ng_offer n d =
     (case ng_settings n of
        Some s \<Rightarrow> with_dc_chunking d (params_local (dk_max_message_size s))
      | None \<Rightarrow> d)"

definition ng_answer :: "negotiation \<Rightarrow> session_description \<Rightarrow> session_description" where
  "ng_answer n d =
     (case ng_settings n of
        Some s \<Rightarrow> if ns_pending (ng_state n) \<noteq> None
                  then with_dc_chunking d (params_local (dk_max_message_size s)) else d
      | None \<Rightarrow> d)"

text \<open>
  The record, and the undo after libwebrtc's apply. Between the two the state lock is free, so
  a channel may read the recorded state; the \<open>applying\<close> lock keeps other descriptions
  out. \<open>native\<close> is what libwebrtc's apply answered.
\<close>

definition apply_record :: "(negotiation_state \<Rightarrow> negotiation_state) \<Rightarrow> negotiation \<Rightarrow> negotiation" where
  "apply_record record n =
     (case ng_settings n of None \<Rightarrow> n | Some _ \<Rightarrow> n\<lparr>ng_state := record (ng_state n)\<rparr>)"

definition apply_finish ::
  "negotiation_state \<Rightarrow> negotiation \<Rightarrow> apply_error + unit \<Rightarrow> negotiation \<times> unit result" where
  "apply_finish before n native =
     (case native of
        Inr _ \<Rightarrow> (n, Inr ())
      | Inl e \<Rightarrow>
          ((case e of Rejected _ \<Rightarrow> n\<lparr>ng_state := before\<rparr> | Unconfirmed _ \<Rightarrow> n), Inl (into_error e)))"

definition ng_apply ::
  "(negotiation_state \<Rightarrow> negotiation_state) \<Rightarrow> apply_error + unit \<Rightarrow> negotiation
     \<Rightarrow> negotiation \<times> unit result" where
  "ng_apply record native n =
     (case ng_settings n of
        None \<Rightarrow> (n, map_err into_error native)
      | Some _ \<Rightarrow> apply_finish (ng_state n) (apply_record record n) native)"

definition apply_local ::
  "session_description \<Rightarrow> apply_error + unit \<Rightarrow> negotiation \<Rightarrow> negotiation \<times> unit result" where
  "apply_local d native n = ng_apply (\<lambda>s. on_local_description s d) native n"

definition apply_remote ::
  "session_description \<Rightarrow> apply_error + unit \<Rightarrow> negotiation \<Rightarrow> negotiation \<times> unit result" where
  "apply_remote d native n = ng_apply (\<lambda>s. on_remote_description s d) native n"

lemmas ng_defs [step_simps] = apply_local_def apply_remote_def ng_apply_def apply_record_def
  apply_finish_def on_local_description_def on_remote_description_def settle_def Let_def

section \<open>One connection\<close>

datatype ng_op =
    LocalDesc session_description "apply_error + unit"
  | RemoteDesc session_description "apply_error + unit"

fun ng_step :: "negotiation \<Rightarrow> ng_op \<Rightarrow> negotiation" where
  "ng_step n (LocalDesc d native) = fst (apply_local d native n)"
| "ng_step n (RemoteDesc d native) = fst (apply_remote d native n)"

definition ng_run :: "negotiation \<Rightarrow> ng_op list \<Rightarrow> negotiation" where
  "ng_run n ops = fold (\<lambda>op n. ng_step n op) ops n"

lemma settle_settled [simp]: "ns_settled s \<Longrightarrow> settle s p = s"
  by (simp add: settle_def)

lemma ng_step_settings [simp]: "ng_settings (ng_step n op) = ng_settings n"
  by (cases op)
     (auto simp: apply_local_def apply_remote_def ng_apply_def apply_record_def apply_finish_def
       split: option.splits sum.splits apply_error.splits)

lemma record_settled:
  "ns_settled s \<Longrightarrow> ns_settled (on_local_description s d) \<and> ns_remote (on_local_description s d) = ns_remote s"
  "ns_settled s \<Longrightarrow> ns_settled (on_remote_description s d) \<and> ns_remote (on_remote_description s d) = ns_remote s"
  by (auto simp: on_local_description_def on_remote_description_def Let_def split: sdp_type.splits)

lemma ng_step_settled:
  "ns_settled (ng_state n) \<Longrightarrow>
   ns_settled (ng_state (ng_step n op)) \<and> ng_remote (ng_step n op) = ng_remote n"
  using record_settled
  by (cases op)
     (auto simp: apply_local_def apply_remote_def ng_apply_def apply_record_def apply_finish_def
       ng_remote_def split: option.splits sum.splits apply_error.splits)

lemma ng_run_settled:
  "ns_settled (ng_state n) \<Longrightarrow>
   ns_settled (ng_state (ng_run n ops)) \<and> ng_remote (ng_run n ops) = ng_remote n"
proof (induction ops arbitrary: n)
  case (Cons op ops)
  then show ?case using ng_step_settled [of n op] by (simp add: ng_run_def)
qed (simp add: ng_run_def)

lemma unsettled_no_remote:
  "ng_settings n = None \<or> \<not> ns_settled (ng_state n) \<longrightarrow> ng_remote n = None \<Longrightarrow>
   ng_settings (ng_step n op) = None \<or> \<not> ns_settled (ng_state (ng_step n op))
     \<longrightarrow> ng_remote (ng_step n op) = None"
  by (cases op)
     (auto simp: apply_local_def apply_remote_def ng_apply_def apply_record_def apply_finish_def
       on_local_description_def on_remote_description_def settle_def Let_def
       ng_remote_def split: option.splits sum.splits apply_error.splits sdp_type.splits if_splits)

definition ng_unsettled_ok :: "negotiation \<Rightarrow> bool" where
  "ng_unsettled_ok n \<longleftrightarrow>
     (ng_settings n = None \<or> \<not> ns_settled (ng_state n) \<longrightarrow> ng_remote n = None)"

lemma ng_run_unsettled:
  "ng_unsettled_ok n \<Longrightarrow> ng_unsettled_ok (ng_run n ops) \<and> ng_settings (ng_run n ops) = ng_settings n"
proof (induction ops arbitrary: n)
  case (Cons op ops)
  then show ?case
    using unsettled_no_remote [of n op] by (simp add: ng_run_def ng_unsettled_ok_def)
qed (simp add: ng_run_def)

lemma ng_new_unsettled: "ng_unsettled_ok (ng_new s)" "ng_settings (ng_new s) = s"
  by (simp_all add: ng_unsettled_ok_def ng_new_def ng_remote_def ns_default_def)

lemma ng_run_append: "ng_run n (ops @ ops') = ng_run (ng_run n ops) ops'"
  by (simp add: ng_run_def)

text \<open>C28: Settled once. Take any sequence of local and remote descriptions, each accepted,
  rejected or unconfirmed by libwebrtc. Until a round has settled the negotiation, and always on
  a connection that does not take part, the peer's parameters are absent, so a channel asked then
  stays plain; from the first settled round on, no later description changes what channels
  read.\<close>
theorem negotiation_settles_once:
  "(let n = ng_run (ng_new settings) ops in
     if settings \<noteq> None \<and> ns_settled (ng_state n)
     then ng_remote (ng_run (ng_new settings) (ops @ later)) = ng_remote n
     else ng_remote n = None)"
  using ng_run_settled [of "ng_run (ng_new settings) ops" later]
    ng_run_unsettled [OF ng_new_unsettled(1), of settings ops]
  by (auto simp: Let_def ng_run_append ng_new_unsettled ng_unsettled_ok_def)

text \<open>A rejected description leaves no trace, and an unconfirmed one leaves its whole
  record. The caller gets libwebrtc's error in both cases, and success is reported exactly when
  libwebrtc reports it.\<close>
theorem apply_outcomes:
  "apply_remote d (Inl (Rejected e)) n = (n, Inl e)
   \<and> apply_local d (Inl (Rejected e)) n = (n, Inl e)
   \<and> apply_remote d (Inl (Unconfirmed e)) n = (fst (apply_remote d (Inr ()) n), Inl e)
   \<and> apply_local d (Inl (Unconfirmed e)) n = (fst (apply_local d (Inr ()) n), Inl e)
   \<and> snd (apply_remote d (Inr ()) n) = Inr () \<and> snd (apply_local d (Inr ()) n) = Inr ()"
  by (auto simp: apply_local_def apply_remote_def ng_apply_def apply_record_def apply_finish_def
      split: option.splits)

end
