(* ===== verification/Dc_Agreement.thy ===== *)
theory Dc_Agreement
  imports Dc_Negotiation
begin

text \<open>
  Two connections negotiating chunking with each other: an interleaving semantics of their
  offer/answer exchange over \<open>dc_chunking.rs\<close>, where descriptions may be delayed, reordered,
  repeated, lost, rolled back, rejected or left unconfirmed, but not altered. The signalling
  state is libwebrtc's: it says which descriptions libwebrtc accepts; any description may be
  rejected.
\<close>

datatype side = A | B

fun other :: "side \<Rightarrow> side" where
  "other A = B"
| "other B = A"

lemma other_other [simp]: "other (other x) = x" "other x \<noteq> x" "x \<noteq> other x"
  by (cases x; simp)+

lemma side_eq_other: "x \<noteq> y \<longleftrightarrow> x = other y"
  by (cases x; cases y) simp_all

datatype signaling = Stable | HaveLocalOffer | HaveRemoteOffer

record pair =
  pr_nego :: "side \<Rightarrow> negotiation"
  pr_signaling :: "side \<Rightarrow> signaling"
  pr_sent :: "side \<Rightarrow> session_description list" \<comment> \<open>what each side has signalled\<close>

definition pair_new :: "(side \<Rightarrow> dc_chunking option) \<Rightarrow> pair" where
  "pair_new settings =
     \<lparr>pr_nego = (\<lambda>x. ng_new (settings x)), pr_signaling = (\<lambda>_. Stable), pr_sent = (\<lambda>_. [])\<rparr>"

definition put :: "pair \<Rightarrow> side \<Rightarrow> negotiation \<Rightarrow> signaling \<Rightarrow> pair" where
  "put s x n sig =
     s\<lparr>pr_nego := (pr_nego s)(x := n), pr_signaling := (pr_signaling s)(x := sig)\<rparr>"

definition signal :: "pair \<Rightarrow> side \<Rightarrow> session_description \<Rightarrow> pair" where
  "signal s x d = s\<lparr>pr_sent := (pr_sent s)(x := d # pr_sent s x)\<rparr>"

text \<open>libwebrtc took the description, or may still take it.\<close>

definition went_through :: "apply_error + unit \<Rightarrow> bool" where
  "went_through r = (case r of Inr _ \<Rightarrow> True | Inl (Unconfirmed _) \<Rightarrow> True | Inl (Rejected _) \<Rightarrow> False)"

text \<open>A description libwebrtc generates is not empty and has none of the lines it does not
  know.\<close>

definition generated :: "session_description \<Rightarrow> sdp_type \<Rightarrow> bool" where
  "generated d k = (sd_kind d = k \<and> sd_sdp d \<noteq> [] \<and> \<not> has_attribute (sd_sdp d))"

inductive exchange :: "pair \<Rightarrow> pair \<Rightarrow> bool" where
  local_offer:
    "pr_signaling s x \<noteq> HaveRemoteOffer \<Longrightarrow> generated base Offer \<Longrightarrow> went_through r \<Longrightarrow>
     d = ng_offer (pr_nego s x) base \<Longrightarrow>
     exchange s (signal (put s x (fst (apply_local d r (pr_nego s x))) HaveLocalOffer) x d)"
| remote_offer:
    "pr_signaling s x \<noteq> HaveLocalOffer \<Longrightarrow> d \<in> set (pr_sent s (other x)) \<Longrightarrow> sd_kind d = Offer \<Longrightarrow>
     went_through r \<Longrightarrow>
     exchange s (put s x (fst (apply_remote d r (pr_nego s x))) HaveRemoteOffer)"
| local_answer:
    "pr_signaling s x = HaveRemoteOffer \<Longrightarrow> generated base Answer \<Longrightarrow> went_through r \<Longrightarrow>
     d = ng_answer (pr_nego s x) base \<Longrightarrow>
     exchange s (signal (put s x (fst (apply_local d r (pr_nego s x))) Stable) x d)"
| remote_answer:
    "pr_signaling s x = HaveLocalOffer \<Longrightarrow> d \<in> set (pr_sent s (other x)) \<Longrightarrow> sd_kind d = Answer \<Longrightarrow>
     went_through r \<Longrightarrow>
     exchange s (put s x (fst (apply_remote d r (pr_nego s x))) Stable)"
| local_rollback:
    "pr_signaling s x = HaveLocalOffer \<Longrightarrow> sd_kind d = Rollback \<Longrightarrow> went_through r \<Longrightarrow>
     exchange s (put s x (fst (apply_local d r (pr_nego s x))) Stable)"
| remote_rollback:
    "pr_signaling s x = HaveRemoteOffer \<Longrightarrow> sd_kind d = Rollback \<Longrightarrow> went_through r \<Longrightarrow>
     exchange s (put s x (fst (apply_remote d r (pr_nego s x))) Stable)"
| provisional_local:
    "sd_kind d = PrAnswer \<Longrightarrow>
     exchange s (put s x (fst (apply_local d r (pr_nego s x))) (pr_signaling s x))"
| provisional_remote:
    "sd_kind d = PrAnswer \<Longrightarrow>
     exchange s (put s x (fst (apply_remote d r (pr_nego s x))) (pr_signaling s x))"
| rejected_local:
    "exchange s (put s x (fst (apply_local d (Inl (Rejected e)) (pr_nego s x))) (pr_signaling s x))"
| rejected_remote:
    "exchange s (put s x (fst (apply_remote d (Inl (Rejected e)) (pr_nego s x))) (pr_signaling s x))"

inductive reachable :: "(side \<Rightarrow> dc_chunking option) \<Rightarrow> pair \<Rightarrow> bool" for settings where
  start: "reachable settings (pair_new settings)"
| step: "reachable settings s \<Longrightarrow> exchange s s' \<Longrightarrow> reachable settings s'"

section \<open>Invariant\<close>

text \<open>What a side declares, and what its peer must have concluded once it settled.\<close>

definition declared_by :: "(side \<Rightarrow> dc_chunking option) \<Rightarrow> side \<Rightarrow> params option" where
  "declared_by settings x = map_option (\<lambda>s. params_local (dk_max_message_size s)) (settings x)"

definition both :: "(side \<Rightarrow> dc_chunking option) \<Rightarrow> bool" where
  "both settings = (settings A \<noteq> None \<and> settings B \<noteq> None)"

lemma both_iff: "both settings \<longleftrightarrow> settings x \<noteq> None \<and> settings (other x) \<noteq> None"
  by (cases x) (auto simp: both_def)

text \<open>One side: its settings, what its state says in each signalling state.\<close>

definition side_inv :: "(side \<Rightarrow> dc_chunking option) \<Rightarrow> side \<Rightarrow> negotiation \<Rightarrow> signaling \<Rightarrow> bool" where
  "side_inv settings x n sig \<longleftrightarrow>
     ng_settings n = settings x \<and>
     (settings x = None \<longrightarrow> ng_state n = ns_default) \<and>
     ns_remote (ng_state n) = (if ns_settled (ng_state n) \<and> both settings
                               then declared_by settings (other x) else None) \<and>
     (settings x \<noteq> None \<and> sig = HaveRemoteOffer \<longrightarrow>
        ns_pending (ng_state n) = declared_by settings (other x)) \<and>
     (settings x \<noteq> None \<and> sig = HaveLocalOffer \<longrightarrow> ns_local_offer_declared (ng_state n))"

text \<open>What a side has signalled: its offers declare what it takes part in, its answers too when
  both ends take part, and neither declares otherwise.\<close>

definition sent_inv :: "(side \<Rightarrow> dc_chunking option) \<Rightarrow> side \<Rightarrow> session_description \<Rightarrow> bool" where
  "sent_inv settings x d \<longleftrightarrow>
     (sd_kind d = Offer \<longrightarrow> dc_parse (sd_sdp d) = declared_by settings x) \<and>
     (sd_kind d = Answer \<longrightarrow>
        dc_parse (sd_sdp d) = (if both settings then declared_by settings x else None))"

definition pair_inv :: "(side \<Rightarrow> dc_chunking option) \<Rightarrow> pair \<Rightarrow> bool" where
  "pair_inv settings s \<longleftrightarrow>
     (\<forall>x. side_inv settings x (pr_nego s x) (pr_signaling s x)) \<and>
     (\<forall>x. \<forall>d \<in> set (pr_sent s x). sent_inv settings x d)"

definition limits_fit :: "(side \<Rightarrow> dc_chunking option) \<Rightarrow> bool" where
  "limits_fit settings \<longleftrightarrow>
     (\<forall>x. case settings x of Some s \<Rightarrow> dk_max_message_size s \<le> u64_max | None \<Rightarrow> True)"

lemma parse_declared:
  assumes "limits_fit settings" and "settings x = Some s" and "generated base k"
  shows "dc_parse (dc_declare (sd_sdp base) (params_local (dk_max_message_size s))) = declared_by settings x"
    and "has_attribute (dc_declare (sd_sdp base) (params_local (dk_max_message_size s)))"
proof -
  have "dk_max_message_size s \<le> u64_max"
    using assms(1,2) by (auto simp: limits_fit_def dest: spec [of _ x])
  then show "dc_parse (dc_declare (sd_sdp base) (params_local (dk_max_message_size s)))
      = declared_by settings x"
    using assms(2,3) dc_parse_declare [of "sd_sdp base" "params_local (dk_max_message_size s)"]
    by (simp add: generated_def declared_by_def params_local_def)
  show "has_attribute (dc_declare (sd_sdp base) (params_local (dk_max_message_size s)))"
    using assms(3) by (simp add: generated_def has_attribute_declare)
qed

lemma offer_sent:
  assumes "limits_fit settings" and "generated base Offer" and "ng_settings n = settings x"
  shows "sent_inv settings x (ng_offer n base)" "sd_kind (ng_offer n base) = Offer"
    and "has_attribute (sd_sdp (ng_offer n base)) \<longleftrightarrow> settings x \<noteq> None"
  using assms parse_declared [OF assms(1) _ assms(2), of x] dc_parse_None [of "sd_sdp base"]
  by (auto simp: ng_offer_def sent_inv_def with_dc_chunking_def generated_def declared_by_def
      split: option.splits)

lemma answer_sent:
  assumes "limits_fit settings" and "generated base Answer" and "side_inv settings x n HaveRemoteOffer"
  shows "sent_inv settings x (ng_answer n base)" "sd_kind (ng_answer n base) = Answer"
    and "has_attribute (sd_sdp (ng_answer n base)) \<longleftrightarrow> both settings"
  using assms parse_declared [OF assms(1) _ assms(2), of x] dc_parse_None [of "sd_sdp base"]
    both_iff [of settings x]
  by (auto simp: ng_answer_def sent_inv_def with_dc_chunking_def generated_def declared_by_def
      side_inv_def split: option.splits)

text \<open>What an apply that went through leaves: the record.\<close>

lemma apply_through:
  assumes "went_through r"
  shows "fst (apply_local d r n) = apply_record (\<lambda>s. on_local_description s d) n"
    and "fst (apply_remote d r n) = apply_record (\<lambda>s. on_remote_description s d) n"
  using assms
  by (auto simp: went_through_def apply_local_def apply_remote_def ng_apply_def apply_record_def
      apply_finish_def split: option.splits sum.splits apply_error.splits)

lemma apply_rejected:
  "fst (apply_local d (Inl (Rejected e)) n) = n"
  "fst (apply_remote d (Inl (Rejected e)) n) = n"
  by (simp_all add: apply_local_def apply_remote_def ng_apply_def apply_record_def
      apply_finish_def split: option.splits)

lemma apply_pranswer:
  assumes "sd_kind d = PrAnswer"
  shows "fst (apply_local d r n) = n" "fst (apply_remote d r n) = n"
  using assms
  by (cases n; auto simp: apply_local_def apply_remote_def ng_apply_def apply_record_def apply_finish_def
      on_local_description_def on_remote_description_def split: option.splits sum.splits apply_error.splits)+

lemmas side_simps = side_inv_def apply_record_def on_local_description_def on_remote_description_def
  settle_def Let_def declared_by_def both_iff

lemma side_local_offer:
  assumes "side_inv settings x n sig" "sd_kind d = Offer"
    "has_attribute (sd_sdp d) \<longleftrightarrow> settings x \<noteq> None"
  shows "side_inv settings x (apply_record (\<lambda>s. on_local_description s d) n) HaveLocalOffer"
  using assms by (auto simp: side_simps split: option.splits)

lemma side_remote_offer:
  assumes "side_inv settings x n sig" "sd_kind d = Offer" "sent_inv settings (other x) d"
  shows "side_inv settings x (apply_record (\<lambda>s. on_remote_description s d) n) HaveRemoteOffer"
  using assms by (auto simp: side_simps sent_inv_def split: option.splits)

lemma side_local_answer:
  assumes "side_inv settings x n HaveRemoteOffer" "sd_kind d = Answer"
    "has_attribute (sd_sdp d) \<longleftrightarrow> both settings"
  shows "side_inv settings x (apply_record (\<lambda>s. on_local_description s d) n) Stable"
  using assms both_iff [of settings x]
  by (auto simp: side_inv_def apply_record_def on_local_description_def settle_def Let_def
      declared_by_def opt_filter_def split: option.splits)

lemma side_remote_answer:
  assumes "side_inv settings x n HaveLocalOffer" "sd_kind d = Answer" "sent_inv settings (other x) d"
  shows "side_inv settings x (apply_record (\<lambda>s. on_remote_description s d) n) Stable"
  using assms both_iff [of settings x]
  by (auto simp: side_inv_def apply_record_def on_remote_description_def settle_def Let_def
      declared_by_def opt_filter_def sent_inv_def split: option.splits)

lemma side_rollback:
  assumes "side_inv settings x n sig" "sd_kind d = Rollback"
  shows "side_inv settings x (apply_record (\<lambda>s. on_local_description s d) n) Stable"
    and "side_inv settings x (apply_record (\<lambda>s. on_remote_description s d) n) Stable"
  using assms by (auto simp: side_simps split: option.splits)

lemma pair_inv_put:
  assumes "pair_inv settings s" "side_inv settings x n sig"
  shows "pair_inv settings (put s x n sig)"
  using assms by (auto simp: pair_inv_def put_def)

lemma pair_inv_signal:
  assumes "pair_inv settings s" "sent_inv settings x d"
  shows "pair_inv settings (signal s x d)"
  using assms by (auto simp: pair_inv_def signal_def)

lemma pair_inv_new: "pair_inv settings (pair_new settings)"
  by (simp add: pair_inv_def pair_new_def side_inv_def ng_new_def ns_default_def)

lemma pair_inv_sides:
  assumes "pair_inv settings s"
  shows "side_inv settings x (pr_nego s x) (pr_signaling s x)"
    and "d \<in> set (pr_sent s x) \<Longrightarrow> sent_inv settings x d"
    and "ng_settings (pr_nego s x) = settings x"
  using assms by (auto simp: pair_inv_def side_inv_def)

lemma pair_inv_step:
  assumes fit: "limits_fit settings" and step: "exchange s s'" and inv: "pair_inv settings s"
  shows "pair_inv settings s'"
  using step
proof cases
  case (local_offer x base r d)
  note offered = offer_sent [OF fit local_offer(3) pair_inv_sides(3) [OF inv]]
  show ?thesis
    unfolding local_offer(1) local_offer(5) apply_through [OF local_offer(4)]
    by (intro pair_inv_signal pair_inv_put inv side_local_offer [OF pair_inv_sides(1) [OF inv]] offered)
next
  case (remote_offer x d r)
  with pair_inv_sides [OF inv] show ?thesis
    by (auto simp: apply_through intro!: pair_inv_put inv side_remote_offer)
next
  case (local_answer x base r d)
  have side: "side_inv settings x (pr_nego s x) HaveRemoteOffer"
    using pair_inv_sides(1) [OF inv, of x] local_answer by simp
  from local_answer answer_sent [OF fit local_answer(3) side] show ?thesis
    by (auto simp: apply_through intro!: pair_inv_signal pair_inv_put inv side_local_answer side)
next
  case (remote_answer x d r)
  have side: "side_inv settings x (pr_nego s x) HaveLocalOffer"
    using pair_inv_sides(1) [OF inv, of x] remote_answer by simp
  from remote_answer pair_inv_sides(2) [OF inv] show ?thesis
    by (auto simp: apply_through intro!: pair_inv_put inv side_remote_answer side)
qed (auto simp: apply_through apply_rejected apply_pranswer
     intro!: pair_inv_put inv side_rollback intro: pair_inv_sides(1) [OF inv])

lemma pair_inv_reachable:
  "limits_fit settings \<Longrightarrow> reachable settings s \<Longrightarrow> pair_inv settings s"
  by (erule reachable.induct) (auto intro: pair_inv_new pair_inv_step)


text \<open>A whole round: A offers, B answers, both with the default settings.\<close>

definition base_desc :: "sdp_type \<Rightarrow> session_description" where
  "base_desc k = \<lparr>sd_kind = k, sd_sdp = sample_sdp\<rparr>"

lemma base_desc_generated: "generated (base_desc k) k"
  using sample_sdp_no_attribute by (simp add: generated_def base_desc_def) (simp add: sample_sdp_def)

definition take_part :: "side \<Rightarrow> dc_chunking option" where
  "take_part = (\<lambda>_. Some dc_chunking_default)"

lemma take_part_fit: "limits_fit take_part"
  by (simp add: limits_fit_def take_part_def dc_chunking_default_def dc_constants u64_max_def)

lemma settled_by_answer:
  assumes "sd_kind d = Answer" "ng_settings n \<noteq> None"
  shows "ns_settled (ng_state (fst (apply_local d (Inr ()) n)))"
    and "ns_settled (ng_state (fst (apply_remote d (Inr ()) n)))"
  using assms by (auto simp: ng_defs split: option.splits)

lemma full_round:
  "\<exists>s. reachable take_part s \<and> ns_settled (ng_state (pr_nego s A)) \<and> ns_settled (ng_state (pr_nego s B))"
proof -
  let ?s0 = "pair_new take_part"
  let ?offer = "ng_offer (pr_nego ?s0 A) (base_desc Offer)"
  let ?s1 = "signal (put ?s0 A (fst (apply_local ?offer (Inr ()) (pr_nego ?s0 A))) HaveLocalOffer) A ?offer"
  let ?s2 = "put ?s1 B (fst (apply_remote ?offer (Inr ()) (pr_nego ?s1 B))) HaveRemoteOffer"
  let ?answer = "ng_answer (pr_nego ?s2 B) (base_desc Answer)"
  let ?s3 = "signal (put ?s2 B (fst (apply_local ?answer (Inr ()) (pr_nego ?s2 B))) Stable) B ?answer"
  let ?s4 = "put ?s3 A (fst (apply_remote ?answer (Inr ()) (pr_nego ?s3 A))) Stable"
  have r1: "reachable take_part ?s1"
    by (rule reachable.step [OF reachable.start], rule exchange.local_offer)
       (simp_all add: pair_new_def base_desc_generated went_through_def)
  have k: "sd_kind ?offer = Offer" "sd_kind ?answer = Answer"
    by (simp_all add: ng_offer_def ng_answer_def with_dc_chunking_def base_desc_def split: option.splits)
  have r2: "reachable take_part ?s2"
    by (rule reachable.step [OF r1], rule exchange.remote_offer)
       (simp_all add: pair_new_def signal_def put_def went_through_def k [unfolded pair_new_def, simplified])
  have r3: "reachable take_part ?s3"
    by (rule reachable.step [OF r2], rule exchange.local_answer)
       (simp_all add: put_def base_desc_generated went_through_def)
  have r4: "reachable take_part ?s4"
    by (rule reachable.step [OF r3], rule exchange.remote_answer [where x = A])
       (simp_all add: put_def signal_def went_through_def k [unfolded put_def signal_def, simplified])
  have settings: "ng_settings (pr_nego ?s3 A) = take_part A" "ng_settings (pr_nego ?s2 B) = take_part B"
    using pair_inv_sides(3) [OF pair_inv_reachable [OF take_part_fit r3]]
      pair_inv_sides(3) [OF pair_inv_reachable [OF take_part_fit r2]] by blast+
  have nego: "pr_nego ?s4 A = fst (apply_remote ?answer (Inr ()) (pr_nego ?s3 A))"
    "pr_nego ?s4 B = fst (apply_local ?answer (Inr ()) (pr_nego ?s2 B))"
    by (simp_all add: put_def signal_def)
  have "ns_settled (ng_state (pr_nego ?s4 A))" "ns_settled (ng_state (pr_nego ?s4 B))"
    unfolding nego
    by (rule settled_by_answer [OF k(2)], simp add: settings, simp add: take_part_def)+
  with r4 show ?thesis by blast
qed


end
