(* ===== verification/Chunking_Times.thy ===== *)
theory Chunking_Times
  imports Dc_Frame
begin

text \<open>
  The running totals of a chunked channel (\<open>crates/reactor-webrtc/src/chunking_times.rs\<close>).
  An \<open>Instant\<close> is a number of nanoseconds and a duration is their difference, which
  stops at zero when the later instant is first, as Rust's subtraction of instants does. The
  totals the code keeps as \<open>f64\<close> seconds are exact sums here, so rounding is outside the
  model.
\<close>

record chunking_stats =
  cs_messages_sent :: nat
  cs_frames_sent :: nat
  cs_queue_wait :: nat
  cs_enqueue :: nat
  cs_first_check :: nat
  cs_first_build :: nat
  cs_first_native :: nat
  cs_native_send :: nat
  cs_send :: nat
  cs_stalls :: nat
  cs_stall :: nat
  cs_messages_received :: nat
  cs_frames_received :: nat
  cs_reassembly :: nat

definition cs_default :: chunking_stats where
  "cs_default =
     \<lparr>cs_messages_sent = 0, cs_frames_sent = 0, cs_queue_wait = 0, cs_enqueue = 0,
      cs_first_check = 0, cs_first_build = 0, cs_first_native = 0, cs_native_send = 0, cs_send = 0,
      cs_stalls = 0, cs_stall = 0, cs_messages_received = 0, cs_frames_received = 0,
      cs_reassembly = 0\<rparr>"

record frame_steps =
  fs_check_start :: nat
  fs_build_start :: nat
  fs_native_start :: nat

record frame_times =
  ft_check :: nat
  ft_build :: nat
  ft_native :: nat

record leaving =
  lv_first_at :: nat
  lv_waited :: nat
  lv_first_steps :: frame_times
  lv_enqueue :: nat

record chunking_times =
  ct_stats :: chunking_stats
  ct_sent_at :: "(nat \<times> nat) list"
  ct_leaving :: "leaving option"
  ct_stalled_since :: "nat option"
  ct_arriving_since :: "nat option"

definition ct_default :: chunking_times where
  "ct_default = \<lparr>ct_stats = cs_default, ct_sent_at = [], ct_leaving = None, ct_stalled_since = None,
                 ct_arriving_since = None\<rparr>"

definition ct_queued :: "chunking_times \<Rightarrow> nat \<Rightarrow> nat \<Rightarrow> chunking_times" where
  "ct_queued t now enqueue = t\<lparr>ct_sent_at := ct_sent_at t @ [(now, enqueue)]\<rparr>"

text \<open>Whether more frames of the message follow.\<close>

definition frame_more :: "bytes \<Rightarrow> bool" where
  "frame_more frame =
     (case frame of
        [] \<Rightarrow> False
      | b # _ \<Rightarrow> (case decode b of Inl _ \<Rightarrow> False | Inr h \<Rightarrow> hdr_more h))"

text \<open>What the first frame of a message records.\<close>

definition leaving_new :: "chunking_times \<Rightarrow> nat \<Rightarrow> frame_steps \<Rightarrow> leaving" where
  "leaving_new t now steps =
     (let (sent, enqueue) = (case ct_sent_at t of [] \<Rightarrow> (now, 0) | s # _ \<Rightarrow> s);
          from_sent = (\<lambda>i. max i sent)
      in \<lparr>lv_first_at = now,
          lv_waited = now - sent,
          lv_first_steps =
            \<lparr>ft_check = from_sent (fs_build_start steps) - from_sent (fs_check_start steps),
             ft_build = from_sent (fs_native_start steps) - from_sent (fs_build_start steps),
             ft_native = now - from_sent (fs_native_start steps)\<rparr>,
          lv_enqueue = enqueue\<rparr>)"

text \<open>A stall is counted with its duration, when it ends.\<close>

definition ct_end_stall :: "chunking_times \<Rightarrow> nat \<Rightarrow> chunking_times" where
  "ct_end_stall t now =
     (case ct_stalled_since t of
        None \<Rightarrow> t
      | Some since \<Rightarrow>
          t\<lparr>ct_stalled_since := None,
            ct_stats := (ct_stats t)\<lparr>cs_stalls := cs_stalls (ct_stats t) + 1,
                                     cs_stall := cs_stall (ct_stats t) + (now - since)\<rparr>\<rparr>)"

text \<open>The last frame of a message adds its times to the totals.\<close>

definition ct_finish_message :: "chunking_times \<Rightarrow> nat \<Rightarrow> leaving \<Rightarrow> chunking_times" where
  "ct_finish_message t now lv =
     (let s = ct_stats t in
      t\<lparr>ct_stats := s\<lparr>cs_queue_wait := cs_queue_wait s + lv_waited lv,
                       cs_enqueue := cs_enqueue s + lv_enqueue lv,
                       cs_first_check := cs_first_check s + ft_check (lv_first_steps lv),
                       cs_first_build := cs_first_build s + ft_build (lv_first_steps lv),
                       cs_first_native := cs_first_native s + ft_native (lv_first_steps lv),
                       cs_send := cs_send s + (now - lv_first_at lv),
                       cs_messages_sent := cs_messages_sent s + 1\<rparr>,
        ct_sent_at := tl (ct_sent_at t),
        ct_leaving := None\<rparr>)"

definition ct_frame_sent :: "chunking_times \<Rightarrow> bytes \<Rightarrow> nat \<Rightarrow> frame_steps \<Rightarrow> chunking_times" where
  "ct_frame_sent t frame now steps =
     (let t1 = t\<lparr>ct_stats := (ct_stats t)\<lparr>cs_native_send :=
                   cs_native_send (ct_stats t) + (now - fs_native_start steps)\<rparr>\<rparr>;
          t2 = ct_end_stall t1 now;
          lv = (case ct_leaving t2 of Some l \<Rightarrow> l | None \<Rightarrow> leaving_new t2 now steps);
          t3 = t2\<lparr>ct_leaving := Some lv,
                  ct_stats := (ct_stats t2)\<lparr>cs_frames_sent := cs_frames_sent (ct_stats t2) + 1\<rparr>\<rparr>
      in if frame_more frame then t3 else ct_finish_message t3 now lv)"

definition ct_stalled :: "chunking_times \<Rightarrow> nat \<Rightarrow> chunking_times" where
  "ct_stalled t now =
     (case ct_stalled_since t of Some _ \<Rightarrow> t | None \<Rightarrow> t\<lparr>ct_stalled_since := Some now\<rparr>)"

definition ct_cleared :: "chunking_times \<Rightarrow> chunking_times" where
  "ct_cleared t = t\<lparr>ct_sent_at := [], ct_leaving := None, ct_stalled_since := None\<rparr>"

definition ct_frame_received :: "chunking_times \<Rightarrow> bool \<Rightarrow> nat \<Rightarrow> chunking_times" where
  "ct_frame_received t completes now =
     (let first = (case ct_arriving_since t of Some f \<Rightarrow> f | None \<Rightarrow> now);
          s = (ct_stats t)\<lparr>cs_frames_received := cs_frames_received (ct_stats t) + 1\<rparr>
      in if completes
         then t\<lparr>ct_stats := s\<lparr>cs_reassembly := cs_reassembly s + (now - first),
                               cs_messages_received := cs_messages_received s + 1\<rparr>,
                ct_arriving_since := None\<rparr>
         else t\<lparr>ct_stats := s, ct_arriving_since := Some first\<rparr>)"

definition ct_reset_receive :: "chunking_times \<Rightarrow> chunking_times" where
  "ct_reset_receive t = t\<lparr>ct_arriving_since := None\<rparr>"

lemmas ct_defs [step_simps] = ct_queued_def ct_end_stall_def ct_finish_message_def ct_frame_sent_def
  ct_stalled_def ct_cleared_def ct_frame_received_def ct_reset_receive_def

section \<open>Runs\<close>

text \<open>
  What happens to the totals of one channel. A frame is handed over in steps that follow each
  other, so the operation gives the first instant and the three durations.
\<close>

datatype ct_op =
    Queued nat nat
  | FrameSent bytes nat nat nat nat \<comment> \<open>frame, check start, check, build, native duration\<close>
  | Stalled nat
  | Cleared
  | FrameReceived bool nat
  | ResetReceive

fun ct_step :: "chunking_times \<Rightarrow> ct_op \<Rightarrow> chunking_times" where
  "ct_step t (Queued now e) = ct_queued t now e"
| "ct_step t (FrameSent f start check build native) =
     ct_frame_sent t f (start + check + build + native)
       \<lparr>fs_check_start = start, fs_build_start = start + check,
        fs_native_start = start + check + build\<rparr>"
| "ct_step t (Stalled now) = ct_stalled t now"
| "ct_step t Cleared = ct_cleared t"
| "ct_step t (FrameReceived c now) = ct_frame_received t c now"
| "ct_step t ResetReceive = ct_reset_receive t"

definition ct_run :: "ct_op list \<Rightarrow> chunking_times" where
  "ct_run ops = fold (\<lambda>op t. ct_step t op) ops ct_default"

fun frames_of :: "ct_op \<Rightarrow> bytes list" where
  "frames_of (FrameSent f _ _ _ _) = [f]"
| "frames_of _ = []"

fun received_of :: "ct_op \<Rightarrow> bool list" where
  "received_of (FrameReceived c _) = [c]"
| "received_of _ = []"

text \<open>The steps of a message's first frame lie within its wait in the queue.\<close>

definition leaving_ok :: "leaving \<Rightarrow> bool" where
  "leaving_ok lv \<longleftrightarrow>
     ft_check (lv_first_steps lv) + ft_build (lv_first_steps lv) + ft_native (lv_first_steps lv)
       \<le> lv_waited lv"

definition pending_native :: "chunking_times \<Rightarrow> nat" where
  "pending_native t = (case ct_leaving t of None \<Rightarrow> 0 | Some lv \<Rightarrow> ft_native (lv_first_steps lv))"

definition ct_inv :: "chunking_times \<Rightarrow> bool" where
  "ct_inv t \<longleftrightarrow>
     cs_first_check (ct_stats t) + cs_first_build (ct_stats t) + cs_first_native (ct_stats t)
       \<le> cs_queue_wait (ct_stats t) \<and>
     cs_first_native (ct_stats t) + pending_native t \<le> cs_native_send (ct_stats t) \<and>
     cs_messages_sent (ct_stats t) \<le> cs_frames_sent (ct_stats t) \<and>
     cs_stalls (ct_stats t) \<le> cs_frames_sent (ct_stats t) \<and>
     (case ct_leaving t of None \<Rightarrow> True | Some lv \<Rightarrow> leaving_ok lv)"

lemma leaving_new_ok:
  assumes "fs_check_start steps \<le> fs_build_start steps" "fs_build_start steps \<le> fs_native_start steps"
    "fs_native_start steps \<le> now"
  shows "leaving_ok (leaving_new t now steps)"
    and "ft_native (lv_first_steps (leaving_new t now steps)) \<le> now - fs_native_start steps"
  using assms by (auto simp: leaving_ok_def leaving_new_def Let_def max_def split: list.splits)

lemma ct_end_stall_fields:
  "ct_leaving (ct_end_stall t now) = ct_leaving t"
  "ct_sent_at (ct_end_stall t now) = ct_sent_at t"
  "cs_first_check (ct_stats (ct_end_stall t now)) = cs_first_check (ct_stats t)"
  "cs_first_build (ct_stats (ct_end_stall t now)) = cs_first_build (ct_stats t)"
  "cs_first_native (ct_stats (ct_end_stall t now)) = cs_first_native (ct_stats t)"
  "cs_queue_wait (ct_stats (ct_end_stall t now)) = cs_queue_wait (ct_stats t)"
  "cs_native_send (ct_stats (ct_end_stall t now)) = cs_native_send (ct_stats t)"
  "cs_messages_sent (ct_stats (ct_end_stall t now)) = cs_messages_sent (ct_stats t)"
  "cs_frames_sent (ct_stats (ct_end_stall t now)) = cs_frames_sent (ct_stats t)"
  "cs_messages_received (ct_stats (ct_end_stall t now)) = cs_messages_received (ct_stats t)"
  "cs_frames_received (ct_stats (ct_end_stall t now)) = cs_frames_received (ct_stats t)"
  "cs_stalls (ct_stats (ct_end_stall t now)) \<le> cs_stalls (ct_stats t) + 1"
  by (simp_all add: ct_end_stall_def split: option.splits)

lemma ct_inv_frame_sent:
  assumes "ct_inv t" and "fs_check_start steps \<le> fs_build_start steps"
    "fs_build_start steps \<le> fs_native_start steps" "fs_native_start steps \<le> now"
  shows "ct_inv (ct_frame_sent t f now steps)"
proof -
  define t1 where "t1 = t\<lparr>ct_stats := (ct_stats t)\<lparr>cs_native_send :=
                   cs_native_send (ct_stats t) + (now - fs_native_start steps)\<rparr>\<rparr>"
  define t2 where "t2 = ct_end_stall t1 now"
  define lv where "lv = (case ct_leaving t2 of Some l \<Rightarrow> l | None \<Rightarrow> leaving_new t2 now steps)"
  have lv_ok: "leaving_ok lv"
    using assms(1) leaving_new_ok(1) [OF assms(2-4), of t2]
    by (auto simp: lv_def t2_def t1_def ct_inv_def ct_end_stall_fields split: option.splits)
  have native: "cs_first_native (ct_stats t2) + ft_native (lv_first_steps lv)
        \<le> cs_native_send (ct_stats t2)"
    using assms(1) leaving_new_ok(2) [OF assms(2-4), of t2]
    by (auto simp: lv_def t2_def t1_def ct_inv_def pending_native_def ct_end_stall_fields
        split: option.splits)
  have rest: "cs_first_check (ct_stats t2) + cs_first_build (ct_stats t2) + cs_first_native (ct_stats t2)
       \<le> cs_queue_wait (ct_stats t2)"
    "cs_messages_sent (ct_stats t2) \<le> cs_frames_sent (ct_stats t2)"
    "cs_stalls (ct_stats t2) \<le> cs_frames_sent (ct_stats t2) + 1"
    using assms(1) ct_end_stall_fields(12) [of t1 now]
    by (auto simp: t2_def t1_def ct_inv_def ct_end_stall_fields(1-11))
  have "ct_frame_sent t f now steps =
      (let t3 = t2\<lparr>ct_leaving := Some lv,
                   ct_stats := (ct_stats t2)\<lparr>cs_frames_sent := cs_frames_sent (ct_stats t2) + 1\<rparr>\<rparr>
       in if frame_more f then t3 else ct_finish_message t3 now lv)"
    by (simp only: ct_frame_sent_def Let_def t1_def [symmetric] t2_def [symmetric] lv_def [symmetric])
  then show ?thesis
    using lv_ok native rest
    by (auto simp: Let_def ct_inv_def pending_native_def ct_finish_message_def leaving_ok_def)
qed

lemma ct_inv_step: "ct_inv t \<Longrightarrow> ct_inv (ct_step t op)"
proof (cases op)
  case (FrameSent f start check build native)
  assume "ct_inv t"
  then show ?thesis using FrameSent by (simp add: ct_inv_frame_sent)
next
  case Cleared
  assume "ct_inv t"
  then show ?thesis using Cleared by (auto simp: ct_inv_def ct_cleared_def pending_native_def)
qed (auto simp: ct_inv_def ct_queued_def ct_stalled_def ct_frame_received_def ct_reset_receive_def
      pending_native_def Let_def split: option.splits)

lemma ct_inv_default: "ct_inv ct_default"
  by (simp add: ct_inv_def ct_default_def cs_default_def pending_native_def)

lemma ct_inv_run: "ct_inv (ct_run ops)"
  unfolding ct_run_def
  by (rule fold_invariant [where Q = "\<lambda>_. True"]) (auto simp: ct_inv_step ct_inv_default)

text \<open>What one operation adds to the counts.\<close>

lemma ct_step_counts:
  "cs_frames_sent (ct_stats (ct_step t op)) = cs_frames_sent (ct_stats t) + length (frames_of op)"
  "cs_messages_sent (ct_stats (ct_step t op))
     = cs_messages_sent (ct_stats t) + length (filter (\<lambda>f. \<not> frame_more f) (frames_of op))"
  "cs_frames_received (ct_stats (ct_step t op))
     = cs_frames_received (ct_stats t) + length (received_of op)"
  "cs_messages_received (ct_stats (ct_step t op))
     = cs_messages_received (ct_stats t) + length (filter id (received_of op))"
  by (cases op; simp add: ct_queued_def ct_frame_sent_def ct_finish_message_def ct_end_stall_fields
      ct_stalled_def ct_cleared_def ct_frame_received_def ct_reset_receive_def Let_def
      split: option.splits)+

lemma ct_fold_counts:
  "cs_frames_sent (ct_stats (fold (\<lambda>op t. ct_step t op) ops t))
     = cs_frames_sent (ct_stats t) + length (concat (map frames_of ops))"
  "cs_messages_sent (ct_stats (fold (\<lambda>op t. ct_step t op) ops t))
     = cs_messages_sent (ct_stats t) + length (filter (\<lambda>f. \<not> frame_more f) (concat (map frames_of ops)))"
  "cs_frames_received (ct_stats (fold (\<lambda>op t. ct_step t op) ops t))
     = cs_frames_received (ct_stats t) + length (concat (map received_of ops))"
  "cs_messages_received (ct_stats (fold (\<lambda>op t. ct_step t op) ops t))
     = cs_messages_received (ct_stats t) + length (filter id (concat (map received_of ops)))"
  by (induction ops arbitrary: t) (simp_all add: ct_step_counts)

text \<open>The totals of a channel count what happened and its times nest. Over any run of
  queued messages, frames handed over, stalls, clears and frames received: the frame counts are
  the frames, the message counts are the frames that ended a message, a stall is counted at most
  once per frame, the three steps of the first frames fit in the queue wait even when the pump
  started them before the message was queued, and the first frames' native sends are part of all
  native sends.\<close>
theorem chunking_totals:
  "let s = ct_stats (ct_run ops) in
     cs_frames_sent s = length (concat (map frames_of ops))
     \<and> cs_messages_sent s = length (filter (\<lambda>f. \<not> frame_more f) (concat (map frames_of ops)))
     \<and> cs_frames_received s = length (concat (map received_of ops))
     \<and> cs_messages_received s = length (filter id (concat (map received_of ops)))
     \<and> cs_stalls s \<le> cs_frames_sent s
     \<and> cs_first_check s + cs_first_build s + cs_first_native s \<le> cs_queue_wait s
     \<and> cs_first_native s \<le> cs_native_send s"
  using ct_inv_run [of ops] ct_fold_counts [of ops ct_default]
  by (simp add: Let_def ct_inv_def ct_run_def ct_default_def cs_default_def)

end
