(* ===== verification/Dc_Channel.thy ===== *)
theory Dc_Channel
  imports Dc_Negotiation Dc_Recv Chunking_Times
begin

text \<open>
  A data channel (\<open>crates/reactor-webrtc/src/peer_connection.rs\<close>, from \<open>RawDc\<close> to
  \<open>DataChannel\<close>): the decision whether it is chunked, the pump that moves frames from the
  queue to libwebrtc, the callbacks of the native observer and the methods of the channel.

  libwebrtc is the argument \<open>api\<close>: a record of the native functions the code calls, over a
  type of native states. Each of them returns the native state after the call, so the network
  may drain the native buffer and the clock may advance at every call. What the caller sees is
  kept in two lists: the messages its \<open>on_message\<close> handler was given, and the notices
  handed to \<open>notify\<close> (theory Dc_Notices says how those are delivered).
\<close>

section \<open>The native channel\<close>

record 'n native_api =
  na_state :: "'n \<Rightarrow> int \<times> 'n"
  na_ordered :: "'n \<Rightarrow> int \<times> 'n"
  na_reliable :: "'n \<Rightarrow> int \<times> 'n"
  na_buffered_amount :: "'n \<Rightarrow> nat \<times> 'n"
  na_send :: "'n \<Rightarrow> bytes \<Rightarrow> bool \<Rightarrow> int \<times> 'n"
  na_send_measured :: "'n \<Rightarrow> bytes \<Rightarrow> bool \<Rightarrow> (int \<times> nat \<times> bool) \<times> 'n"
    \<comment> \<open>result, buffered amount after it, whether the low event was raised inside the call\<close>
  na_close :: "'n \<Rightarrow> 'n"
  na_set_low_threshold :: "'n \<Rightarrow> nat \<Rightarrow> 'n"
  na_register_observer :: "'n \<Rightarrow> bool \<Rightarrow> 'n"
  na_now :: "'n \<Rightarrow> nat \<times> 'n"
  na_sleep :: "'n \<Rightarrow> 'n"

definition raw_state :: "'n native_api \<Rightarrow> 'n \<Rightarrow> data_channel_state \<times> 'n" where
  "raw_state api w = (case na_state api w of (v, w') \<Rightarrow> (data_channel_state_from_raw v, w'))"

definition raw_send :: "'n native_api \<Rightarrow> 'n \<Rightarrow> bytes \<Rightarrow> bool \<Rightarrow> bool \<times> 'n" where
  "raw_send api w data binary = (case na_send api w data binary of (r, w') \<Rightarrow> (r = 1, w'))"

definition raw_send_measured ::
  "'n native_api \<Rightarrow> 'n \<Rightarrow> bytes \<Rightarrow> bool \<Rightarrow> (bool \<times> nat \<times> bool) \<times> 'n" where
  "raw_send_measured api w data binary =
     (case na_send_measured api w data binary of ((r, after, low), w') \<Rightarrow> ((r = 1, after, low), w'))"

section \<open>State\<close>

record chunked =
  ch_queue :: send_queue
  ch_pump_again :: bool
  ch_reassembler :: reassembler
  ch_times :: chunking_times
  ch_pending :: "(bytes \<times> bool) list"
  ch_pending_bytes :: nat
  ch_pending_limit :: nat
  ch_user_low_threshold :: nat
  ch_user_low_armed :: bool
  ch_native_est :: nat
  ch_trust_below :: nat

definition UNKNOWN :: nat where "UNKNOWN = u64_max"

datatype notice = StateNotice data_channel_state | BufferedAmountLow

record channel =
  dc_on_message :: bool \<comment> \<open>whether the slot holds a handler\<close>
  dc_registered :: bool
  dc_on_network_thread :: bool
  dc_negotiation :: "negotiation option"
  dc_decided :: "chunked option option"
  dc_early_low_threshold :: nat
  dc_delivered :: "(bytes \<times> bool) list" \<comment> \<open>calls of the \<open>on_message\<close> handler, in order\<close>
  dc_notices :: "notice list" \<comment> \<open>what was handed to \<open>notify\<close>, in order\<close>

definition dc_new :: "bool \<Rightarrow> channel" where
  "dc_new on_network_thread =
     \<lparr>dc_on_message = False, dc_registered = False, dc_on_network_thread = on_network_thread,
      dc_negotiation = None, dc_decided = None, dc_early_low_threshold = 0,
      dc_delivered = [], dc_notices = []\<rparr>"

definition with_dc_negotiation :: "channel \<Rightarrow> negotiation \<Rightarrow> channel" where
  "with_dc_negotiation ch n = ch\<lparr>dc_negotiation := Some n\<rparr>"

section \<open>The decision\<close>

text \<open>\<open>SendQueue::new\<close> panics on a bad configuration: no state. Settings the factory
  accepted never get there.\<close>

definition decide_chunking :: "negotiation \<Rightarrow> bool \<Rightarrow> bool \<Rightarrow> nat \<Rightarrow> chunked option" where
  "decide_chunking neg ordered reliable early =
     (case (ng_settings neg, ng_remote neg) of
        (Some settings, Some remote) \<Rightarrow>
          if ordered \<and> reliable
          then (case send_new (dk_send_config settings remote) of
                  None \<Rightarrow> None
                | Some queue \<Rightarrow> Some
                    \<lparr>ch_queue = queue, ch_pump_again = False,
                     ch_reassembler = recv_new (dk_max_message_size settings),
                     ch_times = ct_default, ch_pending = [], ch_pending_bytes = 0,
                     ch_pending_limit = dk_send_buffer_limit settings,
                     ch_user_low_threshold = early, ch_user_low_armed = False,
                     ch_native_est = UNKNOWN,
                     ch_trust_below = low_water (dk_send_config settings remote)\<rparr>)
          else None
      | _ \<Rightarrow> None)"

definition ensure_registered :: "'n native_api \<Rightarrow> 'n \<Rightarrow> channel \<Rightarrow> 'n \<times> channel" where
  "ensure_registered api w ch =
     (if dc_registered ch then (w, ch)
      else (na_register_observer api w (dc_on_network_thread ch), ch\<lparr>dc_registered := True\<rparr>))"

definition dc_chunked :: "'n native_api \<Rightarrow> 'n \<Rightarrow> channel \<Rightarrow> 'n \<times> channel" where
  "dc_chunked api w ch =
     (case dc_decided ch of
        Some _ \<Rightarrow> (w, ch)
      | None \<Rightarrow>
          (case dc_negotiation ch of
             None \<Rightarrow> (w, ch)
           | Some neg \<Rightarrow>
               (let (st, w1) = raw_state api w in
                if st \<noteq> DcOpen then (w1, ch)
                else
                  (let (ordered, w2) = na_ordered api w1;
                       (reliable, w3) = na_reliable api w2;
                       d = decide_chunking neg (ordered \<noteq> 0) (reliable \<noteq> 0) (dc_early_low_threshold ch);
                       ch1 = ch\<lparr>dc_decided := Some d\<rparr>
                   in case d of
                        None \<Rightarrow> (w3, ch1)
                      | Some c \<Rightarrow>
                          ensure_registered api
                            (na_set_low_threshold api w3 (low_water (sq_config (ch_queue c)))) ch1))))"

text \<open>What \<open>chunked()\<close> returns: the decided state.\<close>

definition the_chunked :: "channel \<Rightarrow> chunked option" where
  "the_chunked ch = (case dc_decided ch of Some (Some c) \<Rightarrow> Some c | _ \<Rightarrow> None)"

definition put_chunked :: "channel \<Rightarrow> chunked \<Rightarrow> channel" where
  "put_chunked ch c = ch\<lparr>dc_decided := Some (Some c)\<rparr>"

definition notify :: "channel \<Rightarrow> notice list \<Rightarrow> channel" where
  "notify ch ns = ch\<lparr>dc_notices := dc_notices ch @ ns\<rparr>"

definition dc_buffered_amount :: "'n native_api \<Rightarrow> 'n \<Rightarrow> channel \<Rightarrow> nat \<times> 'n \<times> channel" where
  "dc_buffered_amount api w ch =
     (let (native, w1) = na_buffered_amount api w;
          (w2, ch1) = dc_chunked api w1 ch
      in (case the_chunked ch1 of Some c \<Rightarrow> native + send_queued (ch_queue c) | None \<Rightarrow> native, w2, ch1))"

section \<open>The pump\<close>

text \<open>\<open>maybe_fire_user_low\<close> on a decided channel.\<close>

definition maybe_fire_user_low :: "'n native_api \<Rightarrow> 'n \<Rightarrow> chunked \<Rightarrow> 'n \<times> chunked \<times> notice list" where
  "maybe_fire_user_low api w c =
     (let (native, w1) = na_buffered_amount api w in
      if native + send_queued (ch_queue c) \<le> ch_user_low_threshold c \<and> ch_user_low_armed c
      then (w1, c\<lparr>ch_user_low_armed := False\<rparr>, [BufferedAmountLow])
      else (w1, c, []))"

text \<open>The low event raised inside the pump's own send: its \<open>pump\<close> finds the lock held and
  leaves only the request.\<close>

definition inline_low :: "'n native_api \<Rightarrow> 'n \<Rightarrow> chunked \<Rightarrow> 'n \<times> chunked \<times> notice list" where
  "inline_low api w c = maybe_fire_user_low api w (c\<lparr>ch_pump_again := True\<rparr>)"

datatype pump_turn = TurnSent bytes | TurnIdle | TurnFailed

definition pump_reading :: "'n native_api \<Rightarrow> 'n \<Rightarrow> chunked \<Rightarrow> nat \<times> 'n \<times> chunked" where
  "pump_reading api w c =
     (if ch_native_est c \<le> ch_trust_below c then (ch_native_est c, w, c)
      else case na_buffered_amount api w of (n, w') \<Rightarrow> (n, w', c\<lparr>ch_native_est := n\<rparr>))"

text \<open>One turn of the inner loop.\<close>

definition pump_once ::
  "'n native_api \<Rightarrow> 'n \<Rightarrow> chunked \<Rightarrow> pump_turn \<times> 'n \<times> chunked \<times> notice list" where
  "pump_once api w c =
     (let (check_start, w1) = na_now api w;
          (buffered, w2, c1) = pump_reading api w1 c;
          (build_start, w3) = na_now api w2;
          (frame, queue) = next_frame (ch_queue c1) buffered;
          c2 = c1\<lparr>ch_queue := queue\<rparr>
      in case frame of
           None \<Rightarrow>
             if \<not> send_is_empty queue
             then (let (t, w4) = na_now api w3
                   in (TurnIdle, w4, c2\<lparr>ch_times := ct_stalled (ch_times c2) t\<rparr>, []))
             else (TurnIdle, w3, c2, [])
         | Some f \<Rightarrow>
             (let (native_start, w4) = na_now api w3;
                  ((sent, after, low), w5) = raw_send_measured api w4 f True;
                  (w6, c3, ns) = (if low then inline_low api w5 c2 else (w5, c2, []));
                  c4 = c3\<lparr>ch_native_est := after\<rparr>;
                  (native_end, w7) = na_now api w6
              in if \<not> sent
                 then (TurnFailed, w7, c4\<lparr>ch_queue := send_clear (ch_queue c4),
                                          ch_times := ct_cleared (ch_times c4)\<rparr>, ns)
                 else (TurnSent f, w7,
                       c4\<lparr>ch_times := ct_frame_sent (ch_times c4) f native_end
                            \<lparr>fs_check_start = check_start, fs_build_start = build_start,
                             fs_native_start = native_start\<rparr>\<rparr>, ns)))"

text \<open>
  The loops of \<open>pump\<close> while the lock is held: the flag says whether control is in the inner
  loop. The first argument bounds the number of turns; None means it did not suffice. The frames
  taken by libwebrtc are returned in order.
\<close>

fun pump_loop ::
  "'n native_api \<Rightarrow> nat \<Rightarrow> bool \<Rightarrow> 'n \<Rightarrow> chunked \<Rightarrow> ('n \<times> chunked \<times> notice list \<times> bytes list) option" where
  "pump_loop api 0 inner w c = None"
| "pump_loop api (Suc fuel) inner w c =
     (if inner
      then (case pump_once api w c of
              (TurnFailed, w', c', ns) \<Rightarrow> Some (w', c', ns, [])
            | (TurnIdle, w', c', ns) \<Rightarrow>
                map_option (\<lambda>(w2, c2, ns2, fs). (w2, c2, ns @ ns2, fs)) (pump_loop api fuel False w' c')
            | (TurnSent f, w', c', ns) \<Rightarrow>
                map_option (\<lambda>(w2, c2, ns2, fs). (w2, c2, ns @ ns2, f # fs)) (pump_loop api fuel True w' c'))
      else if ch_pump_again c
        then pump_loop api fuel True w (c\<lparr>ch_pump_again := False\<rparr>)
        else Some (w, c, [], []))"

definition pump_fuel :: "chunked \<Rightarrow> nat" where
  "pump_fuel c = 3 * frames_left (ch_queue c) + 4"

text \<open>\<open>pump\<close> by a caller that gets the lock. The request is served before the lock is
  released, and the theory Dc_Pump treats several callers.\<close>

definition pump ::
  "'n native_api \<Rightarrow> 'n \<Rightarrow> chunked \<Rightarrow> ('n \<times> chunked \<times> notice list \<times> bytes list) option" where
  "pump api w c = pump_loop api (pump_fuel c) False w (c\<lparr>ch_pump_again := True\<rparr>)"

section \<open>Callbacks of the native observer\<close>

definition dc_deliver :: "channel \<Rightarrow> chunked \<Rightarrow> bytes \<Rightarrow> bool \<Rightarrow> channel" where
  "dc_deliver ch c data binary =
     (if dc_on_message ch
      then (put_chunked ch c)\<lparr>dc_delivered := dc_delivered ch @ [(data, binary)]\<rparr>
      else if ch_pending_bytes c + length data \<le> ch_pending_limit c
        then put_chunked ch (c\<lparr>ch_pending_bytes := ch_pending_bytes c + length data,
                               ch_pending := ch_pending c @ [(data, binary)]\<rparr>)
        else put_chunked ch c)"

definition on_message_plain :: "channel \<Rightarrow> bytes \<Rightarrow> bool \<Rightarrow> channel" where
  "on_message_plain ch data binary =
     (if dc_on_message ch then ch\<lparr>dc_delivered := dc_delivered ch @ [(data, binary)]\<rparr> else ch)"

definition dc_on_message_cb :: "'n native_api \<Rightarrow> 'n \<Rightarrow> channel \<Rightarrow> bytes \<Rightarrow> int \<Rightarrow> 'n \<times> channel" where
  "dc_on_message_cb api w ch data binary =
     (let (w1, ch1) = dc_chunked api w ch in
      case the_chunked ch1 of
        None \<Rightarrow> (w1, on_message_plain ch1 data (binary \<noteq> 0))
      | Some c \<Rightarrow>
          (let (delivery, r) = (if binary \<noteq> 0 then recv_push (ch_reassembler c) data
                                else (Inl TypeChanged, ch_reassembler c));
               c1 = c\<lparr>ch_reassembler := r\<rparr>
           in case delivery of
                Inl _ \<Rightarrow>
                  (na_close api w1,
                   put_chunked ch1 (c1\<lparr>ch_reassembler := recv_reset r,
                                       ch_times := ct_reset_receive (ch_times c1)\<rparr>))
              | Inr d \<Rightarrow>
                  (let (t, w2) = na_now api w1;
                       c2 = c1\<lparr>ch_times := ct_frame_received (ch_times c1) (d \<noteq> Pending) t\<rparr>
                   in case d of
                        Message m b \<Rightarrow> (w2, dc_deliver ch1 c2 m b)
                      | Pending \<Rightarrow> (w2, put_chunked ch1 c2)
                      | Dropped _ \<Rightarrow> (w2, put_chunked ch1 c2))))"

definition dc_on_state_change_cb :: "'n native_api \<Rightarrow> 'n \<Rightarrow> channel \<Rightarrow> int \<Rightarrow> 'n \<times> channel" where
  "dc_on_state_change_cb api w ch raw =
     (let st = data_channel_state_from_raw raw;
          (w1, ch1) =
            (case st of
               DcOpen \<Rightarrow> dc_chunked api w ch
             | DcClosed \<Rightarrow>
                 (case the_chunked ch of
                    Some c \<Rightarrow>
                      (w, put_chunked ch
                            (c\<lparr>ch_queue := send_clear (ch_queue c),
                               ch_reassembler := recv_reset (ch_reassembler c),
                               ch_times := ct_reset_receive (ct_cleared (ch_times c))\<rparr>))
                  | None \<Rightarrow> (w, ch))
             | _ \<Rightarrow> (w, ch))
      in (w1, notify ch1 [StateNotice st]))"

text \<open>The caller of a low event from outside the pump; the frames libwebrtc took are the last
  component.\<close>

definition dc_on_buffered_amount_low_cb ::
  "'n native_api \<Rightarrow> 'n \<Rightarrow> channel \<Rightarrow> ('n \<times> channel \<times> bytes list) option" where
  "dc_on_buffered_amount_low_cb api w ch =
     (case the_chunked ch of
        Some c \<Rightarrow>
          (case pump api w c of
             None \<Rightarrow> None
           | Some (w1, c1, ns1, fs) \<Rightarrow>
               (case maybe_fire_user_low api w1 c1 of (w2, c2, ns2) \<Rightarrow>
                  Some (w2, notify (put_chunked ch c2) (ns1 @ ns2), fs)))
      | None \<Rightarrow> Some (w, notify ch [BufferedAmountLow], []))"

section \<open>Methods\<close>

definition dc_is_chunked :: "'n native_api \<Rightarrow> 'n \<Rightarrow> channel \<Rightarrow> bool \<times> 'n \<times> channel" where
  "dc_is_chunked api w ch = (let (w1, ch1) = dc_chunked api w ch in (the_chunked ch1 \<noteq> None, w1, ch1))"

definition dc_chunking_stats :: "'n native_api \<Rightarrow> 'n \<Rightarrow> channel \<Rightarrow> chunking_stats option \<times> 'n \<times> channel" where
  "dc_chunking_stats api w ch =
     (let (w1, ch1) = dc_chunked api w ch
      in (map_option (\<lambda>c. ct_stats (ch_times c)) (the_chunked ch1), w1, ch1))"

definition dc_set_low_threshold :: "'n native_api \<Rightarrow> 'n \<Rightarrow> channel \<Rightarrow> nat \<Rightarrow> 'n \<times> channel" where
  "dc_set_low_threshold api w ch threshold =
     (let (w1, ch1) = dc_chunked api w (ch\<lparr>dc_early_low_threshold := threshold\<rparr>) in
      case the_chunked ch1 of
        Some c \<Rightarrow> (w1, put_chunked ch1 (c\<lparr>ch_user_low_threshold := threshold\<rparr>))
      | None \<Rightarrow> (na_set_low_threshold api w1 threshold, ch1))"

definition send_failed :: error where
  "send_failed = Webrtc (Text ''data channel send failed'')"

definition dc_send ::
  "'n native_api \<Rightarrow> 'n \<Rightarrow> channel \<Rightarrow> bytes \<Rightarrow> bool \<Rightarrow> (unit result \<times> 'n \<times> channel \<times> bytes list) option" where
  "dc_send api w ch data binary =
     (let (entered, w1) = na_now api w;
          (w2, ch1) = dc_chunked api w1 ch
      in case the_chunked ch1 of
           None \<Rightarrow>
             (case raw_send api w2 data binary of (ok, w3) \<Rightarrow>
                Some (if ok then Inr () else Inl send_failed, w3, ch1, []))
         | Some c \<Rightarrow>
             (let (st, w3) = raw_state api w2 in
              if st \<noteq> DcOpen then Some (Inl send_failed, w3, ch1, [])
              else case send_push (ch_queue c) data binary of
                     (Inl e, _) \<Rightarrow> Some (Inl (DataChannel e), w3, ch1, [])
                   | (Inr _, queue) \<Rightarrow>
                       (let (t, w4) = na_now api w3;
                            c1 = c\<lparr>ch_queue := queue,
                                   ch_times := ct_queued (ch_times c) t (t - entered),
                                   ch_user_low_armed := True\<rparr>
                        in case pump api w4 c1 of
                             None \<Rightarrow> None
                           | Some (w5, c2, ns, fs) \<Rightarrow>
                               Some (Inr (), w5, notify (put_chunked ch1 c2) ns, fs))))"

text \<open>\<open>drain\<close>: \<open>None\<close> as a deadline never expires. The bound is on the number of
  polls; the last component collects the frames.\<close>

fun dc_drain ::
  "'n native_api \<Rightarrow> nat \<Rightarrow> nat option \<Rightarrow> 'n \<Rightarrow> channel \<Rightarrow> (bool \<times> 'n \<times> channel \<times> bytes list) option" where
  "dc_drain api 0 deadline w ch = None"
| "dc_drain api (Suc polls) deadline w ch =
     (let (b, w1, ch1) = dc_buffered_amount api w ch in
      if b = 0 then Some (True, w1, ch1, [])
      else
        (let (t, w2) = na_now api w1;
             expired = (case deadline of None \<Rightarrow> False | Some d \<Rightarrow> t \<ge> d);
             (st, w3) = raw_state api w2
         in if st \<noteq> DcOpen \<or> expired then Some (False, w3, ch1, [])
            else
              (let (w4, ch2) = dc_chunked api w3 ch1 in
               case the_chunked ch2 of
                 None \<Rightarrow> dc_drain api polls deadline (na_sleep api w4) ch2
               | Some c \<Rightarrow>
                   (case pump api w4 c of
                      None \<Rightarrow> None
                    | Some (w5, c1, ns, fs) \<Rightarrow>
                        map_option (\<lambda>(r, w6, ch3, fs2). (r, w6, ch3, fs @ fs2))
                          (dc_drain api polls deadline (na_sleep api w5)
                             (notify (put_chunked ch2 c1) ns))))))"

definition dc_close ::
  "'n native_api \<Rightarrow> nat \<Rightarrow> nat option \<Rightarrow> 'n \<Rightarrow> channel \<Rightarrow> ('n \<times> channel \<times> bytes list) option" where
  "dc_close api polls deadline w ch =
     (let (w1, ch1) = dc_chunked api w ch in
      case the_chunked ch1 of
        None \<Rightarrow> Some (na_close api w1, ch1, [])
      | Some _ \<Rightarrow>
          (case dc_drain api polls deadline w1 ch1 of
             None \<Rightarrow> None
           | Some (_, w2, ch2, fs) \<Rightarrow> Some (na_close api w2, ch2, fs)))"

text \<open>The \<open>on_message\<close> setter: what is held goes to the new handler first.\<close>

definition dc_set_on_message :: "'n native_api \<Rightarrow> 'n \<Rightarrow> channel \<Rightarrow> 'n \<times> channel" where
  "dc_set_on_message api w ch =
     (let held = (case the_chunked ch of Some c \<Rightarrow> ch_pending c | None \<Rightarrow> []);
          ch1 = (case the_chunked ch of
                   Some c \<Rightarrow> put_chunked ch (c\<lparr>ch_pending_bytes := 0, ch_pending := []\<rparr>)
                 | None \<Rightarrow> ch)
      in ensure_registered api w
           (ch1\<lparr>dc_on_message := True, dc_delivered := dc_delivered ch1 @ held\<rparr>))"

definition dc_set_handler :: "'n native_api \<Rightarrow> 'n \<Rightarrow> channel \<Rightarrow> 'n \<times> channel" where
  "dc_set_handler api w ch = ensure_registered api w ch"

lemmas dc_decision_defs = dc_chunked_def ensure_registered_def Let_def

end
