(* ===== verification/Dc_Channel_Props.thy ===== *)
theory Dc_Channel_Props
  imports Dc_Channel Dc_Wire Dc_Agreement
begin

text \<open>
  What the channel promises: the pump returns, keeps libwebrtc's buffer below its limit and
  hands over whole messages in order; the decision is made once and is the same at both ends;
  messages that arrive before there is a handler are kept.
\<close>

section \<open>What is assumed of libwebrtc\<close>

text \<open>
  The documented behaviour of the native buffer, \<open>actual\<close> being the bytes it holds: it grows
  only by a send, and by at most the frame; a reading is at least what is left after it; and the
  amount measured by a send is at least what is left and at most what was there plus the frame.
\<close>

definition native_ok :: "'n native_api \<Rightarrow> ('n \<Rightarrow> nat) \<Rightarrow> bool" where
  "native_ok api actual \<longleftrightarrow>
     (\<forall>w. actual (snd (na_now api w)) \<le> actual w) \<and>
     (\<forall>w. actual (snd (na_state api w)) \<le> actual w) \<and>
     (\<forall>w. actual (na_sleep api w) \<le> actual w) \<and>
     (\<forall>w. actual (snd (na_buffered_amount api w)) \<le> fst (na_buffered_amount api w) \<and>
          fst (na_buffered_amount api w) \<le> actual w) \<and>
     (\<forall>w f b. actual (snd (na_send_measured api w f b)) \<le> fst (snd (fst (na_send_measured api w f b))) \<and>
              fst (snd (fst (na_send_measured api w f b))) \<le> actual w + length f)"

text \<open>libwebrtc takes a send that keeps its buffer within its limit (the channel is open).\<close>

definition native_takes :: "'n native_api \<Rightarrow> ('n \<Rightarrow> nat) \<Rightarrow> bool" where
  "native_takes api actual \<longleftrightarrow>
     (\<forall>w f b. actual w + length f \<le> NATIVE_SEND_BUFFER_LIMIT \<longrightarrow>
              fst (fst (na_send_measured api w f b)) = 1)"

lemma native_now: "native_ok api actual \<Longrightarrow> na_now api w = (t, w') \<Longrightarrow> actual w' \<le> actual w"
  unfolding native_ok_def by (metis snd_conv)

lemma native_state: "native_ok api actual \<Longrightarrow> raw_state api w = (t, w') \<Longrightarrow> actual w' \<le> actual w"
  unfolding native_ok_def raw_state_def by (metis case_prod_beta snd_conv)

lemma native_buffered:
  "native_ok api actual \<Longrightarrow> na_buffered_amount api w = (n, w') \<Longrightarrow> actual w' \<le> n \<and> n \<le> actual w"
  unfolding native_ok_def by (metis fst_conv snd_conv)

lemma native_send_measured:
  "native_ok api actual \<Longrightarrow> raw_send_measured api w f b = ((sent, after, low), w') \<Longrightarrow>
   actual w' \<le> after \<and> after \<le> actual w + length f"
  unfolding native_ok_def raw_send_measured_def
  by (auto split: prod.splits) (metis fst_conv snd_conv)+

lemma native_sent:
  "native_takes api actual \<Longrightarrow> raw_send_measured api w f b = ((sent, after, low), w') \<Longrightarrow>
   actual w + length f \<le> NATIVE_SEND_BUFFER_LIMIT \<Longrightarrow> sent"
  unfolding native_takes_def raw_send_measured_def
  by (auto split: prod.splits) (metis fst_conv)

section \<open>Invariant of a chunked channel\<close>

definition chunk_inv :: "chunked \<Rightarrow> bool" where
  "chunk_inv c \<longleftrightarrow> queue_inv (ch_queue c) \<and> ch_trust_below c = low_water (sq_config (ch_queue c))"

definition native_inv :: "('n \<Rightarrow> nat) \<Rightarrow> 'n \<Rightarrow> chunked \<Rightarrow> bool" where
  "native_inv actual w c \<longleftrightarrow>
     (ch_native_est c \<le> ch_trust_below c \<longrightarrow> actual w \<le> ch_native_est c) \<and>
     actual w < high_water (sq_config (ch_queue c)) + chunk_size (sq_config (ch_queue c))"

text \<open>Nothing is left to send, or the buffer was at the high-water mark when last read: the low
  event is still to come.\<close>

definition at_rest :: "chunked \<Rightarrow> bool" where
  "at_rest c \<longleftrightarrow> send_is_empty (ch_queue c) \<or> high_water (sq_config (ch_queue c)) \<le> ch_native_est c"

lemma native_inv_less: "native_inv actual w c \<Longrightarrow> actual w' \<le> actual w \<Longrightarrow> native_inv actual w' c"
  unfolding native_inv_def using le_trans le_less_trans by blast

text \<open>The frames of a queue, cut one after the other.\<close>

fun cut_frames :: "send_queue \<Rightarrow> bytes list \<Rightarrow> send_queue \<Rightarrow> bool" where
  "cut_frames q [] q' = (q = q')"
| "cut_frames q (f # fs) q' =
     (case next_frame q 0 of (None, _) \<Rightarrow> False | (Some g, q1) \<Rightarrow> g = f \<and> cut_frames q1 fs q')"

lemma next_frame_any:
  "next_frame q n = (Some f, q') \<Longrightarrow> next_frame q 0 = (Some f, q')"
  by (auto simp: next_frame_def split: if_splits)

lemma next_frame_high: "next_frame q n = (None, q') \<Longrightarrow> sq_pending q = [] \<or> high_water (sq_config q) \<le> n"
  using next_frame_is_Some [of n q] by fastforce

section \<open>One turn of the pump\<close>

lemma fire_low_fields:
  assumes "native_ok api actual" "maybe_fire_user_low api w c = (w', c', ns)"
  shows "ch_queue c' = ch_queue c" "ch_trust_below c' = ch_trust_below c"
    "ch_native_est c' = ch_native_est c" "ch_pump_again c' = ch_pump_again c"
    "ch_times c' = ch_times c" "ch_reassembler c' = ch_reassembler c" "ch_pending c' = ch_pending c"
    "ch_pending_bytes c' = ch_pending_bytes c" "ch_pending_limit c' = ch_pending_limit c"
    "actual w' \<le> actual w"
  using assms native_buffered [OF assms(1), of w]
  by (fastforce simp: maybe_fire_user_low_def Let_def split: prod.splits if_splits)+

lemma inline_low_fields:
  assumes "native_ok api actual" "(if low then inline_low api w c else (w, c, [])) = (w', c', ns)"
  shows "ch_queue c' = ch_queue c" "ch_trust_below c' = ch_trust_below c" "ch_times c' = ch_times c"
    "ch_reassembler c' = ch_reassembler c" "actual w' \<le> actual w"
  using assms(2) fire_low_fields [OF assms(1), of w "c\<lparr>ch_pump_again := True\<rparr>" w' c' ns]
  by (auto simp: inline_low_def split: if_splits)

lemma pump_reading_ok:
  assumes ok: "native_ok api actual" and inv: "chunk_inv c" "native_inv actual w c"
    and rd: "pump_reading api w c = (n, w', c')"
  shows "actual w' \<le> n" "actual w' \<le> actual w" "ch_queue c' = ch_queue c"
    "chunk_inv c'" "native_inv actual w' c'" "ch_pump_again c' = ch_pump_again c"
    "ch_times c' = ch_times c" "n < high_water (sq_config (ch_queue c)) \<or> n = ch_native_est c'"
proof -
  have "actual w' \<le> n \<and> actual w' \<le> actual w \<and> ch_queue c' = ch_queue c \<and> chunk_inv c' \<and>
      native_inv actual w' c' \<and> ch_pump_again c' = ch_pump_again c \<and> ch_times c' = ch_times c \<and>
      n = ch_native_est c'"
  proof (cases "ch_native_est c \<le> ch_trust_below c")
    case True
    with rd inv show ?thesis by (auto simp: pump_reading_def native_inv_def)
  next
    case False
    then obtain m w1 where r: "na_buffered_amount api w = (m, w1)"
      by (cases "na_buffered_amount api w") auto
    with False rd native_buffered [OF ok r] inv show ?thesis
      by (auto simp: pump_reading_def native_inv_def chunk_inv_def)
  qed
  then show "actual w' \<le> n" "actual w' \<le> actual w" "ch_queue c' = ch_queue c"
    "chunk_inv c'" "native_inv actual w' c'" "ch_pump_again c' = ch_pump_again c"
    "ch_times c' = ch_times c" "n < high_water (sq_config (ch_queue c)) \<or> n = ch_native_est c'"
    by simp_all
qed

text \<open>A turn, by what it returns: the frame it cut, the buffer bound at the moment of the send,
  and the invariant after it.\<close>

definition turn_ok :: "('n \<Rightarrow> nat) \<Rightarrow> chunked \<Rightarrow> pump_turn \<Rightarrow> 'n \<Rightarrow> chunked \<Rightarrow> bool" where
  "turn_ok actual c turn w' c' \<longleftrightarrow>
     chunk_inv c' \<and> native_inv actual w' c' \<and>
     (case turn of
        TurnIdle \<Rightarrow> ch_queue c' = ch_queue c \<and> ch_pump_again c' = ch_pump_again c \<and> at_rest c'
      | TurnSent f \<Rightarrow> next_frame (ch_queue c) 0 = (Some f, ch_queue c')
      | TurnFailed \<Rightarrow> ch_queue c' = send_clear (ch_queue c') \<and> at_rest c')"

lemma buffer_room:
  assumes "queue_inv q" "next_frame q n = (Some f, q')" "actual w \<le> n"
  shows "actual w + length f < high_water (sq_config q) + chunk_size (sq_config q)"
    and "actual w + length f \<le> NATIVE_SEND_BUFFER_LIMIT"
proof -
  have "n < high_water (sq_config q)" "length f \<le> chunk_size (sq_config q)"
    using sendq.next_gate [OF assms(2)] sendq.next_length [OF assms(1,2)] by simp_all
  moreover have "high_water (sq_config q) + chunk_size (sq_config q) \<le> NATIVE_SEND_BUFFER_LIMIT"
    using assms(1) by (simp add: queue_inv_def valid_config_def)
  ultimately show "actual w + length f < high_water (sq_config q) + chunk_size (sq_config q)"
    "actual w + length f \<le> NATIVE_SEND_BUFFER_LIMIT" using assms(3) by simp_all
qed

text \<open>The equation of a turn, with the calls it makes named.\<close>

lemma pump_once_None:
  assumes "na_now api w = (t1, w1)" "pump_reading api w1 c = (n, w2, c1)" "na_now api w2 = (t2, w3)"
    "next_frame (ch_queue c1) n = (None, q)"
  shows "pump_once api w c =
     (if \<not> send_is_empty q
      then (case na_now api w3 of (t, w4) \<Rightarrow>
              (TurnIdle, w4, c1\<lparr>ch_queue := q, ch_times := ct_stalled (ch_times c1) t\<rparr>, []))
      else (TurnIdle, w3, c1\<lparr>ch_queue := q\<rparr>, []))"
  by (simp add: pump_once_def Let_def assms split: prod.splits)

lemma pump_once_Some:
  assumes "na_now api w = (t1, w1)" "pump_reading api w1 c = (n, w2, c1)" "na_now api w2 = (t2, w3)"
    "next_frame (ch_queue c1) n = (Some f, q)" "na_now api w3 = (t3, w4)"
    "raw_send_measured api w4 f True = ((sent, after, low), w5)"
    "(if low then inline_low api w5 (c1\<lparr>ch_queue := q\<rparr>) else (w5, c1\<lparr>ch_queue := q\<rparr>, [])) = (w6, c3, ns)"
    "na_now api w6 = (t4, w7)"
  shows "pump_once api w c =
     (let c4 = c3\<lparr>ch_native_est := after\<rparr> in
      if \<not> sent
      then (TurnFailed, w7, c4\<lparr>ch_queue := send_clear (ch_queue c4), ch_times := ct_cleared (ch_times c4)\<rparr>, ns)
      else (TurnSent f, w7, c4\<lparr>ch_times := ct_frame_sent (ch_times c4) f t4
              \<lparr>fs_check_start = t1, fs_build_start = t2, fs_native_start = t3\<rparr>\<rparr>, ns))"
  by (simp only: pump_once_def Let_def assms prod.case option.case)

lemma pump_once_ok:
  assumes ok: "native_ok api actual" and inv: "chunk_inv c" "native_inv actual w c"
    and step: "pump_once api w c = (turn, w', c', ns)"
  shows "turn_ok actual c turn w' c'" and "native_takes api actual \<Longrightarrow> turn \<noteq> TurnFailed"
proof -
  obtain t1 w1 where n1: "na_now api w = (t1, w1)" by fastforce
  obtain n w2 c1 where rd: "pump_reading api w1 c = (n, w2, c1)" by (cases "pump_reading api w1 c")
  obtain t2 w3 where n2: "na_now api w2 = (t2, w3)" by fastforce
  obtain frame q where nf: "next_frame (ch_queue c1) n = (frame, q)" by fastforce
  note reading = pump_reading_ok [OF ok inv(1) native_inv_less [OF inv(2) native_now [OF ok n1]] rd]
  have w3: "actual w3 \<le> actual w2" by (rule native_now [OF ok n2])
  have inv3: "native_inv actual w3 c1" by (rule native_inv_less [OF reading(5) w3])
  have qi: "queue_inv (ch_queue c1)" using reading(4) by (simp add: chunk_inv_def)
  show "turn_ok actual c turn w' c'" and "native_takes api actual \<Longrightarrow> turn \<noteq> TurnFailed"
  proof (atomize (full), cases frame)
    case None
    then have q: "q = ch_queue c1" using nf next_frame_None by blast
    have rest: "at_rest (c1\<lparr>ch_queue := q\<rparr>)"
      using sendq.next_blocked [of "ch_queue c1" n q] nf None reading(3,8)
      by (auto simp: at_rest_def q send_is_empty_def frames_left_0 dest: next_frame_high)
    have w': "actual w' \<le> actual w3" "turn = TurnIdle" "ch_queue c' = ch_queue c1"
      "ch_pump_again c' = ch_pump_again c1" "ch_native_est c' = ch_native_est c1"
      "ch_trust_below c' = ch_trust_below c1"
      using step native_now [OF ok, of w3]
      unfolding pump_once_None [OF n1 rd n2 nf [unfolded None]]
      by (auto simp: q split: if_splits prod.splits)
    then have "turn_ok actual c turn w' c'"
      using rest reading(3,4,6) native_inv_less [OF inv3 w'(1)]
      by (simp add: turn_ok_def chunk_inv_def native_inv_def at_rest_def q)
    then show "turn_ok actual c turn w' c' \<and> (native_takes api actual \<longrightarrow> turn \<noteq> TurnFailed)"
      using w' by simp
  next
    case (Some f)
    obtain t3 w4 where n3: "na_now api w3 = (t3, w4)" by fastforce
    obtain sent after low w5 where
      sm: "raw_send_measured api w4 f True = ((sent, after, low), w5)" by (cases "raw_send_measured api w4 f True") auto
    obtain w6 c3 ns' where il: "(if low then inline_low api w5 (c1\<lparr>ch_queue := q\<rparr>) else (w5, c1\<lparr>ch_queue := q\<rparr>, []))
        = (w6, c3, ns')" by (rule prod_cases3)
    obtain t4 w7 where n4: "na_now api w6 = (t4, w7)" by fastforce
    note fields = inline_low_fields [OF ok il]
    have nfs: "next_frame (ch_queue c1) n = (Some f, q)" using nf Some by simp
    have w4: "actual w4 \<le> n" using reading(1) w3 native_now [OF ok n3] by simp
    note room = buffer_room [where actual = actual and w = w4, OF qi nfs w4]
    note sends = native_send_measured [OF ok sm]
    have w7: "actual w7 \<le> after"
      using sends native_now [OF ok n4] fields(5) by simp
    have after: "after < high_water (sq_config (ch_queue c1)) + chunk_size (sq_config (ch_queue c1))"
      using sends room(1) by simp
    have q: "queue_inv q" "sq_config q = sq_config (ch_queue c1)"
      using sendq.next_inv [OF qi nfs] next_frame_config [of "ch_queue c1" n] nfs by simp_all
    have clear: "sq_config (send_clear q) = sq_config q" "send_clear (send_clear q) = send_clear q"
      "send_is_empty (send_clear q)" by (simp_all add: send_clear_def send_is_empty_def)
    have res: "w' = w7" "ch_native_est c' = after" "ch_trust_below c' = ch_trust_below c1"
      "if sent then turn = TurnSent f \<and> ch_queue c' = q
       else turn = TurnFailed \<and> ch_queue c' = send_clear q"
      using step fields unfolding pump_once_Some [OF n1 rd n2 nfs n3 sm il n4] Let_def
      by (auto split: if_splits)
    have "turn_ok actual c turn w' c'"
      using res w7 after q clear queue_inv_clear [OF q(1)] reading(3,4) next_frame_any [OF nfs]
      by (auto simp: turn_ok_def chunk_inv_def native_inv_def at_rest_def split: if_splits)
    moreover have "native_takes api actual \<longrightarrow> turn \<noteq> TurnFailed"
      using native_sent [where actual = actual, OF _ sm room(2)] res(4) by auto
    ultimately show "turn_ok actual c turn w' c' \<and> (native_takes api actual \<longrightarrow> turn \<noteq> TurnFailed)"
      by blast
  qed
qed

section \<open>The whole pump\<close>

lemma pump_loop_ok:
  assumes ok: "native_ok api actual"
  shows "chunk_inv c \<Longrightarrow> native_inv actual w c \<Longrightarrow> (\<not> inner \<and> \<not> ch_pump_again c \<longrightarrow> at_rest c) \<Longrightarrow>
    3 * frames_left (ch_queue c) + (if ch_pump_again c then 2 else 0) + (if inner then 1 else 0) < fuel \<Longrightarrow>
    \<exists>w' c' ns fs. pump_loop api fuel inner w c = Some (w', c', ns, fs) \<and>
      chunk_inv c' \<and> native_inv actual w' c' \<and> at_rest c' \<and>
      (native_takes api actual \<longrightarrow> cut_frames (ch_queue c) fs (ch_queue c'))"
proof (induction fuel arbitrary: inner w c)
  case (Suc fuel)
  show ?case
  proof (cases inner)
    case False
    show ?thesis
    proof (cases "ch_pump_again c")
      case True
      have "\<exists>w' c' ns fs. pump_loop api fuel True w (c\<lparr>ch_pump_again := False\<rparr>) = Some (w', c', ns, fs) \<and>
        chunk_inv c' \<and> native_inv actual w' c' \<and> at_rest c' \<and>
        (native_takes api actual \<longrightarrow> cut_frames (ch_queue (c\<lparr>ch_pump_again := False\<rparr>)) fs (ch_queue c'))"
        by (rule Suc.IH) (use Suc.prems True False in \<open>auto simp: chunk_inv_def native_inv_def\<close>)
      then show ?thesis using False True by simp
    next
      case again: False
      then show ?thesis using Suc.prems False by simp
    qed
  next
    case True
    obtain turn w1 c1 ns1 where st: "pump_once api w c = (turn, w1, c1, ns1)"
      by (cases "pump_once api w c") auto
    note turn = pump_once_ok [OF ok Suc.prems(1,2) st]
    show ?thesis
    proof (cases turn)
      case (TurnSent f)
      then have nf: "next_frame (ch_queue c) 0 = (Some f, ch_queue c1)"
        and inv1: "chunk_inv c1" "native_inv actual w1 c1"
        using turn(1) by (auto simp: turn_ok_def)
      have "frames_left (ch_queue c) = Suc (frames_left (ch_queue c1))"
        using sendq.next_work [OF _ nf] Suc.prems(1) by (simp add: chunk_inv_def)
      then have "\<exists>w' c' ns fs. pump_loop api fuel True w1 c1 = Some (w', c', ns, fs) \<and>
        chunk_inv c' \<and> native_inv actual w' c' \<and> at_rest c' \<and>
        (native_takes api actual \<longrightarrow> cut_frames (ch_queue c1) fs (ch_queue c'))"
        using Suc.prems(4) True by (intro Suc.IH inv1) (auto split: if_splits)
      then show ?thesis using True st TurnSent nf by auto
    next
      case TurnIdle
      then have same: "ch_queue c1 = ch_queue c" "ch_pump_again c1 = ch_pump_again c" "at_rest c1"
        and inv1: "chunk_inv c1" "native_inv actual w1 c1"
        using turn(1) by (auto simp: turn_ok_def)
      have "\<exists>w' c' ns fs. pump_loop api fuel False w1 c1 = Some (w', c', ns, fs) \<and>
        chunk_inv c' \<and> native_inv actual w' c' \<and> at_rest c' \<and>
        (native_takes api actual \<longrightarrow> cut_frames (ch_queue c1) fs (ch_queue c'))"
        by (intro Suc.IH inv1) (use Suc.prems(4) True same in auto)
      then show ?thesis using True st TurnIdle same by auto
    next
      case TurnFailed
      then show ?thesis using True st turn by (auto simp: turn_ok_def)
    qed
  qed
qed simp

lemma pump_ok:
  assumes ok: "native_ok api actual" and inv: "chunk_inv c" "native_inv actual w c"
  shows "\<exists>w' c' ns fs. pump api w c = Some (w', c', ns, fs) \<and>
      chunk_inv c' \<and> native_inv actual w' c' \<and> at_rest c' \<and>
      (native_takes api actual \<longrightarrow> cut_frames (ch_queue c) fs (ch_queue c'))"
proof -
  have "\<exists>w' c' ns fs. pump_loop api (pump_fuel c) False w (c\<lparr>ch_pump_again := True\<rparr>) = Some (w', c', ns, fs) \<and>
      chunk_inv c' \<and> native_inv actual w' c' \<and> at_rest c' \<and>
      (native_takes api actual \<longrightarrow> cut_frames (ch_queue (c\<lparr>ch_pump_again := True\<rparr>)) fs (ch_queue c'))"
    by (rule pump_loop_ok [OF ok]) (use inv in \<open>auto simp: chunk_inv_def native_inv_def pump_fuel_def\<close>)
  then show ?thesis by (simp add: pump_def)
qed

section \<open>What the peer receives\<close>

text \<open>The frames the pump handed over, joined at the other end: the simulation of Dc_Wire
  carries over to any run of cuts.\<close>

lemma wire_inv_cuts:
  assumes "wire_inv mx wr" "cut_frames (w_send wr) fs q'"
  shows "wire_inv mx (wr\<lparr>w_send := q', w_recv := snd (recv_all (w_recv wr) fs),
           w_results := w_results wr @ fst (recv_all (w_recv wr) fs)\<rparr>)"
  using assms
proof (induction fs arbitrary: wr)
  case (Cons f fs)
  then obtain q1 where nf: "next_frame (w_send wr) 0 = (Some f, q1)" and cut: "cut_frames q1 fs q'"
    by (auto split: prod.splits option.splits)
  obtain d r where rp: "recv_push (w_recv wr) f = (d, r)" by fastforce
  let ?w1 = "wr\<lparr>w_send := q1, w_recv := r, w_results := w_results wr @ [d]\<rparr>"
  have w1: "wire_pump wr 0 = ?w1" by (simp add: wire_pump_def nf rp)
  have "wire_inv mx ?w1" using wire_inv_pump [OF Cons.prems(1), of 0] by (simp add: w1)
  from Cons.IH [OF this] cut show ?case by (cases "recv_all r fs") (simp add: rp)
qed auto

section \<open>A sender\<close>

text \<open>The sending side of a chunked channel over time: the calls of \<open>send\<close>, low events
  and threshold changes, with the messages accepted and the frames libwebrtc took so far.\<close>

datatype sender_op = SSend bytes bool | SLow | SThreshold nat

record 'n sender =
  sn_world :: 'n
  sn_channel :: channel
  sn_accepted :: "(bytes \<times> bool) list"
  sn_frames :: "bytes list"

fun sender_step :: "'n native_api \<Rightarrow> 'n sender \<Rightarrow> sender_op \<Rightarrow> 'n sender option" where
  "sender_step api s (SSend data binary) =
     (case dc_send api (sn_world s) (sn_channel s) data binary of
        None \<Rightarrow> None
      | Some (r, w, ch, fs) \<Rightarrow> Some
          \<lparr>sn_world = w, sn_channel = ch,
           sn_accepted = sn_accepted s @ (if r = Inr () then [(data, binary)] else []),
           sn_frames = sn_frames s @ fs\<rparr>)"
| "sender_step api s SLow =
     (case dc_on_buffered_amount_low_cb api (sn_world s) (sn_channel s) of
        None \<Rightarrow> None
      | Some (w, ch, fs) \<Rightarrow> Some
          \<lparr>sn_world = w, sn_channel = ch, sn_accepted = sn_accepted s, sn_frames = sn_frames s @ fs\<rparr>)"
| "sender_step api s (SThreshold n) =
     (case dc_set_low_threshold api (sn_world s) (sn_channel s) n of
        (w, ch) \<Rightarrow> Some (s\<lparr>sn_world := w, sn_channel := ch\<rparr>))"

fun sender_run :: "'n native_api \<Rightarrow> 'n sender \<Rightarrow> sender_op list \<Rightarrow> 'n sender option" where
  "sender_run api s [] = Some s"
| "sender_run api s (op # ops) =
     (case sender_step api s op of None \<Rightarrow> None | Some s' \<Rightarrow> sender_run api s' ops)"

definition sender_new :: "'n \<Rightarrow> channel \<Rightarrow> chunked \<Rightarrow> 'n sender" where
  "sender_new w ch c = \<lparr>sn_world = w, sn_channel = put_chunked ch c, sn_accepted = [], sn_frames = []\<rparr>"

definition sender_wire :: "nat \<Rightarrow> 'n sender \<Rightarrow> chunked \<Rightarrow> wire" where
  "sender_wire mx s c =
     \<lparr>w_send = ch_queue c, w_recv = snd (recv_all (recv_new mx) (sn_frames s)),
      w_accepted = sn_accepted s, w_results = fst (recv_all (recv_new mx) (sn_frames s))\<rparr>"

definition sender_ok :: "('n \<Rightarrow> nat) \<Rightarrow> nat \<Rightarrow> 'n sender \<Rightarrow> chunked \<Rightarrow> bool" where
  "sender_ok actual mx s c \<longleftrightarrow>
     the_chunked (sn_channel s) = Some c \<and> chunk_inv c \<and> native_inv actual (sn_world s) c \<and>
     at_rest c \<and> wire_inv mx (sender_wire mx s c) \<and>
     max_message_size (sq_config (ch_queue c)) \<le> mx \<and>
     (\<forall>m \<in> set (sn_accepted s). length (fst m) \<le> mx)"

lemma recv_all_append:
  "recv_all r (fs @ gs) = (fst (recv_all r fs) @ fst (recv_all (snd (recv_all r fs)) gs),
                           snd (recv_all (snd (recv_all r fs)) gs))"
  by (induction fs arbitrary: r) (simp_all split: prod.splits)

lemma the_chunked_put [simp]: "the_chunked (put_chunked ch c) = Some c"
  "the_chunked (notify ch ns) = the_chunked ch"
  by (simp_all add: the_chunked_def put_chunked_def notify_def)

lemma dc_chunked_decided: "the_chunked ch = Some c \<Longrightarrow> dc_chunked api w ch = (w, ch)"
  by (auto simp: the_chunked_def dc_chunked_def split: option.splits)

text \<open>A pump that keeps the sender's invariant: the frames it hands over are the next of the
  queue.\<close>

lemma sender_pump:
  assumes ok: "native_ok api actual" "native_takes api actual"
    and inv: "chunk_inv c" "native_inv actual w c" "wire_inv mx (sender_wire mx s c)"
  obtains w' c' ns fs where "pump api w c = Some (w', c', ns, fs)"
    "chunk_inv c'" "native_inv actual w' c'" "at_rest c'"
    "wire_inv mx (sender_wire mx (s\<lparr>sn_frames := sn_frames s @ fs\<rparr>) c')"
    "sq_config (ch_queue c') = sq_config (ch_queue c)"
proof -
  obtain w' c' ns fs where p: "pump api w c = Some (w', c', ns, fs)" "chunk_inv c'"
    "native_inv actual w' c'" "at_rest c'" and cut: "cut_frames (ch_queue c) fs (ch_queue c')"
    using pump_ok [OF ok(1) inv(1,2)] ok(2) by blast
  have "wire_inv mx (sender_wire mx (s\<lparr>sn_frames := sn_frames s @ fs\<rparr>) c')"
    using wire_inv_cuts [OF inv(3)] cut by (simp add: sender_wire_def recv_all_append)
  moreover have "cut_frames q fs q' \<Longrightarrow> sq_config q' = sq_config q" for q q'
  proof (induction fs arbitrary: q)
    case (Cons f fs)
    then show ?case using next_frame_config [of q 0] by (auto split: prod.splits option.splits)
  qed simp
  ultimately show thesis using that p cut by blast
qed

lemma sender_push:
  assumes "sender_ok actual mx s c" "send_push (ch_queue c) data binary = (Inr u, q)"
    "ch_queue c1 = q" "ch_trust_below c1 = ch_trust_below c" "ch_native_est c1 = ch_native_est c"
    "actual w \<le> actual (sn_world s)"
  shows "chunk_inv c1" "native_inv actual w c1"
    "wire_inv mx (sender_wire mx (s\<lparr>sn_accepted := sn_accepted s @ [(data, binary)]\<rparr>) c1)"
    "sq_config q = sq_config (ch_queue c)" "length data \<le> max_message_size (sq_config (ch_queue c))"
proof -
  have config: "sq_config q = sq_config (ch_queue c)"
    and len: "length data \<le> max_message_size (sq_config (ch_queue c))"
    using assms(2) by (auto simp: send_push_def Let_def split: if_splits)
  show "sq_config q = sq_config (ch_queue c)" by fact
  show "length data \<le> max_message_size (sq_config (ch_queue c))" by fact
  show "chunk_inv c1"
    using assms config queue_inv_push by (fastforce simp: sender_ok_def chunk_inv_def)
  show "native_inv actual w c1"
    using assms config native_inv_less [of actual "sn_world s" c w]
    by (simp add: sender_ok_def native_inv_def)
  have "sender_wire mx (s\<lparr>sn_accepted := sn_accepted s @ [(data, binary)]\<rparr>) c1
      = wire_send (sender_wire mx s c) data binary"
    using assms(2,3) by (simp add: sender_wire_def wire_send_def)
  then show "wire_inv mx (sender_wire mx (s\<lparr>sn_accepted := sn_accepted s @ [(data, binary)]\<rparr>) c1)"
    using assms(1) wire_inv_send by (simp add: sender_ok_def)
qed

lemma sender_ok_send:
  assumes ok: "native_ok api actual" "native_takes api actual" and inv: "sender_ok actual mx s c"
  shows "\<exists>s' c'. sender_step api s (SSend data binary) = Some s' \<and> sender_ok actual mx s' c'"
proof -
  obtain entered w1 where n1: "na_now api (sn_world s) = (entered, w1)" by fastforce
  have dec: "the_chunked (sn_channel s) = Some c" using inv by (simp add: sender_ok_def)
  note chunked = dc_chunked_decided [OF dec, of api w1]
  obtain st w3 where rs: "raw_state api w1 = (st, w3)" by fastforce
  have le3: "actual w3 \<le> actual (sn_world s)"
    using native_now [OF ok(1) n1] native_state [OF ok(1) rs] by simp
  obtain x q where push: "send_push (ch_queue c) data binary = (x, q)" by fastforce
  have refused: "sender_ok actual mx (s\<lparr>sn_world := w3\<rparr>) c"
    using inv native_inv_less [where actual = actual, OF _ le3] by (simp add: sender_ok_def sender_wire_def)
  consider (closed) "st \<noteq> DcOpen" | (full) e where "st = DcOpen" "x = Inl e"
    | (taken) u where "st = DcOpen" "x = Inr u" by (cases x) auto
  then show ?thesis
  proof cases
    case closed
    then have "sender_step api s (SSend data binary) = Some (s\<lparr>sn_world := w3\<rparr>)"
      by (simp add: dc_send_def n1 chunked dec rs)
    with refused show ?thesis by blast
  next
    case full
    then have "sender_step api s (SSend data binary) = Some (s\<lparr>sn_world := w3\<rparr>)"
      by (simp add: dc_send_def n1 chunked dec rs push)
    with refused show ?thesis by blast
  next
    case taken
    obtain t w4 where n4: "na_now api w3 = (t, w4)" by fastforce
    have le4: "actual w4 \<le> actual (sn_world s)" using native_now [OF ok(1) n4] le3 by simp
    define c1 where "c1 = c\<lparr>ch_queue := q, ch_times := ct_queued (ch_times c) t (t - entered),
                             ch_user_low_armed := True\<rparr>"
    let ?s1 = "s\<lparr>sn_accepted := sn_accepted s @ [(data, binary)]\<rparr>"
    have pushed: "chunk_inv c1" "native_inv actual w4 c1" "wire_inv mx (sender_wire mx ?s1 c1)"
      "sq_config q = sq_config (ch_queue c)" "length data \<le> max_message_size (sq_config (ch_queue c))"
      using sender_push [OF inv push [unfolded taken(2)], of c1 w4] le4 by (simp_all add: c1_def)
    obtain w5 c2 ns fs where p: "pump api w4 c1 = Some (w5, c2, ns, fs)"
      and after: "chunk_inv c2" "native_inv actual w5 c2" "at_rest c2"
        "wire_inv mx (sender_wire mx (?s1\<lparr>sn_frames := sn_frames ?s1 @ fs\<rparr>) c2)"
        "sq_config (ch_queue c2) = sq_config (ch_queue c1)"
      by (rule sender_pump [OF ok pushed(1-3)])
    have step: "sender_step api s (SSend data binary) = Some
        \<lparr>sn_world = w5, sn_channel = notify (put_chunked (sn_channel s) c2) ns,
         sn_accepted = sn_accepted s @ [(data, binary)], sn_frames = sn_frames s @ fs\<rparr>"
      using taken p by (simp add: dc_send_def n1 chunked dec rs push n4 c1_def [symmetric])
    have "max_message_size (sq_config (ch_queue c2)) \<le> mx" "length data \<le> mx"
      "\<forall>m \<in> set (sn_accepted s). length (fst m) \<le> mx"
      using inv after(5) pushed(4,5) by (auto simp: sender_ok_def c1_def)
    then have "sender_ok actual mx
        \<lparr>sn_world = w5, sn_channel = notify (put_chunked (sn_channel s) c2) ns,
         sn_accepted = sn_accepted s @ [(data, binary)], sn_frames = sn_frames s @ fs\<rparr> c2"
      using after by (simp add: sender_ok_def sender_wire_def)
    with step show ?thesis by blast
  qed
qed

lemma sender_ok_low:
  assumes ok: "native_ok api actual" "native_takes api actual" and inv: "sender_ok actual mx s c"
  shows "\<exists>s' c'. sender_step api s SLow = Some s' \<and> sender_ok actual mx s' c'"
proof -
  have dec: "the_chunked (sn_channel s) = Some c" using inv by (simp add: sender_ok_def)
  have inv': "chunk_inv c" "native_inv actual (sn_world s) c" "wire_inv mx (sender_wire mx s c)"
    using inv by (simp_all add: sender_ok_def)
  obtain w1 c1 ns fs where p: "pump api (sn_world s) c = Some (w1, c1, ns, fs)"
    and after: "chunk_inv c1" "native_inv actual w1 c1" "at_rest c1"
      "wire_inv mx (sender_wire mx (s\<lparr>sn_frames := sn_frames s @ fs\<rparr>) c1)"
      "sq_config (ch_queue c1) = sq_config (ch_queue c)"
    by (rule sender_pump [OF ok inv'])
  obtain w2 c2 ns2 where f: "maybe_fire_user_low api w1 c1 = (w2, c2, ns2)"
    by (cases "maybe_fire_user_low api w1 c1")
  note fields = fire_low_fields [OF ok(1) f]
  have "sender_ok actual mx
      \<lparr>sn_world = w2, sn_channel = notify (put_chunked (sn_channel s) c2) (ns @ ns2),
       sn_accepted = sn_accepted s, sn_frames = sn_frames s @ fs\<rparr> c2"
    using after inv fields native_inv_less [where actual = actual, OF after(2) fields(10)]
    by (simp add: sender_ok_def sender_wire_def chunk_inv_def native_inv_def at_rest_def)
  moreover have "sender_step api s SLow = Some
      \<lparr>sn_world = w2, sn_channel = notify (put_chunked (sn_channel s) c2) (ns @ ns2),
       sn_accepted = sn_accepted s, sn_frames = sn_frames s @ fs\<rparr>"
    by (simp add: dc_on_buffered_amount_low_cb_def dec p f)
  ultimately show ?thesis by blast
qed

lemma sender_ok_threshold:
  assumes inv: "sender_ok actual mx s c"
  shows "\<exists>s' c'. sender_step api s (SThreshold n) = Some s' \<and> sender_ok actual mx s' c'"
proof -
  have dec: "the_chunked (sn_channel s\<lparr>dc_early_low_threshold := n\<rparr>) = Some c"
    using inv by (simp add: sender_ok_def the_chunked_def)
  have "sender_ok actual mx
      (s\<lparr>sn_channel := put_chunked (sn_channel s\<lparr>dc_early_low_threshold := n\<rparr>)
                        (c\<lparr>ch_user_low_threshold := n\<rparr>)\<rparr>) (c\<lparr>ch_user_low_threshold := n\<rparr>)"
    using inv by (simp add: sender_ok_def sender_wire_def chunk_inv_def native_inv_def at_rest_def)
  then show ?thesis by (simp add: dc_set_low_threshold_def dc_chunked_decided [OF dec] dec) blast
qed

lemma sender_ok_run:
  assumes ok: "native_ok api actual" "native_takes api actual"
  shows "sender_ok actual mx s c \<Longrightarrow> \<exists>s' c'. sender_run api s ops = Some s' \<and> sender_ok actual mx s' c'"
proof (induction ops arbitrary: s c)
  case (Cons op ops)
  have "\<exists>s' c'. sender_step api s op = Some s' \<and> sender_ok actual mx s' c'"
    using sender_ok_send [OF ok Cons.prems] sender_ok_low [OF ok Cons.prems]
      sender_ok_threshold [OF Cons.prems]
    by (cases op) blast+
  then show ?case using Cons.IH by fastforce
qed auto

section \<open>Properties of the sending side\<close>

text \<open>A native channel that never drains, for the witnesses: its state is the buffered amount.\<close>

definition sink_api :: "nat native_api" where
  "sink_api =
     \<lparr>na_state = (\<lambda>w. (1, w)), na_ordered = (\<lambda>w. (1, w)), na_reliable = (\<lambda>w. (1, w)),
      na_buffered_amount = (\<lambda>w. (w, w)), na_send = (\<lambda>w d b. (1, w + length d)),
      na_send_measured = (\<lambda>w f b. if w + length f \<le> NATIVE_SEND_BUFFER_LIMIT
                                then ((1, w + length f, False), w + length f) else ((0, w, False), w)),
      na_close = (\<lambda>w. w), na_set_low_threshold = (\<lambda>w n. w), na_register_observer = (\<lambda>w b. w),
      na_now = (\<lambda>w. (0, w)), na_sleep = (\<lambda>w. 0)\<rparr>"

lemma sink_ok: "native_ok sink_api (\<lambda>w. w)" "native_takes sink_api (\<lambda>w. w)"
  by (auto simp: native_ok_def native_takes_def sink_api_def)

definition sample_nego :: negotiation where
  "sample_nego = \<lparr>ng_settings = Some dc_chunking_default,
     ng_state = ns_default\<lparr>ns_settled := True, ns_remote := Some (params_local 1000)\<rparr>\<rparr>"

lemma sample_nego_decides: "\<exists>c. decide_chunking sample_nego True True 0 = Some c"
proof -
  have "dk_validate dc_chunking_default = Inr ()"
    by (simp add: dk_validate_def dc_chunking_default_def i32_max_def validate_def
        default_send_config_def dc_constants)
  then have "send_new (dk_send_config dc_chunking_default p)
      = Some \<lparr>sq_config = dk_send_config dc_chunking_default p, sq_pending = [], sq_queued = 0\<rparr>" for p
    using accepted_settings_queue by blast
  then show ?thesis by (simp add: decide_chunking_def sample_nego_def ng_remote_def)
qed

text \<open>What a decision leaves.\<close>

lemma decide_Some:
  assumes "decide_chunking neg ordrd rel early = Some c"
  obtains settings remote where "ng_settings neg = Some settings" "ng_remote neg = Some remote"
    "ordrd" "rel" "send_new (dk_send_config settings remote) = Some (ch_queue c)"
    "sq_config (ch_queue c) = dk_send_config settings remote"
    "sq_pending (ch_queue c) = []" "chunk_inv c" "at_rest c" "ch_native_est c = UNKNOWN"
    "ch_reassembler c = recv_new (dk_max_message_size settings)"
    "ch_pending c = []" "ch_pending_bytes c = 0" "ch_pending_limit c = dk_send_buffer_limit settings"
proof -
  obtain settings remote q where d: "ng_settings neg = Some settings" "ng_remote neg = Some remote"
    "ordrd" "rel" and q: "send_new (dk_send_config settings remote) = Some q"
    and c: "ch_queue c = q" "ch_trust_below c = low_water (dk_send_config settings remote)"
      "ch_native_est c = UNKNOWN" "ch_reassembler c = recv_new (dk_max_message_size settings)"
      "ch_pending c = []" "ch_pending_bytes c = 0" "ch_pending_limit c = dk_send_buffer_limit settings"
    using assms by (auto simp: decide_chunking_def split: option.splits if_splits)
  have "sq_config q = dk_send_config settings remote" "sq_pending q = []"
    using q by (auto simp: send_new_def split: sum.splits)
  then show thesis
    using that d q c queue_inv_new [OF q]
    by (simp add: chunk_inv_def at_rest_def send_is_empty_def)
qed

lemma decide_est:
  assumes "decide_chunking neg ordrd rel early = Some c"
  shows "\<not> ch_native_est c \<le> ch_trust_below c"
proof -
  obtain settings remote where "chunk_inv c" "ch_native_est c = UNKNOWN"
    "sq_config (ch_queue c) = dk_send_config settings remote"
    using assms by (rule decide_Some)
  then show ?thesis
    by (simp add: chunk_inv_def dk_send_config_def default_send_config_def dc_constants UNKNOWN_def
        u64_max_def)
qed

lemma sender_ok_new:
  assumes dec: "decide_chunking neg ordrd rel early = Some c" and mx: "ng_remote neg = Some (params_local mx)"
    and w: "actual w = 0"
  shows "sender_ok actual mx (sender_new w ch c) c"
proof -
  obtain settings remote where d: "ng_remote neg = Some remote"
    "sq_config (ch_queue c) = dk_send_config settings remote" "sq_pending (ch_queue c) = []"
    "chunk_inv c" "at_rest c"
    using dec by (rule decide_Some)
  have inv: "queue_inv (ch_queue c)" using d(4) by (simp add: chunk_inv_def)
  have "native_inv actual w c"
    using decide_est [OF dec] inv w by (simp add: native_inv_def queue_inv_def valid_config_def)
  moreover have "sender_wire mx (sender_new w ch c) c = wire_new (ch_queue c) mx"
    by (simp add: sender_wire_def sender_new_def wire_new_def)
  moreover have "max_message_size (sq_config (ch_queue c)) \<le> mx"
    using d(1,2) mx by (auto simp: dk_send_config_def effective_max_message_size_def params_local_def)
  ultimately show ?thesis
    using d wire_inv_new [OF inv d(3), of mx] by (simp add: sender_ok_def sender_new_def)
qed

text \<open>C12: The pump always returns, and never trips libwebrtc's limit. From any state of a chunked
  channel that satisfies the invariant, the loops of \<open>pump\<close> end; libwebrtc's buffer
  stays below its 16 MiB limit, at every send too, so a libwebrtc that takes what fits takes every
  frame and the frames it took are the next of the queue in order; and when the pump stops, the
  queue is empty or the buffer was read at the high-water mark, so a low event is still to
  come.\<close>
theorem pump_returns_within_limit:
  assumes "native_ok api actual" and "chunk_inv c" and "native_inv actual w c"
  shows "\<exists>w' c' ns fs. pump api w c = Some (w', c', ns, fs) \<and>
      chunk_inv c' \<and> native_inv actual w' c' \<and> actual w' < NATIVE_SEND_BUFFER_LIMIT \<and>
      (send_is_empty (ch_queue c') \<or> high_water (sq_config (ch_queue c')) \<le> ch_native_est c') \<and>
      (native_takes api actual \<longrightarrow> cut_frames (ch_queue c) fs (ch_queue c'))"
proof -
  obtain w' c' ns fs where p: "pump api w c = Some (w', c', ns, fs)" "chunk_inv c'"
    "native_inv actual w' c'" "at_rest c'" "native_takes api actual \<longrightarrow> cut_frames (ch_queue c) fs (ch_queue c')"
    using pump_ok [OF assms] by blast
  moreover have "actual w' < NATIVE_SEND_BUFFER_LIMIT"
    using p(2,3) by (auto simp: chunk_inv_def native_inv_def queue_inv_def valid_config_def)
  ultimately show ?thesis by (auto simp: at_rest_def)
qed

lemma pump_returns_within_limit_witness:
  "\<exists>c w' c' ns fs. decide_chunking sample_nego True True 0 = Some c \<and>
     pump sink_api 0 c = Some (w', c', ns, fs) \<and> w' < NATIVE_SEND_BUFFER_LIMIT"
proof -
  obtain c where c: "decide_chunking sample_nego True True 0 = Some c"
    using sample_nego_decides by blast
  have inv: "chunk_inv c" using c by (rule decide_Some)
  then have "native_inv (\<lambda>w. w) 0 c"
    by (simp add: native_inv_def chunk_inv_def queue_inv_def valid_config_def)
  from pump_returns_within_limit [OF sink_ok(1) inv this] c show ?thesis by blast
qed

text \<open>C3: Every message \<open>send\<close> accepts arrives, whole, once and in order. Take a channel
  just decided against a peer that advertised \<open>mx\<close>, an empty native buffer, and any sequence of
  sends, low events and threshold changes. Every call returns; the messages accepted so far are
  some that are out followed by those still queued; and the frames libwebrtc took, fed to the
  peer's reassembler, complete exactly the messages that are out, with their bytes and their type.
  Whenever a message is still queued, the buffer was read at the high-water mark.\<close>
theorem accepted_messages_arrive:
  assumes "native_ok api actual" and "native_takes api actual"
    and "decide_chunking neg ordrd rel early = Some c" and "ng_remote neg = Some (params_local mx)"
    and "actual w = 0"
  shows "\<exists>s c' out. sender_run api (sender_new w ch c) ops = Some s \<and>
      the_chunked (sn_channel s) = Some c' \<and>
      sn_accepted s = out @ map msg_of (sq_pending (ch_queue c')) \<and>
      completed (fst (recv_all (recv_new mx) (sn_frames s))) = map (\<lambda>(d, b). Inr (Message d b)) out \<and>
      (send_is_empty (ch_queue c') \<or> high_water (sq_config (ch_queue c')) \<le> ch_native_est c') \<and>
      actual (sn_world s) < NATIVE_SEND_BUFFER_LIMIT"
proof -
  have "sender_ok actual mx (sender_new w ch c) c"
    using assms(3-5) by (rule sender_ok_new)
  from sender_ok_run [OF assms(1,2) this] obtain s c' where
    run: "sender_run api (sender_new w ch c) ops = Some s" and inv: "sender_ok actual mx s c'" by blast
  obtain out where "sn_accepted s = out @ map msg_of (sq_pending (ch_queue c'))"
    "completed (fst (recv_all (recv_new mx) (sn_frames s))) = map (outcome_of mx) out"
    using inv by (auto simp: sender_ok_def wire_inv_def sender_wire_def)
  moreover from this inv have "map (outcome_of mx) out = map (\<lambda>(d, b). Inr (Message d b)) out"
    by (auto simp: sender_ok_def outcome_of_def outcome_def)
  moreover have "actual (sn_world s) < NATIVE_SEND_BUFFER_LIMIT"
    using inv by (auto simp: sender_ok_def chunk_inv_def native_inv_def queue_inv_def valid_config_def)
  ultimately show ?thesis using run inv by (auto simp: sender_ok_def at_rest_def)
qed

lemma accepted_messages_arrive_witness:
  "\<exists>c s. decide_chunking sample_nego True True 0 = Some c \<and>
     sender_run sink_api (sender_new 0 (dc_new False) c) [SSend [1, 2, 3] True, SLow] = Some s \<and>
     sn_world s < NATIVE_SEND_BUFFER_LIMIT"
proof -
  obtain c where c: "decide_chunking sample_nego True True 0 = Some c"
    using sample_nego_decides by blast
  have "ng_remote sample_nego = Some (params_local 1000)" by (simp add: sample_nego_def ng_remote_def)
  from accepted_messages_arrive [OF sink_ok c this, of 0 "dc_new False" "[SSend [1, 2, 3] True, SLow]"] c
  show ?thesis by auto
qed

end
