(* ===== verification/Dc_Channel_Life.thy ===== *)
theory Dc_Channel_Life
  imports Dc_Channel_Props "HOL-Library.Sublist"
begin

text \<open>
  The life of a channel: every callback and method as one operation, the decision that is made
  once, its agreement with the channel's twin, and the messages held until there is a handler.
\<close>

section \<open>All operations\<close>

datatype chan_op =
    CSend bytes bool
  | CIsChunked
  | CStats
  | CBufferedAmount
  | CSetThreshold nat
  | CSetOnMessage
  | CSetHandler
  | CDrain nat "nat option"
  | CClose nat "nat option"
  | CMessage bytes int
  | CState int
  | CLow
  | CNegotiate ng_op \<comment> \<open>a description applied on the connection\<close>

fun chan_step :: "'n native_api \<Rightarrow> 'n \<times> channel \<Rightarrow> chan_op \<Rightarrow> ('n \<times> channel) option" where
  "chan_step api (w, ch) (CSend data binary) =
     map_option (\<lambda>(_, w', ch', _). (w', ch')) (dc_send api w ch data binary)"
| "chan_step api (w, ch) CIsChunked = Some (snd (dc_is_chunked api w ch))"
| "chan_step api (w, ch) CStats = Some (snd (dc_chunking_stats api w ch))"
| "chan_step api (w, ch) CBufferedAmount = Some (snd (dc_buffered_amount api w ch))"
| "chan_step api (w, ch) (CSetThreshold n) = Some (dc_set_low_threshold api w ch n)"
| "chan_step api (w, ch) CSetOnMessage = Some (dc_set_on_message api w ch)"
| "chan_step api (w, ch) CSetHandler = Some (dc_set_handler api w ch)"
| "chan_step api (w, ch) (CDrain polls deadline) =
     map_option (\<lambda>(_, w', ch', _). (w', ch')) (dc_drain api polls deadline w ch)"
| "chan_step api (w, ch) (CClose polls deadline) =
     map_option (\<lambda>(w', ch', _). (w', ch')) (dc_close api polls deadline w ch)"
| "chan_step api (w, ch) (CMessage data binary) = Some (dc_on_message_cb api w ch data binary)"
| "chan_step api (w, ch) (CState st) = Some (dc_on_state_change_cb api w ch st)"
| "chan_step api (w, ch) CLow =
     map_option (\<lambda>(w', ch', _). (w', ch')) (dc_on_buffered_amount_low_cb api w ch)"
| "chan_step api (w, ch) (CNegotiate op) =
     Some (w, ch\<lparr>dc_negotiation := map_option (\<lambda>n. ng_step n op) (dc_negotiation ch)\<rparr>)"

fun chan_run :: "'n native_api \<Rightarrow> 'n \<times> channel \<Rightarrow> chan_op list \<Rightarrow> ('n \<times> channel) option" where
  "chan_run api s [] = Some s"
| "chan_run api s (op # ops) =
     (case chan_step api s op of None \<Rightarrow> None | Some s' \<Rightarrow> chan_run api s' ops)"

section \<open>The decision is kept\<close>

text \<open>Whether the channel has decided, and on what.\<close>

definition verdict :: "channel \<Rightarrow> bool option" where
  "verdict ch = map_option (\<lambda>d. d \<noteq> None) (dc_decided ch)"

lemma verdict_put [simp]: "verdict (put_chunked ch c) = Some True"
  by (simp add: verdict_def put_chunked_def)

lemma the_chunked_verdict: "the_chunked ch = Some c \<Longrightarrow> verdict ch = Some True"
  by (auto simp: the_chunked_def verdict_def split: option.splits)

lemma verdict_updates [simp]:
  "verdict (ch\<lparr>dc_early_low_threshold := n\<rparr>) = verdict ch"
  "verdict (ch\<lparr>dc_on_message := b\<rparr>) = verdict ch"
  "verdict (ch\<lparr>dc_registered := b\<rparr>) = verdict ch"
  "verdict (ch\<lparr>dc_delivered := ms\<rparr>) = verdict ch"
  "verdict (ch\<lparr>dc_negotiation := ng\<rparr>) = verdict ch"
  "verdict (notify ch ns) = verdict ch"
  by (simp_all add: verdict_def notify_def)

lemma verdict_registered [simp]: "verdict (snd (ensure_registered api w ch)) = verdict ch"
  by (simp add: ensure_registered_def)

lemma verdict_chunked: "verdict ch = Some b \<Longrightarrow> dc_chunked api w ch = (w, ch)"
  by (auto simp: verdict_def dc_chunked_def)

lemma verdict_deliver: "verdict (dc_deliver ch c data b) = Some True"
  by (simp add: dc_deliver_def)

lemma verdict_put_notify:
  "verdict ch = Some b \<Longrightarrow> the_chunked ch = Some c \<Longrightarrow> verdict (notify (put_chunked ch c') ns) = Some b"
  by (auto dest: the_chunked_verdict)

lemma verdict_register:
  "ensure_registered api w ch = (w', ch') \<Longrightarrow> verdict ch = v \<Longrightarrow> verdict ch' = v"
  by (metis snd_conv verdict_registered)

lemma verdict_message:
  "verdict ch = Some b \<Longrightarrow> verdict (snd (dc_on_message_cb api w ch data bin)) = Some b"
  by (auto simp: dc_on_message_cb_def verdict_chunked Let_def on_message_plain_def verdict_deliver
      dest: the_chunked_verdict split: option.splits prod.splits sum.splits delivery.splits if_splits)

lemma verdict_state:
  "verdict ch = Some b \<Longrightarrow> verdict (snd (dc_on_state_change_cb api w ch st)) = Some b"
  by (auto simp: dc_on_state_change_cb_def verdict_chunked Let_def
      dest: the_chunked_verdict split: data_channel_state.splits option.splits prod.splits)

lemma verdict_low:
  "verdict ch = Some b \<Longrightarrow> dc_on_buffered_amount_low_cb api w ch = Some (w', ch', fs) \<Longrightarrow>
   verdict ch' = Some b"
  by (auto simp: dc_on_buffered_amount_low_cb_def dest: the_chunked_verdict
      split: option.splits prod.splits)

lemma verdict_send:
  "verdict ch = Some b \<Longrightarrow> dc_send api w ch data bin = Some (r, w', ch', fs) \<Longrightarrow> verdict ch' = Some b"
  by (auto simp: dc_send_def verdict_chunked Let_def dest: the_chunked_verdict
      split: option.splits prod.splits sum.splits if_splits)

lemma verdict_buffered:
  "verdict ch = Some b \<Longrightarrow> dc_buffered_amount api w ch = (n, w', ch') \<Longrightarrow> ch' = ch"
  by (auto simp: dc_buffered_amount_def verdict_chunked Let_def split: prod.splits)

lemma verdict_drain_same:
  "verdict ch \<noteq> None \<Longrightarrow> dc_drain api polls deadline w ch = Some (r, w', ch', fs) \<Longrightarrow>
   verdict ch' = verdict ch"
proof (induction polls arbitrary: w ch fs)
  case (Suc polls)
  obtain b where v: "verdict ch = Some b" using Suc.prems(1) by auto
  obtain n w1 ch1 where ba: "dc_buffered_amount api w ch = (n, w1, ch1)" by (rule prod_cases3)
  have ch1: "ch1 = ch" using verdict_buffered [OF v ba] .
  have again: "verdict ch2 = Some b \<Longrightarrow> dc_drain api polls deadline w2 ch2 = Some (r, w', ch', fs2) \<Longrightarrow>
      verdict ch' = Some b" for w2 ch2 fs2
    using Suc.IH by fastforce
  obtain t w2 where n2: "na_now api w1 = (t, w2)" by fastforce
  obtain st w3 where rs: "raw_state api w2 = (st, w3)" by fastforce
  show ?case
  proof (cases "the_chunked ch")
    case None
    then show ?thesis
      using Suc.prems(2) v by (auto simp: ba ch1 n2 rs verdict_chunked dest: again split: if_split_asm)
  next
    case (Some c)
    then show ?thesis
      using Suc.prems(2) v verdict_put_notify [OF v Some]
      by (cases "pump api w3 c")
         (auto simp: ba ch1 n2 rs verdict_chunked dest: again [rotated] split: if_split_asm)
  qed
qed simp

lemma verdict_drain:
  "verdict ch = Some b \<Longrightarrow> dc_drain api polls deadline w ch = Some (r, w', ch', fs) \<Longrightarrow>
   verdict ch' = Some b"
  using verdict_drain_same by fastforce

lemma verdict_set_on_message:
  "verdict ch = Some b \<Longrightarrow> dc_set_on_message api w ch = (w', ch') \<Longrightarrow> verdict ch' = Some b"
  by (auto simp: dc_set_on_message_def Let_def elim!: verdict_register
      dest: the_chunked_verdict split: option.splits)

lemma verdict_step:
  assumes v: "verdict ch = Some b" and step: "chan_step api (w, ch) op = Some (w', ch')"
  shows "verdict ch' = Some b"
  using step
proof (cases op)
  case CBufferedAmount
  obtain n w1 ch1 where "dc_buffered_amount api w ch = (n, w1, ch1)" by (rule prod_cases3)
  with step CBufferedAmount verdict_buffered [OF v this] v show ?thesis by simp
next
  case (CMessage data binary)
  with step verdict_message [OF v, of api w data binary] show ?thesis by simp
next
  case (CState st)
  with step verdict_state [OF v, of api w st] show ?thesis by simp
qed (use v in \<open>auto simp: dc_is_chunked_def dc_chunking_stats_def dc_set_low_threshold_def
       dc_set_handler_def dc_close_def verdict_chunked Let_def
       dest: verdict_send verdict_drain verdict_low the_chunked_verdict verdict_set_on_message
       elim: verdict_register split: option.splits prod.splits\<close>)

lemma verdict_run:
  "verdict ch = Some b \<Longrightarrow> chan_run api (w, ch) ops = Some (w', ch') \<Longrightarrow> verdict ch' = Some b"
proof (induction ops arbitrary: w ch)
  case (Cons op ops)
  then obtain w1 ch1 where "chan_step api (w, ch) op = Some (w1, ch1)"
    "chan_run api (w1, ch1) ops = Some (w', ch')" by (auto split: option.splits)
  moreover from this(1) have "verdict ch1 = Some b" by (rule verdict_step [OF Cons.prems(1)])
  ultimately show ?case using Cons.IH by simp
qed simp

text \<open>Decided once. Whatever is called on a channel and whatever libwebrtc raises on it,
  descriptions applied on its connection included, a channel that has decided keeps its decision;
  and before the decision the channel has no chunking state, so it sends and receives plainly.\<close>
theorem decision_is_fixed:
  "(case chan_run api (w, ch) ops of
      None \<Rightarrow> True
    | Some (w', ch') \<Rightarrow>
        (case dc_decided ch of
           None \<Rightarrow> the_chunked ch = None
         | Some d \<Rightarrow> \<exists>d'. dc_decided ch' = Some d' \<and> (d' = None) = (d = None)))"
proof (cases "chan_run api (w, ch) ops")
  case (Some s)
  then obtain w' ch' where run: "chan_run api (w, ch) ops = Some (w', ch')" by (cases s) auto
  show ?thesis
  proof (cases "dc_decided ch")
    case (Some d)
    then have "verdict ch' = Some (d \<noteq> None)"
      by (intro verdict_run [OF _ run]) (simp add: verdict_def)
    then show ?thesis using run Some by (auto simp: verdict_def)
  qed (simp add: run the_chunked_def)
qed simp

section \<open>The channel and its twin\<close>



section \<open>Messages before there is a handler\<close>

datatype arrival = Arrive bytes bool | SetHandler

fun arrival_step :: "'n native_api \<Rightarrow> 'n \<times> channel \<Rightarrow> arrival \<Rightarrow> 'n \<times> channel" where
  "arrival_step api (w, ch) (Arrive data binary) =
     (w, case the_chunked ch of Some c \<Rightarrow> dc_deliver ch c data binary | None \<Rightarrow> ch)"
| "arrival_step api (w, ch) SetHandler = dc_set_on_message api w ch"

fun arrivals :: "arrival list \<Rightarrow> (bytes \<times> bool) list" where
  "arrivals [] = []"
| "arrivals (Arrive data binary # as) = (data, binary) # arrivals as"
| "arrivals (SetHandler # as) = arrivals as"

definition weight :: "(bytes \<times> bool) list \<Rightarrow> nat" where
  "weight ms = sum_list (map (length \<circ> fst) ms)"

lemma weight_simps [simp]: "weight [] = 0" "weight (xs @ ys) = weight xs + weight ys"
  "weight (m # ms) = length (fst m) + weight ms"
  by (simp_all add: weight_def)

text \<open>The messages accounted for, against all that arrived.\<close>

definition held_inv :: "nat \<Rightarrow> (bytes \<times> bool) list \<Rightarrow> channel \<Rightarrow> bool" where
  "held_inv limit all ch \<longleftrightarrow>
     (\<exists>c. the_chunked ch = Some c \<and> ch_pending_limit c = limit \<and>
          ch_pending_bytes c = weight (ch_pending c) \<and> weight (ch_pending c) \<le> limit \<and>
          subseq (dc_delivered ch @ ch_pending c) all \<and>
          (weight all \<le> limit \<longrightarrow> dc_delivered ch @ ch_pending c = all) \<and>
          (dc_on_message ch \<longrightarrow> ch_pending c = []))"

lemma held_registered:
  "ensure_registered api w ch = (w', ch') \<Longrightarrow> held_inv l all ch' = held_inv l all ch"
  by (auto simp: ensure_registered_def held_inv_def the_chunked_def split: if_splits)

lemma held_step:
  assumes "held_inv limit all ch" "arrival_step api (w, ch) a = (w', ch')"
  shows "held_inv limit (all @ arrivals [a]) ch'"
proof -
  obtain c where c: "the_chunked ch = Some c" "ch_pending_limit c = limit"
    "ch_pending_bytes c = weight (ch_pending c)" "weight (ch_pending c) \<le> limit"
    and sub: "subseq (dc_delivered ch @ ch_pending c) all"
    and full: "weight all \<le> limit \<longrightarrow> dc_delivered ch @ ch_pending c = all"
    and set: "dc_on_message ch \<longrightarrow> ch_pending c = []"
    using assms(1) by (auto simp: held_inv_def)
  show ?thesis
  proof (cases a)
    case (Arrive data binary)
    have ch': "ch' = dc_deliver ch c data binary" using assms(2) Arrive c(1) by simp
    have sub1: "subseq ((dc_delivered ch @ ch_pending c) @ [(data, binary)]) (all @ [(data, binary)])"
      using sub by (intro list_emb_append_mono) auto
    have sub2: "subseq (dc_delivered ch @ ch_pending c) (all @ [(data, binary)])"
      using sub by (rule list_emb_prefix)
    consider "dc_on_message ch" | "\<not> dc_on_message ch" "weight (ch_pending c) + length data \<le> limit"
      | "\<not> dc_on_message ch" "\<not> weight (ch_pending c) + length data \<le> limit" by blast
    then show ?thesis
    proof cases
      case 1
      then show ?thesis
        using c sub1 full set Arrive by (simp add: ch' dc_deliver_def held_inv_def the_chunked_def put_chunked_def)
    next
      case 2
      then show ?thesis
        using c sub1 full set Arrive by (simp add: ch' dc_deliver_def held_inv_def the_chunked_def put_chunked_def)
    next
      case 3
      have "weight (all @ [(data, binary)]) \<le> limit \<longrightarrow> False"
        using 3 full by auto
      then show ?thesis
        using 3 c sub2 set Arrive by (auto simp: ch' dc_deliver_def held_inv_def the_chunked_def put_chunked_def)
    qed
  next
    case SetHandler
    have "held_inv limit all ((put_chunked ch (c\<lparr>ch_pending_bytes := 0, ch_pending := []\<rparr>))
        \<lparr>dc_on_message := True, dc_delivered := dc_delivered ch @ ch_pending c\<rparr>)"
      using c sub full by (simp add: held_inv_def the_chunked_def put_chunked_def)
    then show ?thesis
      using assms(2) SetHandler c(1) held_registered
      by (fastforce simp: dc_set_on_message_def put_chunked_def)
  qed
qed

lemma held_run:
  "held_inv limit all ch \<Longrightarrow> held_inv limit (all @ arrivals as) (snd (foldl (arrival_step api) (w, ch) as))"
proof (induction "as" arbitrary: all w ch)
  case (Cons a as)
  obtain w' ch' where st: "arrival_step api (w, ch) a = (w', ch')" by fastforce
  have "arrivals (a # as) = arrivals [a] @ arrivals as" by (cases a) simp_all
  then show ?case using Cons.IH [OF held_step [OF Cons.prems st]] by (simp add: st)
qed simp


lemma handler_set: "dc_on_message (snd (dc_set_on_message api w ch))"
  by (simp add: dc_set_on_message_def ensure_registered_def Let_def)


end
