(* ===== verification/Dc_Pump.thy ===== *)
theory Dc_Pump
  imports Prelude
begin

text \<open>
  Several threads in \<open>ChannelCore::pump\<close> (\<open>crates/reactor-webrtc/src/peer_connection.rs\<close>)
  at once: the protocol of the \<open>pump_again\<close> flag and the \<open>pump\<close> lock, which every caller only
  tries to take. The accesses are sequentially consistent, so a run is an interleaving of their
  atomic steps. A thread is its control point; a pass of the inner loop is one step, what it
  does to the queue being the theory Dc_Channel's.
\<close>

datatype pc =
    Outside
  | Asked \<comment> \<open>set the flag, about to \<open>try_lock\<close>\<close>
  | Locked \<comment> \<open>holds the lock, about to swap the flag\<close>
  | Passing \<comment> \<open>cleared the flag, in the inner loop\<close>
  | Unlocking \<comment> \<open>found the flag clear, about to drop the lock\<close>
  | Rechecking \<comment> \<open>dropped the lock, about to read the flag\<close>

record pump_state =
  ps_again :: bool
  ps_lock :: "nat option"
  ps_pc :: "nat \<Rightarrow> pc"
  ps_asked :: nat \<comment> \<open>requests made so far\<close>
  ps_served :: nat \<comment> \<open>requests made before the last pass began\<close>
  ps_failed :: bool \<comment> \<open>libwebrtc refused a frame: the queue was cleared\<close>

definition ps_new :: pump_state where
  "ps_new = \<lparr>ps_again = False, ps_lock = None, ps_pc = (\<lambda>_. Outside), ps_asked = 0, ps_served = 0,
             ps_failed = False\<rparr>"

inductive pump_step :: "pump_state \<Rightarrow> pump_state \<Rightarrow> bool" where
  ask:
    "ps_pc s t = Outside \<Longrightarrow>
     pump_step s (s\<lparr>ps_again := True, ps_asked := ps_asked s + 1, ps_pc := (ps_pc s)(t := Asked)\<rparr>)"
| lock:
    "ps_pc s t = Asked \<Longrightarrow> ps_lock s = None \<Longrightarrow>
     pump_step s (s\<lparr>ps_lock := Some t, ps_pc := (ps_pc s)(t := Locked)\<rparr>)"
| busy:
    "ps_pc s t = Asked \<Longrightarrow> ps_lock s = Some u \<Longrightarrow> pump_step s (s\<lparr>ps_pc := (ps_pc s)(t := Outside)\<rparr>)"
| take:
    "ps_pc s t = Locked \<Longrightarrow> ps_again s \<Longrightarrow>
     pump_step s (s\<lparr>ps_again := False, ps_served := ps_asked s, ps_pc := (ps_pc s)(t := Passing)\<rparr>)"
| pass:
    "ps_pc s t = Passing \<Longrightarrow> pump_step s (s\<lparr>ps_pc := (ps_pc s)(t := Locked)\<rparr>)"
| fail:
    "ps_pc s t = Passing \<Longrightarrow>
     pump_step s (s\<lparr>ps_lock := None, ps_failed := True, ps_pc := (ps_pc s)(t := Outside)\<rparr>)"
| idle:
    "ps_pc s t = Locked \<Longrightarrow> \<not> ps_again s \<Longrightarrow> pump_step s (s\<lparr>ps_pc := (ps_pc s)(t := Unlocking)\<rparr>)"
| unlock:
    "ps_pc s t = Unlocking \<Longrightarrow>
     pump_step s (s\<lparr>ps_lock := None, ps_pc := (ps_pc s)(t := Rechecking)\<rparr>)"
| again:
    "ps_pc s t = Rechecking \<Longrightarrow> ps_again s \<Longrightarrow>
     pump_step s (s\<lparr>ps_again := True, ps_pc := (ps_pc s)(t := Asked)\<rparr>)"
| leave:
    "ps_pc s t = Rechecking \<Longrightarrow> \<not> ps_again s \<Longrightarrow>
     pump_step s (s\<lparr>ps_pc := (ps_pc s)(t := Outside)\<rparr>)"

inductive pump_reachable :: "pump_state \<Rightarrow> bool" where
  new: "pump_reachable ps_new"
| step: "pump_reachable s \<Longrightarrow> pump_step s s' \<Longrightarrow> pump_reachable s'"

definition owns :: "pc \<Rightarrow> bool" where
  "owns p \<longleftrightarrow> p = Locked \<or> p = Passing \<or> p = Unlocking"

lemma owns_simps [simp]: "\<not> owns Outside" "\<not> owns Asked" "owns Locked" "owns Passing" "owns Unlocking"
  "\<not> owns Rechecking"
  by (simp_all add: owns_def)

text \<open>The lock is held exactly by the thread between taking and dropping it; a request not yet
  taken by a pass has its flag set; and a set flag has a thread that will look at it.\<close>

definition pump_inv :: "pump_state \<Rightarrow> bool" where
  "pump_inv s \<longleftrightarrow>
     (\<forall>t. owns (ps_pc s t) \<longleftrightarrow> ps_lock s = Some t) \<and>
     ps_served s \<le> ps_asked s \<and>
     (\<not> ps_again s \<longrightarrow> ps_served s = ps_asked s) \<and>
     (ps_again s \<and> \<not> ps_failed s \<longrightarrow> (\<exists>t. ps_pc s t \<noteq> Outside))"

lemma pump_inv_lock:
  assumes "pump_inv s" "ps_lock s = Some u"
  shows "ps_pc s u \<noteq> Outside \<and> ps_pc s u \<noteq> Asked \<and> ps_pc s u \<noteq> Rechecking"
  using assms by (metis pump_inv_def owns_simps(1,2,6))

lemma pump_inv_owner:
  assumes "pump_inv s" "ps_pc s t = p" "owns p"
  shows "ps_lock s = Some t"
  using assms by (auto simp: pump_inv_def)

lemma pump_inv_step:
  assumes step: "pump_step s s'" and inv: "pump_inv s"
  shows "pump_inv s'"
  using step
proof cases
  case (busy t u)
  then have "ps_pc s u \<noteq> Outside" "u \<noteq> t" using pump_inv_lock [OF inv, of u] by auto
  then show ?thesis using busy inv by (auto simp: pump_inv_def)
next
  case (fail t)
  then show ?thesis using inv pump_inv_owner [OF inv fail(2)] by (auto simp: pump_inv_def)
next
  case (unlock t)
  then show ?thesis using inv pump_inv_owner [OF inv unlock(2)] by (auto simp: pump_inv_def)
next
  case (take t)
  then show ?thesis using inv pump_inv_owner [OF inv take(2)] by (auto simp: pump_inv_def)
next
  case (pass t)
  then show ?thesis using inv pump_inv_owner [OF inv pass(2)] by (auto simp: pump_inv_def)
next
  case (idle t)
  then show ?thesis using inv pump_inv_owner [OF inv idle(2)] by (auto simp: pump_inv_def)
qed (use inv pump_inv_lock [OF inv] in \<open>auto simp: pump_inv_def\<close>)

lemma pump_inv_reachable: "pump_reachable s \<Longrightarrow> pump_inv s"
  by (induction rule: pump_reachable.induct)
     (auto intro: pump_inv_step, simp add: pump_inv_def ps_new_def)

text \<open>C11: No request to pump is lost, and one thread pumps at a time. In every reachable
  interleaving of any number of threads: at most one thread holds the lock, so the frames of a
  message stay contiguous; a request made since the last pass began has left the flag set; and
  when every thread is out of \<open>pump\<close> again, a pass began after the last request, unless
  libwebrtc refused a frame. A thread that finds the lock busy may leave: whoever holds it still
  reads the flag.\<close>
theorem no_request_is_lost:
  assumes "pump_reachable s"
  shows "(\<forall>t u. owns (ps_pc s t) \<and> owns (ps_pc s u) \<longrightarrow> t = u)
       \<and> (ps_served s < ps_asked s \<longrightarrow> ps_again s)
       \<and> ((\<forall>t. ps_pc s t = Outside) \<and> \<not> ps_failed s \<longrightarrow> ps_served s = ps_asked s)
       \<and> (\<forall>t u. ps_lock s = Some u \<longrightarrow> ps_pc s u = Locked \<or> ps_pc s u = Passing \<or> ps_pc s u = Unlocking)"
proof -
  have inv: "pump_inv s" by (rule pump_inv_reachable [OF assms])
  then have "\<forall>t u. owns (ps_pc s t) \<and> owns (ps_pc s u) \<longrightarrow> t = u"
    by (metis option.inject pump_inv_def)
  moreover have "\<forall>u. ps_lock s = Some u \<longrightarrow> ps_pc s u = Locked \<or> ps_pc s u = Passing \<or> ps_pc s u = Unlocking"
    using inv by (simp add: pump_inv_def owns_def)
  ultimately show ?thesis using inv by (auto simp: pump_inv_def)
qed

text \<open>Two threads ask; the second finds the lock busy and leaves; the first serves both.\<close>

lemma no_request_is_lost_witness:
  "\<exists>s :: pump_state. (\<forall>t. ps_pc s t = Outside) \<and> ps_asked s = 2 \<and> ps_served s = ps_asked s"
proof -
  define at where "at = (\<lambda>again lk pa pb asked served. \<lparr>ps_again = again, ps_lock = lk,
    ps_pc = (\<lambda>t. if t = 0 then pa else if t = Suc 0 then pb else Outside), ps_asked = asked,
    ps_served = served, ps_failed = False\<rparr>)"
  have upd: "(\<lambda>t. if t = 0 then pa else if t = Suc 0 then pb else Outside)(0 := q)
      = (\<lambda>t. if t = 0 then q else if t = Suc 0 then pb else Outside)"
    "(\<lambda>t. if t = 0 then pa else if t = Suc 0 then pb else Outside)(Suc 0 := q)
      = (\<lambda>t. if t = 0 then pa else if t = Suc 0 then q else Outside)" for pa pb q by auto
  have "pump_reachable (at False None Outside Outside 0 0)"
    using pump_reachable.new by (simp add: at_def ps_new_def if_distrib)
  then have "pump_reachable (at True None Asked Outside 1 0)"
    by (rule pump_reachable.step) (use pump_step.ask [of "at False None Outside Outside 0 0" 0] in \<open>simp add: at_def upd\<close>)
  then have "pump_reachable (at True (Some 0) Locked Outside 1 0)"
    by (rule pump_reachable.step) (use pump_step.lock [of "at True None Asked Outside 1 0" 0] in \<open>simp add: at_def upd\<close>)
  then have "pump_reachable (at True (Some 0) Locked Asked 2 0)"
    by (rule pump_reachable.step)
       (use pump_step.ask [of "at True (Some 0) Locked Outside 1 0" "Suc 0"] in \<open>simp add: at_def upd numeral_2_eq_2\<close>)
  then have "pump_reachable (at True (Some 0) Locked Outside 2 0)"
    by (rule pump_reachable.step)
       (use pump_step.busy [of "at True (Some 0) Locked Asked 2 0" "Suc 0" 0] in \<open>simp add: at_def upd\<close>)
  then have "pump_reachable (at False (Some 0) Passing Outside 2 2)"
    by (rule pump_reachable.step) (use pump_step.take [of "at True (Some 0) Locked Outside 2 0" 0] in \<open>simp add: at_def upd\<close>)
  then have "pump_reachable (at False (Some 0) Locked Outside 2 2)"
    by (rule pump_reachable.step) (use pump_step.pass [of "at False (Some 0) Passing Outside 2 2" 0] in \<open>simp add: at_def upd\<close>)
  then have "pump_reachable (at False (Some 0) Unlocking Outside 2 2)"
    by (rule pump_reachable.step) (use pump_step.idle [of "at False (Some 0) Locked Outside 2 2" 0] in \<open>simp add: at_def upd\<close>)
  then have "pump_reachable (at False None Rechecking Outside 2 2)"
    by (rule pump_reachable.step) (use pump_step.unlock [of "at False (Some 0) Unlocking Outside 2 2" 0] in \<open>simp add: at_def upd\<close>)
  then have r: "pump_reachable (at False None Outside Outside 2 2)"
    by (rule pump_reachable.step) (use pump_step.leave [of "at False None Rechecking Outside 2 2" 0] in \<open>simp add: at_def upd\<close>)
  have out: "\<forall>t. ps_pc (at False None Outside Outside 2 2) t = Outside"
    and two: "ps_asked (at False None Outside Outside 2 2) = 2" "\<not> ps_failed (at False None Outside Outside 2 2)"
    by (simp_all add: at_def)
  have "ps_served (at False None Outside Outside 2 2) = ps_asked (at False None Outside Outside 2 2)"
    using no_request_is_lost [OF r] out two by simp
  with out two show ?thesis by (intro exI [of _ "at False None Outside Outside 2 2"]) simp
qed

end
