(* ===== verification/Dc_Notices.thy ===== *)
theory Dc_Notices
  imports Dc_Channel
begin

text \<open>
  How a channel's notices reach the caller's handlers (\<open>ChannelCore::notify\<close>,
  \<open>run_message_handler\<close> and \<open>deliver_notices\<close> in
  \<open>crates/reactor-webrtc/src/peer_connection.rs\<close>). A handler may call methods of its channel,
  and libwebrtc may raise further notices inside those calls: they come back through
  \<open>notify\<close> while the handler still runs. The handlers are the caller's, so the model takes two
  arguments: which handlers are set, and the notices each raises while it runs. The recursion
  may not end for arbitrary handlers, so it takes fuel, and None says it did not suffice.
\<close>

datatype handler =
    OnState data_channel_state
  | OnOpen
  | OnClose
  | OnLow
  | OnMessage bytes bool

datatype trace_event = Enter handler | Leave handler

record notices =
  nt_queue :: "notice list"
  nt_delivering :: bool
  nt_trace :: "trace_event list" \<comment> \<open>what ran, in order\<close>

definition nt_default :: notices where
  "nt_default = \<lparr>nt_queue = [], nt_delivering = False, nt_trace = []\<rparr>"

text \<open>The handlers \<open>deliver_notices\<close> looks up for a notice, in the order it runs them.\<close>

definition handlers_of :: "(handler \<Rightarrow> bool) \<Rightarrow> notice \<Rightarrow> handler list" where
  "handlers_of is_set x =
     filter is_set
       (case x of
          StateNotice st \<Rightarrow>
            OnState st # (case st of DcOpen \<Rightarrow> [OnOpen] | DcClosed \<Rightarrow> [OnClose] | _ \<Rightarrow> [])
        | BufferedAmountLow \<Rightarrow> [OnLow])"

fun notify_n :: "(handler \<Rightarrow> bool) \<Rightarrow> (handler \<Rightarrow> notice list) \<Rightarrow> nat \<Rightarrow> notice \<Rightarrow> notices \<Rightarrow> notices option"
and deliver_n :: "(handler \<Rightarrow> bool) \<Rightarrow> (handler \<Rightarrow> notice list) \<Rightarrow> nat \<Rightarrow> notices \<Rightarrow> notices option"
and run_handlers :: "(handler \<Rightarrow> bool) \<Rightarrow> (handler \<Rightarrow> notice list) \<Rightarrow> nat \<Rightarrow> handler list \<Rightarrow> notices \<Rightarrow> notices option"
and raise_all :: "(handler \<Rightarrow> bool) \<Rightarrow> (handler \<Rightarrow> notice list) \<Rightarrow> nat \<Rightarrow> notice list \<Rightarrow> notices \<Rightarrow> notices option"
where
  "notify_n is_set raises 0 x s = None"
| "notify_n is_set raises (Suc n) x s =
     (let s1 = s\<lparr>nt_queue := nt_queue s @ [x]\<rparr> in
      if nt_delivering s1 then Some s1
      else deliver_n is_set raises n (s1\<lparr>nt_delivering := True\<rparr>))"
| "deliver_n is_set raises 0 s = None"
| "deliver_n is_set raises (Suc n) s =
     (case nt_queue s of
        [] \<Rightarrow> Some (s\<lparr>nt_delivering := False\<rparr>)
      | x # xs \<Rightarrow>
          (case run_handlers is_set raises n (handlers_of is_set x) (s\<lparr>nt_queue := xs\<rparr>) of
             None \<Rightarrow> None
           | Some s' \<Rightarrow> deliver_n is_set raises n s'))"
| "run_handlers is_set raises n [] s = Some s"
| "run_handlers is_set raises 0 (h # hs) s = None"
| "run_handlers is_set raises (Suc n) (h # hs) s =
     (case raise_all is_set raises n (raises h) (s\<lparr>nt_trace := nt_trace s @ [Enter h]\<rparr>) of
        None \<Rightarrow> None
      | Some s' \<Rightarrow> run_handlers is_set raises n hs (s'\<lparr>nt_trace := nt_trace s' @ [Leave h]\<rparr>))"
| "raise_all is_set raises n [] s = Some s"
| "raise_all is_set raises 0 (x # xs) s = None"
| "raise_all is_set raises (Suc n) (x # xs) s =
     (case notify_n is_set raises n x s of
        None \<Rightarrow> None
      | Some s' \<Rightarrow> raise_all is_set raises n xs s')"

text \<open>An \<open>on_message\<close> call from the native callback.\<close>

definition run_message_handler ::
  "(handler \<Rightarrow> bool) \<Rightarrow> (handler \<Rightarrow> notice list) \<Rightarrow> nat \<Rightarrow> bytes \<Rightarrow> bool \<Rightarrow> notices \<Rightarrow> notices option" where
  "run_message_handler is_set raises n data binary s =
     (if nt_delivering s then run_handlers is_set raises n [OnMessage data binary] s
      else case run_handlers is_set raises n [OnMessage data binary] (s\<lparr>nt_delivering := True\<rparr>) of
             None \<Rightarrow> None
           | Some s' \<Rightarrow> deliver_n is_set raises n s')"

section \<open>What a delivery does\<close>

definition raised :: "(handler \<Rightarrow> bool) \<Rightarrow> (handler \<Rightarrow> notice list) \<Rightarrow> notice \<Rightarrow> notice list" where
  "raised is_set raises x = concat (map raises (handlers_of is_set x))"

definition block :: "handler list \<Rightarrow> trace_event list" where
  "block hs = concat (map (\<lambda>h. [Enter h, Leave h]) hs)"

definition blocks :: "(handler \<Rightarrow> bool) \<Rightarrow> notice list \<Rightarrow> trace_event list" where
  "blocks is_set xs = concat (map (\<lambda>x. block (handlers_of is_set x)) xs)"

lemma block_simps [simp]: "block [] = []" "block (h # hs) = Enter h # Leave h # block hs"
  "blocks is_set [] = []" "blocks is_set (x # xs) = block (handlers_of is_set x) @ blocks is_set xs"
  by (simp_all add: block_def blocks_def)

text \<open>While a delivery is under way, a notice only joins the queue.\<close>

definition busy :: "notice list \<Rightarrow> trace_event list \<Rightarrow> notices" where
  "busy q t = \<lparr>nt_queue = q, nt_delivering = True, nt_trace = t\<rparr>"

definition quiet :: "trace_event list \<Rightarrow> notices" where
  "quiet t = \<lparr>nt_queue = [], nt_delivering = False, nt_trace = t\<rparr>"

lemma busy_simps [simp]: "nt_queue (busy q t) = q" "nt_delivering (busy q t)" "nt_trace (busy q t) = t"
  "busy q t\<lparr>nt_queue := q'\<rparr> = busy q' t" "busy q t\<lparr>nt_trace := t'\<rparr> = busy q t'"
  "busy [] t\<lparr>nt_delivering := False\<rparr> = quiet t"
  by (simp_all add: busy_def quiet_def)

lemma raise_all_busy:
  "\<exists>k. \<forall>n \<ge> k. raise_all is_set raises n xs (busy q t) = Some (busy (q @ xs) t)"
proof (induction xs arbitrary: q)
  case (Cons x xs)
  from Cons.IH [of "q @ [x]"] obtain k where
    k: "\<And>n. n \<ge> k \<Longrightarrow> raise_all is_set raises n xs (busy (q @ [x]) t) = Some (busy (q @ x # xs) t)"
    by auto
  have "raise_all is_set raises n (x # xs) (busy q t) = Some (busy (q @ x # xs) t)" if n: "n \<ge> Suc (Suc k)" for n
  proof -
    obtain m where m: "n = Suc (Suc m)" using n by (cases n; cases "n - 1") auto
    then show ?thesis using k [of "Suc m"] n by simp
  qed
  then show ?case by blast
qed simp

lemma run_handlers_busy:
  "\<exists>k. \<forall>n \<ge> k. run_handlers is_set raises n hs (busy q t)
      = Some (busy (q @ concat (map raises hs)) (t @ block hs))"
proof (induction hs arbitrary: q t)
  case (Cons h hs)
  from raise_all_busy obtain k where k: "\<And>n. n \<ge> k \<Longrightarrow>
      raise_all is_set raises n (raises h) (busy q (t @ [Enter h])) = Some (busy (q @ raises h) (t @ [Enter h]))"
    by blast
  from Cons.IH obtain j where j: "\<And>n. n \<ge> j \<Longrightarrow>
      run_handlers is_set raises n hs (busy (q @ raises h) (t @ [Enter h, Leave h]))
      = Some (busy ((q @ raises h) @ concat (map raises hs)) ((t @ [Enter h, Leave h]) @ block hs))"
    by blast
  have "run_handlers is_set raises n (h # hs) (busy q t)
      = Some (busy (q @ concat (map raises (h # hs))) (t @ block (h # hs)))" if n: "n \<ge> Suc (max k j)" for n
  proof -
    obtain m where m: "n = Suc m" using n by (cases n) simp_all
    have "m \<ge> k" "m \<ge> j" using n m by simp_all
    then show ?thesis using k [of m] j [of m] m by simp
  qed
  then show ?case by blast
qed simp

text \<open>
  The notices a delivery runs, \<open>ds\<close>, are exactly those that were queued followed by those the
  handlers of \<open>ds\<close> raised, in the order they were raised.
\<close>

lemma deliver_all:
  assumes wt: "\<And>x. sum_list (map wt (raised is_set raises x)) < (wt x :: nat)"
  shows "\<exists>ds k. ds = q @ concat (map (raised is_set raises) ds) \<and>
      (\<forall>n \<ge> k. deliver_n is_set raises n (busy q t) = Some (quiet (t @ blocks is_set ds)))"
proof (induction "sum_list (map wt q)" arbitrary: q t rule: less_induct)
  case less
  show ?case
  proof (cases q)
    case Nil
    have "deliver_n is_set raises n (busy [] t) = Some (quiet t)" if "n \<ge> 1" for n
      using that by (cases n) simp_all
    with Nil show ?thesis by (intro exI [of _ "[]"] exI [of _ 1]) simp
  next
    case (Cons x xs)
    from run_handlers_busy obtain k where k: "\<And>n. n \<ge> k \<Longrightarrow>
        run_handlers is_set raises n (handlers_of is_set x) (busy xs t)
        = Some (busy (xs @ raised is_set raises x) (t @ block (handlers_of is_set x)))"
      unfolding raised_def by blast
    have "sum_list (map wt (xs @ raised is_set raises x)) < sum_list (map wt q)"
      using wt [of x] by (simp add: Cons)
    from less.hyps [OF this] obtain ds j where
      ds: "ds = (xs @ raised is_set raises x) @ concat (map (raised is_set raises) ds)" and
      j: "\<And>n. n \<ge> j \<Longrightarrow> deliver_n is_set raises n
            (busy (xs @ raised is_set raises x) (t @ block (handlers_of is_set x)))
          = Some (quiet ((t @ block (handlers_of is_set x)) @ blocks is_set ds))"
      by blast
    have "deliver_n is_set raises n (busy q t) = Some (quiet (t @ blocks is_set (x # ds)))"
      if n: "n \<ge> Suc (max k j)" for n
    proof -
      obtain m where m: "n = Suc m" using n by (cases n) simp_all
    have "m \<ge> k" "m \<ge> j" using n m by simp_all
      then show ?thesis using k [of m] j [of m] m by (simp add: Cons)
    qed
    moreover have "x # ds = q @ concat (map (raised is_set raises) (x # ds))"
      using ds by (simp add: Cons)
    ultimately show ?thesis by blast
  qed
qed

lemma notify_busy: "notify_n is_set raises (Suc n) x (busy q t) = Some (busy (q @ [x]) t)"
  by simp

lemma notify_quiet: "notify_n is_set raises (Suc n) x (quiet t) = deliver_n is_set raises n (busy [x] t)"
  by (simp add: quiet_def busy_def)

lemma run_message_quiet:
  "run_message_handler is_set raises n data binary (quiet t) =
     (case run_handlers is_set raises n [OnMessage data binary] (busy [] t) of
        None \<Rightarrow> None | Some s' \<Rightarrow> deliver_n is_set raises n s')"
  by (simp add: run_message_handler_def quiet_def busy_def)

text \<open>C32: Notices run in the order they were raised, each once, and never inside a handler. For
  handlers that do not raise notices for ever (each notice weighs more than all its handlers
  raise), a notice or a message on a channel with nothing under way ends, with the flag clear and
  the queue empty. The handlers run one after the other, an Enter always followed by its own
  Leave; they are those of the notice itself followed by those of every notice raised on the way,
  in the order raised. A notice that meets a delivery under way only joins the queue.\<close>
theorem notices_run_in_order:
  assumes "\<And>x. sum_list (map wt (raised is_set raises x)) < (wt x :: nat)"
  shows "(\<exists>ds k. ds = x # concat (map (raised is_set raises) ds) \<and>
      (\<forall>n \<ge> k. notify_n is_set raises n x (quiet tr) = Some (quiet (tr @ blocks is_set ds))))
    \<and> (\<exists>ds k. ds = raises (OnMessage data binary) @ concat (map (raised is_set raises) ds) \<and>
      (\<forall>n \<ge> k. run_message_handler is_set raises n data binary (quiet tr)
         = Some (quiet (tr @ [Enter (OnMessage data binary), Leave (OnMessage data binary)]
                        @ blocks is_set ds))))
    \<and> notify_n is_set raises 1 x (busy q tr) = Some (busy (q @ [x]) tr)"
proof (intro conjI)
  from deliver_all [OF assms] obtain ds k where ds: "ds = [x] @ concat (map (raised is_set raises) ds)"
    and k: "\<And>n. n \<ge> k \<Longrightarrow> deliver_n is_set raises n (busy [x] tr) = Some (quiet (tr @ blocks is_set ds))"
    by blast
  have "notify_n is_set raises n x (quiet tr) = Some (quiet (tr @ blocks is_set ds))" if "n \<ge> Suc k" for n
    using that k [of "n - 1"] notify_quiet [of is_set raises "n - 1" x tr] by simp
  with ds show "\<exists>ds k. ds = x # concat (map (raised is_set raises) ds) \<and>
      (\<forall>n \<ge> k. notify_n is_set raises n x (quiet tr) = Some (quiet (tr @ blocks is_set ds)))"
    unfolding append_Cons append_Nil by blast
next
  let ?h = "OnMessage data binary"
  from deliver_all [OF assms] obtain ds k where ds: "ds = raises ?h @ concat (map (raised is_set raises) ds)"
    and k: "\<And>n. n \<ge> k \<Longrightarrow> deliver_n is_set raises n (busy (raises ?h) (tr @ [Enter ?h, Leave ?h]))
        = Some (quiet ((tr @ [Enter ?h, Leave ?h]) @ blocks is_set ds))"
    by blast
  from run_handlers_busy obtain j where j: "\<And>n. n \<ge> j \<Longrightarrow> run_handlers is_set raises n [?h] (busy [] tr)
      = Some (busy ([] @ concat (map raises [?h])) (tr @ block [?h]))"
    by blast
  have "run_message_handler is_set raises n data binary (quiet tr)
      = Some (quiet (tr @ [Enter ?h, Leave ?h] @ blocks is_set ds))" if "n \<ge> max k j" for n
    using that k [of n] j [of n] unfolding run_message_quiet by simp
  with ds show "\<exists>ds k. ds = raises ?h @ concat (map (raised is_set raises) ds) \<and>
      (\<forall>n \<ge> k. run_message_handler is_set raises n data binary (quiet tr)
         = Some (quiet (tr @ [Enter ?h, Leave ?h] @ blocks is_set ds)))" by blast
qed (simp add: notify_busy)

text \<open>A message handler that closes the channel: the state changes it raises run after it.\<close>

definition closing_handler :: "handler \<Rightarrow> notice list" where
  "closing_handler h =
     (case h of OnMessage _ _ \<Rightarrow> [StateNotice DcClosing, StateNotice DcClosed] | _ \<Rightarrow> [])"

lemma closing_raises: "raised (\<lambda>_. True) closing_handler = (\<lambda>_. [])"
  by (rule ext) (simp add: raised_def handlers_of_def closing_handler_def
      split: notice.splits data_channel_state.splits)

lemma notices_run_in_order_witness:
  "\<exists>n. run_message_handler (\<lambda>_. True) closing_handler n [7] True (quiet [])
     = Some (quiet [Enter (OnMessage [7] True), Leave (OnMessage [7] True),
         Enter (OnState DcClosing), Leave (OnState DcClosing),
         Enter (OnState DcClosed), Leave (OnState DcClosed), Enter OnClose, Leave OnClose])"
proof -
  have wt: "sum_list (map (\<lambda>_. 1) (raised (\<lambda>_. True) closing_handler x)) < (1 :: nat)" for x
    by (simp add: closing_raises)
  have nil: "concat (map (\<lambda>_. []) ds) = ([] :: notice list)" for ds :: "notice list"
    by (induction ds) simp_all
  from conjunct1 [OF conjunct2 [OF notices_run_in_order [where x = BufferedAmountLow and tr = "[]"
          and data = "[7]" and binary = True and q = "[]", OF wt]]]
  obtain ds k where
    ds: "ds = closing_handler (OnMessage [7] True) @ concat (map (raised (\<lambda>_. True) closing_handler) ds)"
    and k: "\<forall>n \<ge> k. run_message_handler (\<lambda>_. True) closing_handler n [7] True (quiet [])
      = Some (quiet ([] @ [Enter (OnMessage [7] True), Leave (OnMessage [7] True)] @ blocks (\<lambda>_. True) ds))"
    by blast
  have "ds = [StateNotice DcClosing, StateNotice DcClosed]"
    using ds unfolding closing_raises nil by (simp add: closing_handler_def)
  with k show ?thesis by (intro exI [of _ k]) (simp add: handlers_of_def)
qed

end
