(* ===== verification/Dc_Release.thy ===== *)
theory Dc_Release
  imports Dc_Notices
begin

text \<open>
  The release of a data channel (\<open>crates/reactor-webrtc/src/peer_connection.rs\<close>: \<open>CallbackScope\<close>
  and the \<open>Drop\<close> of \<open>DataChannel\<close>): threads that run callbacks, possibly of several channels
  inside each other, and drop channels, also from inside their own callbacks. Each channel has a
  core on the heap that its callbacks read.

  What libwebrtc does is a step of its own: unregistering the native observer of a channel waits
  until no callback of it runs, and afterwards none begins. A thread that releases a channel itself
  stands still until then.
\<close>

section \<open>The process\<close>

type_synonym thread = nat

datatype releaser = Here thread | ReleaseThread

record dc_process =
  dp_depth :: "thread \<Rightarrow> nat" \<comment> \<open>\<open>IN_DC_CALLBACK\<close>, one per thread\<close>
  dp_stack :: "thread \<Rightarrow> nat list" \<comment> \<open>the channels of the callbacks a thread is in, innermost first\<close>
  dp_owned :: "nat set" \<comment> \<open>channels not dropped\<close>
  dp_live :: "nat set" \<comment> \<open>cores not freed\<close>
  dp_releasing :: "nat \<Rightarrow> releaser option" \<comment> \<open>releases that have begun\<close>
  dp_factory :: nat \<comment> \<open>the references to the factory's threads\<close>

definition dp_new :: dc_process where
  "dp_new =
     \<lparr>dp_depth = (\<lambda>_. 0), dp_stack = (\<lambda>_. []), dp_owned = {}, dp_live = {}, dp_releasing = (\<lambda>_. None),
      dp_factory = 0\<rparr>"

definition stands_still :: "dc_process \<Rightarrow> thread \<Rightarrow> bool" where
  "stands_still p t = (\<exists>c. dp_releasing p c = Some (Here t))"

section \<open>Operations\<close>

text \<open>\<open>CallbackScope::enter\<close>, \<open>CallbackScope::active\<close> and the drop of the scope.\<close>

definition scope_enter :: "thread \<Rightarrow> dc_process \<Rightarrow> dc_process" where
  "scope_enter t p = p\<lparr>dp_depth := (dp_depth p)(t := dp_depth p t + 1)\<rparr>"

definition scope_active :: "thread \<Rightarrow> dc_process \<Rightarrow> bool" where
  "scope_active t p = (dp_depth p t > 0)"

definition scope_drop :: "thread \<Rightarrow> dc_process \<Rightarrow> dc_process" where
  "scope_drop t p = p\<lparr>dp_depth := (dp_depth p)(t := dp_depth p t - 1)\<rparr>"

text \<open>Every native callback of a channel opens with a scope and closes it last.\<close>

definition begin_callback :: "thread \<Rightarrow> nat \<Rightarrow> dc_process \<Rightarrow> dc_process" where
  "begin_callback t c p = (scope_enter t p)\<lparr>dp_stack := (dp_stack p)(t := c # dp_stack p t)\<rparr>"

definition end_callback :: "thread \<Rightarrow> dc_process \<Rightarrow> dc_process" where
  "end_callback t p = (scope_drop t p)\<lparr>dp_stack := (dp_stack p)(t := tl (dp_stack p t))\<rparr>"

definition new_channel :: "nat \<Rightarrow> dc_process \<Rightarrow> dc_process" where
  "new_channel c p =
     p\<lparr>dp_owned := insert c (dp_owned p), dp_live := insert c (dp_live p), dp_factory := dp_factory p + 1\<rparr>"

text \<open>The drop begins the release, here or on a thread of its own, which has a reference to the
  factory; the channel's own goes with its fields, once the drop is over.\<close>

definition drop_channel :: "thread \<Rightarrow> nat \<Rightarrow> dc_process \<Rightarrow> dc_process" where
  "drop_channel t c p =
     (if \<not> scope_active t p
      then p\<lparr>dp_owned := dp_owned p - {c}, dp_releasing := (dp_releasing p)(c := Some (Here t))\<rparr>
      else (let p = p\<lparr>dp_owned := dp_owned p - {c}, dp_releasing := (dp_releasing p)(c := Some ReleaseThread),
                      dp_factory := dp_factory p + 1\<rparr>
            in p\<lparr>dp_factory := dp_factory p - 1\<rparr>))"

text \<open>The release: the native handle is destroyed, then the core is freed, then the reference to the
  factory goes, with the channel's fields or with the thread.\<close>

definition release_core :: "nat \<Rightarrow> dc_process \<Rightarrow> dc_process" where
  "release_core c p =
     p\<lparr>dp_live := dp_live p - {c}, dp_releasing := (dp_releasing p)(c := None), dp_factory := dp_factory p - 1\<rparr>"

definition can_release :: "nat \<Rightarrow> dc_process \<Rightarrow> bool" where
  "can_release c p \<longleftrightarrow> dp_releasing p c \<noteq> None \<and> (\<forall>t. c \<notin> set (dp_stack p t))"

inductive dc_life :: "dc_process \<Rightarrow> dc_process \<Rightarrow> bool" where
  creates: "c \<notin> dp_live p \<Longrightarrow> \<not> stands_still p t \<Longrightarrow> dc_life p (new_channel c p)"
| calls: "c \<in> dp_owned p \<or> dp_releasing p c \<noteq> None \<Longrightarrow> \<not> stands_still p t \<Longrightarrow> dc_life p (begin_callback t c p)"
| returns: "dp_stack p t \<noteq> [] \<Longrightarrow> \<not> stands_still p t \<Longrightarrow> dc_life p (end_callback t p)"
| drops: "c \<in> dp_owned p \<Longrightarrow> \<not> stands_still p t \<Longrightarrow> dc_life p (drop_channel t c p)"
| releases: "can_release c p \<Longrightarrow> dc_life p (release_core c p)"

inductive dc_lives :: "dc_process \<Rightarrow> bool" where
  start: "dc_lives dp_new"
| step: "dc_lives p \<Longrightarrow> dc_life p p' \<Longrightarrow> dc_lives p'"

section \<open>The invariant\<close>

definition release_inv :: "dc_process \<Rightarrow> bool" where
  "release_inv p \<longleftrightarrow>
     (\<forall>t. dp_depth p t = length (dp_stack p t)) \<and>
     (\<forall>t. \<forall>c \<in> set (dp_stack p t). c \<in> dp_live p) \<and>
     (\<forall>c. c \<in> dp_live p \<longleftrightarrow> c \<in> dp_owned p \<or> dp_releasing p c \<noteq> None) \<and>
     (\<forall>c \<in> dp_owned p. dp_releasing p c = None) \<and>
     finite (dp_live p) \<and> dp_factory p = card (dp_live p) \<and>
     (\<forall>t. stands_still p t \<longrightarrow> dp_stack p t = []) \<and>
     (\<forall>c d t. dp_releasing p c = Some (Here t) \<longrightarrow> dp_releasing p d = Some (Here t) \<longrightarrow> c = d)"

lemma release_inv_parts:
  assumes "release_inv p"
  shows "dp_depth p t = length (dp_stack p t)" "c \<in> set (dp_stack p t) \<Longrightarrow> c \<in> dp_live p"
    and "dp_live p = dp_owned p \<union> dom (dp_releasing p)" "c \<in> dp_owned p \<Longrightarrow> dp_releasing p c = None"
    and "finite (dp_live p)" "dp_factory p = card (dp_live p)" "stands_still p t \<Longrightarrow> dp_stack p t = []"
  using assms unfolding release_inv_def by (blast | fastforce)+

lemmas release_ops = new_channel_def begin_callback_def end_callback_def drop_channel_def release_core_def
  scope_enter_def scope_drop_def scope_active_def

lemma release_inv_step:
  assumes "dc_life p p'" and inv: "release_inv p"
  shows "release_inv p'"
  using assms(1)
proof cases
  case (creates c t)
  then show ?thesis using inv by (auto simp: release_inv_def release_ops stands_still_def)
next
  case (calls c t)
  then show ?thesis using inv by (auto simp: release_inv_def release_ops stands_still_def)
next
  case (returns t)
  then obtain d ds where "dp_stack p t = d # ds" by (cases "dp_stack p t") auto
  moreover from this have "\<forall>c \<in> set ds. c \<in> dp_owned p \<or> dp_releasing p c \<noteq> None"
    using release_inv_parts(2,3) [OF inv] by (metis UnE domIff list.set_intros(2))
  ultimately show ?thesis using inv returns by (auto simp: release_inv_def release_ops stands_still_def)
next
  case (drops c t)
  then show ?thesis using inv
    by (auto simp: release_inv_def release_ops stands_still_def Let_def)
next
  case (releases c)
  then show ?thesis using inv
    by (auto simp: release_inv_def release_ops stands_still_def can_release_def split: if_splits)
qed

lemma release_inv_lives: "dc_lives p \<Longrightarrow> release_inv p"
proof (induction rule: dc_lives.induct)
  case start
  show ?case by (simp add: release_inv_def dp_new_def stands_still_def)
qed (rule release_inv_step)

section \<open>A core outlives its callbacks, and not the drop\<close>

text \<open>C38: A channel's core is freed once, and never under a callback. However callbacks nest, on
  whatever threads, and wherever a channel is dropped, its own callbacks included, the core of
  every callback that runs is allocated. A core is allocated exactly until its dropped channel is
  released, so nothing leaks; a release that has begun finds the factory's threads up, and can
  finish at once or waits for a callback on a thread that goes on running: a thread inside a
  callback never waits for it to return.\<close>

theorem core_outlives_callbacks:
  assumes "dc_lives p"
  shows "(\<forall>t. \<forall>c \<in> set (dp_stack p t). c \<in> dp_live p)
    \<and> dp_live p = dp_owned p \<union> dom (dp_releasing p)
    \<and> (\<forall>c. dp_releasing p c \<noteq> None \<longrightarrow>
         dp_factory p > 0 \<and> c \<notin> dp_owned p \<and>
         (can_release c p \<or> (\<exists>t. c \<in> set (dp_stack p t) \<and> \<not> stands_still p t)))
    \<and> (\<forall>t c. dp_stack p t \<noteq> [] \<longrightarrow>
         \<not> stands_still (drop_channel t c p) t \<and> dp_live (drop_channel t c p) = dp_live p)"
proof -
  have inv: "release_inv p" by (rule release_inv_lives [OF assms])
  have "dp_factory p > 0 \<and> c \<notin> dp_owned p \<and>
         (can_release c p \<or> (\<exists>t. c \<in> set (dp_stack p t) \<and> \<not> stands_still p t))"
    if "dp_releasing p c \<noteq> None" for c
  proof -
    have "c \<in> dp_live p" "c \<notin> dp_owned p" using inv that by (auto simp: release_inv_def)
    moreover from this have "dp_factory p > 0"
      using inv by (auto simp: release_inv_def card_gt_0_iff)
    moreover have "\<not> stands_still p t" if "c \<in> set (dp_stack p t)" for t
      using inv that by (auto simp: release_inv_def)
    ultimately show ?thesis using that by (auto simp: can_release_def)
  qed
  moreover have "\<not> stands_still (drop_channel t c p) t \<and> dp_live (drop_channel t c p) = dp_live p"
    if "dp_stack p t \<noteq> []" for t c
    using inv that by (auto simp: release_inv_def drop_channel_def scope_active_def stands_still_def Let_def)
  ultimately show ?thesis
    using release_inv_parts(2,3) [OF inv] by blast
qed

text \<open>A channel dropped from inside its own callback: the release waits for the callback, then
  frees the core.\<close>

lemma core_outlives_callbacks_witness:
  "\<exists>p. dc_lives p \<and> dp_stack p 0 = [7] \<and> dp_releasing p 7 = Some ReleaseThread \<and> 7 \<in> dp_live p \<and> \<not> can_release 7 p \<and>
     can_release 7 (end_callback 0 p) \<and> dp_live (release_core 7 (end_callback 0 p)) = {}"
proof -
  define p where "p = drop_channel 0 7 (begin_callback 0 7 (new_channel 7 dp_new))"
  have "dc_life dp_new (new_channel 7 dp_new)"
    by (rule dc_life.creates [of _ _ 0]) (simp_all add: dp_new_def stands_still_def)
  moreover have "dc_life (new_channel 7 dp_new) (begin_callback 0 7 (new_channel 7 dp_new))"
    by (rule dc_life.calls) (simp_all add: dp_new_def stands_still_def new_channel_def)
  moreover have "dc_life (begin_callback 0 7 (new_channel 7 dp_new)) p"
    unfolding p_def by (rule dc_life.drops) (simp_all add: dp_new_def stands_still_def release_ops)
  ultimately have p: "dc_lives p" by (meson dc_lives.start dc_lives.step)
  have state: "dp_stack p = (\<lambda>_. [])(0 := [7])" "dp_releasing p 7 = Some ReleaseThread" "dp_live p = {7}"
    by (simp_all add: p_def dp_new_def release_ops)
  have "7 \<in> set (dp_stack p 0)" using state(1) by simp
  then have "7 \<in> dp_live p" using core_outlives_callbacks [OF p] by blast
  moreover have "can_release 7 (end_callback 0 p)" "\<not> can_release 7 p"
    using state by (auto simp: can_release_def end_callback_def scope_drop_def)
  moreover have "dp_live (release_core 7 (end_callback 0 p)) = {}"
    using state by (simp add: release_ops)
  ultimately show ?thesis using p state by (intro exI [of _ p]) simp
qed

end
