(* ===== verification/Frame_Metadata.thy ===== *)
theory Frame_Metadata
  imports Prelude
begin

text \<open>
  Frame metadata and its trailer (\<open>crates/reactor-webrtc/src/metadata.rs\<close>). The protobuf
  coding of the record is derived by the third-party \<open>prost\<close> crate: it is the pair of
  arguments \<open>enc\<close> (\<open>encode_to_vec\<close>) and \<open>dec\<close> (\<open>decode\<close>, None for an error) of the
  trailer functions.
\<close>

record frame_metadata =
  md_frame_id :: u64
  md_capture_time_us :: u64
  md_user_data :: bytes

definition MAGIC :: bytes where "MAGIC = [0x52, 0x58, 0x4D, 0x54]"
definition FRAMING :: nat where "FRAMING = 4 + 4"

section \<open>The gate\<close>

text \<open>A gate is whether it is open; the shared atomic is a field of the connection.\<close>

type_synonym gate = bool

definition gate_new :: gate where "gate_new = False"
definition gate_is_open :: "gate \<Rightarrow> bool" where "gate_is_open g = g"
definition gate_set :: "gate \<Rightarrow> bool \<Rightarrow> gate" where "gate_set g declared = declared"

section \<open>Little-endian 32-bit integers\<close>

definition u32_to_le_bytes :: "u32 \<Rightarrow> bytes" where
  "u32_to_le_bytes n = map (\<lambda>i. ucast (drop_bit (8 * i) n)) [0, 1, 2, 3]"

definition u32_from_le_bytes :: "bytes \<Rightarrow> u32" where
  "u32_from_le_bytes bs = foldr (\<lambda>b acc. ucast b OR push_bit 8 acc) bs 0"

lemma length_le_bytes [simp]: "length (u32_to_le_bytes n) = 4"
  by (simp add: u32_to_le_bytes_def)

lemma u32_le_round_trip [simp]: "u32_from_le_bytes (u32_to_le_bytes n) = n"
  unfolding u32_from_le_bytes_def u32_to_le_bytes_def
proof (rule bit_word_eqI)
  fix k :: nat
  assume "k < LENGTH(32)"
  then consider "k < 8" | "8 \<le> k" "k < 16" | "16 \<le> k" "k < 24" | "24 \<le> k" "k < 32" by fastforce
  then show "bit (foldr (\<lambda>b acc. ucast b OR push_bit 8 acc)
        (map (\<lambda>i. ucast (drop_bit (8 * i) n) :: u8) [0, 1, 2, 3]) (0 :: u32)) k \<longleftrightarrow> bit n k"
    by cases (auto simp: bit_simps)
qed

lemma u8_high_bits [simp]: "\<not> bit (b :: u8) (8 + k)" "\<not> bit (b :: u8) (16 + k)" "\<not> bit (b :: u8) (24 + k)"
  using bit_imp_le_length [of b] by fastforce+

lemma u32_from_le_inverse:
  assumes "length bs = 4"
  shows "u32_to_le_bytes (u32_from_le_bytes bs) = bs"
proof -
  obtain a b c d where bs: "bs = [a, b, c, d]"
    using assms by (auto simp: numeral_eq_Suc length_Suc_conv)
  show ?thesis
    unfolding bs u32_from_le_bytes_def u32_to_le_bytes_def
    by (auto intro!: bit_word_eqI simp: bit_simps dest: bit_imp_le_length)
qed

section \<open>The trailer\<close>

definition encode_trailer :: "(frame_metadata \<Rightarrow> bytes) \<Rightarrow> frame_metadata \<Rightarrow> bytes" where
  "encode_trailer enc m =
     (let proto = enc m;
          proto_len = word_of_nat (length proto) :: u32
      in proto @ u32_to_le_bytes proto_len @ MAGIC)"

definition decode_and_strip_trailer ::
  "(bytes \<Rightarrow> frame_metadata option) \<Rightarrow> bytes \<Rightarrow> (frame_metadata \<times> bytes) option" where
  "decode_and_strip_trailer dec data =
     (if length data < FRAMING then None
      else
        (let tail = length data in
         if drop (tail - 4) data \<noteq> MAGIC then None
         else
           (let proto_len = unat (u32_from_le_bytes (take 4 (drop (tail - 8) data))) in
            if tail < 8 + proto_len then None
            else
              (let proto_start = tail - (8 + proto_len) in
               case dec (take (tail - 8 - proto_start) (drop proto_start data)) of
                 None \<Rightarrow> None
               | Some m \<Rightarrow> Some (m, take proto_start data)))))"

lemma length_MAGIC [simp]: "length MAGIC = 4"
  by (simp add: MAGIC_def)

lemma trailer_char:
  "decode_and_strip_trailer dec data = Some (m, payload) \<longleftrightarrow>
     (\<exists>proto. data = payload @ proto @ u32_to_le_bytes (word_of_nat (length proto)) @ MAGIC \<and>
              length proto < 2 ^ 32 \<and> dec proto = Some m)"
proof
  assume d: "decode_and_strip_trailer dec data = Some (m, payload)"
  define tail where "tail = length data"
  define len_bytes where "len_bytes = take 4 (drop (tail - 8) data)"
  define n where "n = unat (u32_from_le_bytes len_bytes)"
  define proto where "proto = take n (drop (tail - (8 + n)) data)"
  have big: "8 \<le> tail" and magic: "drop (tail - 4) data = MAGIC" and room: "8 + n \<le> tail"
    and dec: "dec proto = Some m" and payload: "payload = take (tail - (8 + n)) data"
    using d
    by (auto simp: decode_and_strip_trailer_def Let_def FRAMING_def tail_def n_def len_bytes_def
        proto_def split: if_splits option.splits)
  have len: "length proto = n" "length len_bytes = 4"
    using room big by (simp_all add: proto_def len_bytes_def tail_def)
  have bytes: "u32_to_le_bytes (word_of_nat n) = len_bytes"
    using u32_from_le_inverse [OF len(2)] by (simp add: n_def)
  have "data = take (tail - (8 + n)) data @ drop (tail - (8 + n)) data" by simp
  also have "drop (tail - (8 + n)) data = proto @ drop n (drop (tail - (8 + n)) data)"
    unfolding proto_def by (rule append_take_drop_id [symmetric])
  also have "drop n (drop (tail - (8 + n)) data) = drop (tail - 8) data"
    using room by (simp add: add.commute)
  also have "drop (tail - 8) data = len_bytes @ drop 4 (drop (tail - 8) data)"
    unfolding len_bytes_def by (rule append_take_drop_id [symmetric])
  also have "drop 4 (drop (tail - 8) data) = MAGIC"
    using magic big by (simp add: add.commute)
  finally have "data = payload @ proto @ u32_to_le_bytes (word_of_nat (length proto)) @ MAGIC"
    by (simp add: payload bytes len)
  moreover have "n < 2 ^ 32" using unsigned_less [of "u32_from_le_bytes len_bytes"] by (simp add: n_def)
  ultimately show "\<exists>proto. data = payload @ proto @ u32_to_le_bytes (word_of_nat (length proto)) @ MAGIC \<and>
              length proto < 2 ^ 32 \<and> dec proto = Some m"
    using dec len by blast
next
  assume "\<exists>proto. data = payload @ proto @ u32_to_le_bytes (word_of_nat (length proto)) @ MAGIC \<and>
              length proto < 2 ^ 32 \<and> dec proto = Some m"
  then obtain proto where data: "data = payload @ proto @ u32_to_le_bytes (word_of_nat (length proto)) @ MAGIC"
    and small: "length proto < 2 ^ 32" and dec: "dec proto = Some m" by blast
  have "unat (word_of_nat (length proto) :: u32) = length proto"
    using small by (simp add: unat_of_nat take_bit_nat_eq_self)
  then show "decode_and_strip_trailer dec data = Some (m, payload)"
    using dec by (simp add: decode_and_strip_trailer_def data FRAMING_def Let_def)
qed

text \<open>What a trailer is. A buffer decodes exactly when it is some payload, followed by bytes
  that the protobuf decoder accepts, their length in four little-endian bytes, and the magic; the
  result is what the decoder returned and that payload, whatever the payload holds (its own magic
  included). Nothing else is ever stripped.\<close>
theorem trailer_characterised:
  "decode_and_strip_trailer dec data = Some (m, payload) \<longleftrightarrow>
     (\<exists>proto. data = payload @ proto @ u32_to_le_bytes (word_of_nat (length proto)) @ MAGIC \<and>
              length proto < 2 ^ 32 \<and> dec proto = Some m)"
  by (rule trailer_char)

text \<open>The trailer comes off as it went on. Under the protobuf coder's own round trip, and for
  metadata that encodes to less than 4 GiB, stripping a frame that was given a trailer returns the
  metadata and exactly the encoder's payload, for every payload.\<close>
theorem trailer_round_trip:
  assumes "dec (enc m) = Some m" and "length (enc m) < 2 ^ 32"
  shows "decode_and_strip_trailer dec (payload @ encode_trailer enc m) = Some (m, payload)"
  using assms by (subst trailer_char) (auto simp: encode_trailer_def Let_def)

text \<open>A payload that itself ends in the magic, and a coder that writes only the user data.\<close>

lemma trailer_round_trip_witness:
  "decode_and_strip_trailer (\<lambda>b. Some \<lparr>md_frame_id = 0, md_capture_time_us = 0, md_user_data = b\<rparr>)
     (([1, 2] @ MAGIC) @ encode_trailer md_user_data
        \<lparr>md_frame_id = 0, md_capture_time_us = 0, md_user_data = [9, 9]\<rparr>)
   = Some (\<lparr>md_frame_id = 0, md_capture_time_us = 0, md_user_data = [9, 9]\<rparr>, [1, 2] @ MAGIC)"
  by (rule trailer_round_trip) simp_all

end
