(* ===== verification/Encoded_Frame.thy ===== *)
theory Encoded_Frame
  imports Frame_Metadata
begin

text \<open>
  Media kinds and encoded frames as the transforms see them
  (\<open>crates/reactor-webrtc/src/encoded.rs\<close> and \<open>media.rs\<close>). The native frame a handle
  points to is the field \<open>ef_current\<close>: \<open>replace_data\<close> writes it and \<open>current_data\<close> reads
  it, while \<open>ef_data\<close> stays the payload of the moment the callback started.
\<close>

datatype media_kind = Audio | Video | UnknownKind

definition media_kind_from_raw :: "int \<Rightarrow> media_kind" where
  "media_kind_from_raw k = (if k = 0 then Audio else if k = 1 then Video else UnknownKind)"

datatype frame_direction = SendDir | ReceiveDir

datatype frame_action = Forward | DropFrame

record encoded_frame =
  ef_direction :: frame_direction
  ef_kind :: media_kind
  ef_is_key_frame :: bool
  ef_payload_type :: u8
  ef_ssrc :: u32
  ef_timestamp :: u32
  ef_capture_time_ms :: int
  ef_mime_type :: string
  ef_data :: bytes
  ef_current :: bytes

definition replace_data :: "encoded_frame \<Rightarrow> bytes \<Rightarrow> encoded_frame" where
  "replace_data f data = f\<lparr>ef_current := data\<rparr>"

definition current_data :: "encoded_frame \<Rightarrow> bytes" where
  "current_data f = ef_current f"

text \<open>A callback is what it returns for the frame and what it leaves in it.\<close>

type_synonym encoded_cb = "encoded_frame \<Rightarrow> frame_action \<times> encoded_frame"

text \<open>The native description of a frame; None is a null pointer, or a name that is not UTF-8.\<close>

record raw_encoded_frame =
  rf_direction :: int
  rf_is_audio :: int
  rf_is_key_frame :: int
  rf_payload_type :: u8
  rf_ssrc :: u32
  rf_timestamp :: u32
  rf_capture_time_ms :: int
  rf_mime_type :: "string option"
  rf_data :: "bytes option"

definition encoded_view :: "raw_encoded_frame \<Rightarrow> encoded_frame" where
  "encoded_view f =
     (let data = (case rf_data f of None \<Rightarrow> [] | Some d \<Rightarrow> d) in
      \<lparr>ef_direction = (if rf_direction f = 1 then ReceiveDir else SendDir),
       ef_kind = (if rf_is_audio f = 1 then Audio else Video),
       ef_is_key_frame = (rf_is_key_frame f = 1),
       ef_payload_type = rf_payload_type f,
       ef_ssrc = rf_ssrc f,
       ef_timestamp = rf_timestamp f,
       ef_capture_time_ms = rf_capture_time_ms f,
       ef_mime_type = (case rf_mime_type f of None \<Rightarrow> [] | Some m \<Rightarrow> m),
       ef_data = data,
       ef_current = data\<rparr>)"

text \<open>The native callback: 0 forwards, 1 drops, and a null frame is forwarded.\<close>

definition encoded_tramp :: "encoded_cb \<Rightarrow> raw_encoded_frame option \<Rightarrow> int \<times> bytes option" where
  "encoded_tramp cb raw =
     (case raw of
        None \<Rightarrow> (0, None)
      | Some r \<Rightarrow>
          (case cb (encoded_view r) of
             (Forward, f) \<Rightarrow> (0, Some (ef_current f))
           | (DropFrame, f) \<Rightarrow> (1, Some (ef_current f))))"

section \<open>Codecs\<close>

datatype video_codec = Vp8 | Vp9 | Av1 | H264 | H265

definition codec_from_u32 :: "nat \<Rightarrow> video_codec option" where
  "codec_from_u32 v =
     (if v = 1 then Some Vp8 else if v = 2 then Some Vp9 else if v = 3 then Some Av1
      else if v = 4 then Some H264 else if v = 5 then Some H265 else None)"

fun codec_discriminant :: "video_codec \<Rightarrow> nat" where
  "codec_discriminant Vp8 = 1"
| "codec_discriminant Vp9 = 2"
| "codec_discriminant Av1 = 3"
| "codec_discriminant H264 = 4"
| "codec_discriminant H265 = 5"

fun codec_name :: "video_codec \<Rightarrow> string" where
  "codec_name Vp8 = ''VP8''"
| "codec_name Vp9 = ''VP9''"
| "codec_name Av1 = ''AV1''"
| "codec_name H264 = ''H264''"
| "codec_name H265 = ''H265''"

lemma codec_from_u32_iff: "codec_from_u32 v = Some c \<longleftrightarrow> v = codec_discriminant c"
  by (cases c) (auto simp: codec_from_u32_def)

end
