(* ===== verification/Sender_Meta.thy ===== *)
theory Sender_Meta
  imports Encoded_Frame
begin

text \<open>
  Where the frame-metadata steps find their state and how they run
  (\<open>crates/reactor-webrtc/src/sender_meta.rs\<close>): the weak registries from native tracks to
  metadata sources and receive queues, the allow list, the receive queue, and the slot that
  composes the caller's transform with the metadata step.

  A source or a queue is an allocation with an identity, a natural number; \<open>alive\<close> says which
  still have a strong owner. An allocation is not reused while a weak reference to it is left, so
  identities are never recycled. The registries' mutexes are never poisoned here.
\<close>

section \<open>Weak registries\<close>

type_synonym weak_map = "nat \<Rightarrow> nat option"

definition register :: "weak_map \<Rightarrow> nat \<Rightarrow> nat \<Rightarrow> weak_map" where
  "register m track_id source = (if track_id = 0 then m else m(track_id := Some source))"

definition deregister :: "weak_map \<Rightarrow> nat \<Rightarrow> nat \<Rightarrow> weak_map" where
  "deregister m track_id source =
     (if track_id = 0 then m
      else let ours = (case m track_id of None \<Rightarrow> False | Some weak \<Rightarrow> weak = source)
           in if ours then m(track_id := None) else m)"

definition lookup :: "(nat \<Rightarrow> bool) \<Rightarrow> weak_map \<Rightarrow> nat \<Rightarrow> nat option \<times> weak_map" where
  "lookup alive m track_id =
     (if track_id = 0 then (None, m)
      else case (case m track_id of None \<Rightarrow> None | Some weak \<Rightarrow> if alive weak then Some weak else None) of
             Some source \<Rightarrow> (Some source, m)
           | None \<Rightarrow> (None, m(track_id := None)))"

definition register_receiver :: "weak_map \<Rightarrow> nat \<Rightarrow> nat \<Rightarrow> weak_map" where
  "register_receiver m track_id queue = (if track_id = 0 then m else m(track_id := Some queue))"

definition deregister_receiver :: "weak_map \<Rightarrow> nat \<Rightarrow> nat \<Rightarrow> weak_map" where
  "deregister_receiver m track_id queue =
     (if track_id = 0 then m
      else let ours = (case m track_id of None \<Rightarrow> False | Some weak \<Rightarrow> weak = queue)
           in if ours then m(track_id := None) else m)"

definition lookup_receiver :: "(nat \<Rightarrow> bool) \<Rightarrow> weak_map \<Rightarrow> nat \<Rightarrow> nat option \<times> weak_map" where
  "lookup_receiver alive m track_id =
     (if track_id = 0 then (None, m)
      else case (case m track_id of None \<Rightarrow> None | Some weak \<Rightarrow> if alive weak then Some weak else None) of
             Some queue \<Rightarrow> (Some queue, m)
           | None \<Rightarrow> (None, m(track_id := None)))"

section \<open>The allow list\<close>

type_synonym allow_map = "nat \<Rightarrow> bool option"

definition register_allowed :: "allow_map \<Rightarrow> nat \<Rightarrow> bool \<Rightarrow> allow_map" where
  "register_allowed m track_id a = (if track_id = 0 then m else m(track_id := Some a))"

definition deregister_allowed :: "allow_map \<Rightarrow> nat \<Rightarrow> allow_map" where
  "deregister_allowed m track_id = (if track_id = 0 then m else m(track_id := None))"

definition allowed :: "allow_map \<Rightarrow> nat \<Rightarrow> bool" where
  "allowed m track_id =
     (if track_id = 0 then True else case m track_id of Some a \<Rightarrow> a | None \<Rightarrow> True)"

section \<open>The receive queue\<close>

record frame_key =
  fk_ssrc :: u32
  fk_rtp_timestamp :: u32

type_synonym receiver_queue = "(frame_key \<times> frame_metadata) list"

definition key_matches :: "u32 \<Rightarrow> u32 \<Rightarrow> frame_key \<Rightarrow> bool" where
  "key_matches ssrc rtp_timestamp k =
     (fk_rtp_timestamp k = rtp_timestamp \<and> (ssrc = 0 \<or> fk_ssrc k = ssrc))"

definition take_receiver_meta ::
  "receiver_queue \<Rightarrow> u32 \<Rightarrow> u32 \<Rightarrow> frame_metadata option \<times> receiver_queue" where
  "take_receiver_meta q ssrc rtp_timestamp =
     (case dropWhile (\<lambda>(k, _). \<not> key_matches ssrc rtp_timestamp k) q of
        [] \<Rightarrow> (None, q)
      | (_, m) # rest \<Rightarrow> (Some m, rest))"

definition RECEIVER_META_CAP :: nat where "RECEIVER_META_CAP = 300"
definition SEEN_WINDOW :: nat where "SEEN_WINDOW = 32"

text \<open>A bounded queue drops its oldest entry to take one more.\<close>

definition push_capped :: "nat \<Rightarrow> 'a list \<Rightarrow> 'a \<Rightarrow> 'a list" where
  "push_capped cap q x = (if length q \<ge> cap then tl q else q) @ [x]"

section \<open>Metadata sources\<close>

text \<open>The two sources: a track's map keyed by capture time (\<open>media.rs\<close>), and an encoded
  track's first-in first-out queue (\<open>encoded.rs\<close>).\<close>

record capture_time_meta =
  cm_map :: "int \<Rightarrow> frame_metadata option"
  cm_order :: "int list"

definition cm_default :: capture_time_meta where
  "cm_default = \<lparr>cm_map = (\<lambda>_. None), cm_order = []\<rparr>"

definition capture_time_take :: "capture_time_meta \<Rightarrow> encoded_frame \<Rightarrow> frame_metadata option" where
  "capture_time_take c f = (if ef_capture_time_ms f \<le> 0 then None else cm_map c (ef_capture_time_ms f))"

type_synonym fifo_meta = "frame_metadata list"

definition fifo_take :: "fifo_meta \<Rightarrow> frame_metadata option \<times> fifo_meta" where
  "fifo_take q = (case q of [] \<Rightarrow> (None, []) | m # rest \<Rightarrow> (Some m, rest))"

datatype meta_source = CaptureTime capture_time_meta | Fifo fifo_meta

definition source_take :: "meta_source \<Rightarrow> encoded_frame \<Rightarrow> frame_metadata option \<times> meta_source" where
  "source_take s f =
     (case s of
        CaptureTime c \<Rightarrow> (capture_time_take c f, CaptureTime c)
      | Fifo q \<Rightarrow> (case fifo_take q of (m, q') \<Rightarrow> (m, Fifo q')))"

section \<open>The composed slot\<close>

text \<open>The step names its source, gate and queue by their identity in the world below.\<close>

datatype meta_step =
    Embed nat nat \<comment> \<open>source, gate\<close>
  | Strip nat "(u32 \<times> u32) list" \<comment> \<open>queue, the frames seen last\<close>

record composed_slot =
  sl_caller :: "encoded_cb option"
  sl_meta :: "meta_step option"
  sl_installed :: bool

definition slot_default :: composed_slot where
  "slot_default = \<lparr>sl_caller = None, sl_meta = None, sl_installed = False\<rparr>"

record meta_world =
  mw_sources :: "nat \<Rightarrow> meta_source"
  mw_gates :: "nat \<Rightarrow> gate"
  mw_queues :: "nat \<Rightarrow> receiver_queue"

definition run_embed ::
  "(frame_metadata \<Rightarrow> bytes) \<Rightarrow> nat \<Rightarrow> nat \<Rightarrow> encoded_frame \<Rightarrow> meta_world \<Rightarrow> encoded_frame \<times> meta_world" where
  "run_embed enc source g f mw =
     (let (m, s') = source_take (mw_sources mw source) f;
          mw' = mw\<lparr>mw_sources := (mw_sources mw)(source := s')\<rparr>
      in if gate_is_open (mw_gates mw g)
         then (case m of
                 Some meta \<Rightarrow> (replace_data f (current_data f @ encode_trailer enc meta), mw')
               | None \<Rightarrow> (f, mw'))
         else (f, mw'))"

text \<open>The dedup window: whether the frame was seen, and the window after it.\<close>

definition note_seen :: "(u32 \<times> u32) list \<Rightarrow> u32 \<times> u32 \<Rightarrow> bool \<times> (u32 \<times> u32) list" where
  "note_seen seen key = (if key \<in> set seen then (True, seen) else (False, push_capped SEEN_WINDOW seen key))"

definition run_strip ::
  "(bytes \<Rightarrow> frame_metadata option) \<Rightarrow> nat \<Rightarrow> (u32 \<times> u32) list \<Rightarrow> encoded_frame \<Rightarrow> meta_world
     \<Rightarrow> encoded_frame \<times> (u32 \<times> u32) list \<times> meta_world" where
  "run_strip dec queue seen f mw =
     (case decode_and_strip_trailer dec (current_data f) of
        None \<Rightarrow> (f, seen, mw)
      | Some (m, stripped) \<Rightarrow>
          (let (dup, seen') = note_seen seen (ef_ssrc f, ef_timestamp f);
               key = \<lparr>fk_ssrc = ef_ssrc f, fk_rtp_timestamp = ef_timestamp f\<rparr>;
               mw' = (if dup then mw
                      else mw\<lparr>mw_queues := (mw_queues mw)
                                (queue := push_capped RECEIVER_META_CAP (mw_queues mw queue) (key, m))\<rparr>)
           in (replace_data f stripped, seen', mw')))"

definition slot_run ::
  "(frame_metadata \<Rightarrow> bytes) \<Rightarrow> (bytes \<Rightarrow> frame_metadata option) \<Rightarrow> composed_slot \<Rightarrow> encoded_frame
     \<Rightarrow> meta_world \<Rightarrow> frame_action \<times> encoded_frame \<times> composed_slot \<times> meta_world" where
  "slot_run enc dec slot f mw =
     (let (action, f1) = (case sl_caller slot of None \<Rightarrow> (Forward, f) | Some cb \<Rightarrow> cb f) in
      if action = DropFrame then (DropFrame, f1, slot, mw)
      else case sl_meta slot of
             None \<Rightarrow> (Forward, f1, slot, mw)
           | Some (Embed source g) \<Rightarrow>
               (case run_embed enc source g f1 mw of (f2, mw') \<Rightarrow> (Forward, f2, slot, mw'))
           | Some (Strip queue seen) \<Rightarrow>
               (case run_strip dec queue seen f1 mw of
                  (f2, seen', mw') \<Rightarrow> (Forward, f2, slot\<lparr>sl_meta := Some (Strip queue seen')\<rparr>, mw')))"

definition set_caller :: "composed_slot \<Rightarrow> encoded_cb \<Rightarrow> composed_slot" where
  "set_caller s cb = s\<lparr>sl_caller := Some cb\<rparr>"

definition set_meta :: "composed_slot \<Rightarrow> meta_step \<Rightarrow> composed_slot" where
  "set_meta s step = s\<lparr>sl_meta := Some step\<rparr>"

definition claim_install :: "composed_slot \<Rightarrow> bool \<times> composed_slot" where
  "claim_install s = (\<not> sl_installed s, s\<lparr>sl_installed := True\<rparr>)"

section \<open>The slots of all connections\<close>

datatype side_of = SendSide | ReceiveSide

type_synonym slot_key = "nat \<times> nat \<times> side_of"

type_synonym slot_map = "slot_key \<Rightarrow> composed_slot option"

text \<open>\<open>slot_for\<close> gives the key of an entry that exists after it.\<close>

definition slot_for :: "slot_map \<Rightarrow> nat \<Rightarrow> nat \<Rightarrow> side_of \<Rightarrow> slot_key option \<times> slot_map" where
  "slot_for m pc tc side =
     (if tc = 0 then (None, m)
      else (Some (pc, tc, side),
            case m (pc, tc, side) of Some _ \<Rightarrow> m | None \<Rightarrow> m((pc, tc, side) := Some slot_default)))"

definition forget_transceiver :: "slot_map \<Rightarrow> nat \<Rightarrow> nat \<Rightarrow> slot_map" where
  "forget_transceiver m pc tc =
     (if tc = 0 then m else m((pc, tc, SendSide) := None, (pc, tc, ReceiveSide) := None))"

definition prune_stale_slots :: "slot_map \<Rightarrow> nat \<Rightarrow> nat list \<Rightarrow> slot_map" where
  "prune_stale_slots m pc live =
     (\<lambda>k. case k of (p, t, _) \<Rightarrow> if p \<noteq> pc \<or> t \<in> set live then m k else None)"

definition update_slot :: "slot_map \<Rightarrow> slot_key \<Rightarrow> (composed_slot \<Rightarrow> composed_slot) \<Rightarrow> slot_map" where
  "update_slot m k f = m(k := map_option f (m k))"

definition release_install :: "slot_map \<Rightarrow> nat \<Rightarrow> nat \<Rightarrow> side_of \<Rightarrow> slot_map" where
  "release_install m pc tc side =
     (case slot_for m pc tc side of
        (None, m') \<Rightarrow> m'
      | (Some k, m') \<Rightarrow> update_slot m' k (\<lambda>s. s\<lparr>sl_installed := False\<rparr>))"

definition update_embed_source :: "slot_map \<Rightarrow> nat \<Rightarrow> nat \<Rightarrow> nat \<Rightarrow> slot_map" where
  "update_embed_source m pc tc source =
     (if tc = 0 then m
      else case slot_for m pc tc SendSide of
             (None, m') \<Rightarrow> m'
           | (Some k, m') \<Rightarrow>
               update_slot m' k
                 (\<lambda>s. if sl_installed s
                      then (case sl_meta s of
                              Some (Embed _ g) \<Rightarrow> s\<lparr>sl_meta := Some (Embed source g)\<rparr>
                            | _ \<Rightarrow> s)
                      else s))"

text \<open>The three ways to give a slot its part: the first also says to attach the native
  transformer that runs it.\<close>

definition attach_with ::
  "slot_map \<Rightarrow> nat \<Rightarrow> nat \<Rightarrow> side_of \<Rightarrow> (composed_slot \<Rightarrow> composed_slot) \<Rightarrow> bool \<times> slot_map" where
  "attach_with m pc tc side f =
     (case slot_for m pc tc side of
        (None, m') \<Rightarrow> (False, m')
      | (Some k, m') \<Rightarrow>
          (case m' k of
             None \<Rightarrow> (False, m')
           | Some s \<Rightarrow> (case claim_install (f s) of (first, s') \<Rightarrow> (first, m'(k := Some s')))))"

definition attach_caller :: "slot_map \<Rightarrow> nat \<Rightarrow> nat \<Rightarrow> side_of \<Rightarrow> encoded_cb \<Rightarrow> bool \<times> slot_map" where
  "attach_caller m pc tc side cb = attach_with m pc tc side (\<lambda>s. set_caller s cb)"

definition attach_embed :: "slot_map \<Rightarrow> nat \<Rightarrow> nat \<Rightarrow> nat \<Rightarrow> nat \<Rightarrow> bool \<times> slot_map" where
  "attach_embed m pc tc source g = attach_with m pc tc SendSide (\<lambda>s. set_meta s (Embed source g))"

definition attach_strip :: "slot_map \<Rightarrow> nat \<Rightarrow> nat \<Rightarrow> nat \<Rightarrow> bool \<times> slot_map" where
  "attach_strip m pc tc queue = attach_with m pc tc ReceiveSide (\<lambda>s. set_meta s (Strip queue []))"

end
