(* ===== verification/Sender_Meta_Props.thy ===== *)
theory Sender_Meta_Props
  imports Sender_Meta "HOL-Library.Sublist"
begin

text \<open>
  What the metadata plumbing promises: the registries find the latest live registration, metadata
  crosses from a sending slot to a receiving one and is paired with its own frame, and each slot's
  native transformer is attached once.
\<close>

section \<open>The contract of a weak registry\<close>

text \<open>
  What users of a registry rely on. The history of a track's entry is the registrations and
  deregistrations with its id; an object that died is never found, and forgetting a dead entry on
  lookup changes no later answer.
\<close>

datatype reg_op = Reg nat nat | Dereg nat nat | Look nat | Die nat

locale weak_registry =
  fixes reg :: "weak_map \<Rightarrow> nat \<Rightarrow> nat \<Rightarrow> weak_map"
    and dereg :: "weak_map \<Rightarrow> nat \<Rightarrow> nat \<Rightarrow> weak_map"
    and look :: "(nat \<Rightarrow> bool) \<Rightarrow> weak_map \<Rightarrow> nat \<Rightarrow> nat option \<times> weak_map"
  assumes reg_entry: "reg m t x u = (if u = t \<and> t \<noteq> 0 then Some x else m u)"
    and dereg_entry: "dereg m t x u = (if u = t \<and> t \<noteq> 0 \<and> m t = Some x then None else m u)"
    and look_result: "fst (look alive m t) =
      (if t = 0 then None else case m t of Some x \<Rightarrow> if alive x then Some x else None | None \<Rightarrow> None)"
    and look_entry: "snd (look alive m t) u =
      (if u = t \<and> t \<noteq> 0 \<and> fst (look alive m t) = None then None else m u)"
begin

fun reg_step :: "(nat \<Rightarrow> bool) \<times> weak_map \<Rightarrow> reg_op \<Rightarrow> (nat \<Rightarrow> bool) \<times> weak_map" where
  "reg_step (alive, m) (Reg t x) = (alive, reg m t x)"
| "reg_step (alive, m) (Dereg t x) = (alive, dereg m t x)"
| "reg_step (alive, m) (Look t) = (alive, snd (look alive m t))"
| "reg_step (alive, m) (Die x) = (alive(x := False), m)"

end

text \<open>The specification: the entry a track has had since its last registration, whatever was
  looked up or died in between.\<close>

fun entry_step :: "weak_map \<Rightarrow> reg_op \<Rightarrow> weak_map" where
  "entry_step e (Reg t x) = (if t = 0 then e else e(t := Some x))"
| "entry_step e (Dereg t x) = (if t \<noteq> 0 \<and> e t = Some x then e(t := None) else e)"
| "entry_step e (Look t) = e"
| "entry_step e (Die x) = e"

fun alive_step :: "(nat \<Rightarrow> bool) \<Rightarrow> reg_op \<Rightarrow> nat \<Rightarrow> bool" where
  "alive_step alive (Die x) = alive(x := False)"
| "alive_step alive _ = alive"

context weak_registry
begin

text \<open>The registry agrees with the specification up to entries that are dead.\<close>

definition agrees :: "(nat \<Rightarrow> bool) \<Rightarrow> weak_map \<Rightarrow> weak_map \<Rightarrow> bool" where
  "agrees alive m e \<longleftrightarrow> (\<forall>t. m t = e t \<or> m t = None \<and> (\<forall>x. e t = Some x \<longrightarrow> \<not> alive x))"

lemma agrees_step:
  assumes "agrees alive m e"
  shows "agrees (fst (reg_step (alive, m) op)) (snd (reg_step (alive, m) op)) (entry_step e op)
    \<and> fst (reg_step (alive, m) op) = alive_step alive op"
proof (cases op)
  case (Look t)
  have "agrees alive (snd (look alive m t)) e"
    unfolding agrees_def
  proof
    fix u
    show "snd (look alive m t) u = e u \<or>
        snd (look alive m t) u = None \<and> (\<forall>x. e u = Some x \<longrightarrow> \<not> alive x)"
    proof (cases "u = t \<and> t \<noteq> 0 \<and> fst (look alive m t) = None")
      case True
      then have dead: "\<forall>x. m u = Some x \<longrightarrow> \<not> alive x"
        using look_result [of alive m t] by (auto split: option.splits if_splits)
      have "m u = e u \<or> m u = None \<and> (\<forall>x. e u = Some x \<longrightarrow> \<not> alive x)"
        using assms by (simp add: agrees_def)
      with dead True show ?thesis by (auto simp: look_entry)
    next
      case False
      then have "snd (look alive m t) u = m u" unfolding look_entry by (rule if_not_P)
      then show ?thesis using assms by (simp add: agrees_def)
    qed
  qed
  then show ?thesis using Look by simp
next
  case (Reg t x)
  then show ?thesis using assms by (auto simp: agrees_def reg_entry)
next
  case (Dereg t x)
  have "agrees alive (dereg m t x) (entry_step e (Dereg t x))"
    unfolding agrees_def
  proof
    fix u
    have "m u = e u \<or> m u = None \<and> (\<forall>y. e u = Some y \<longrightarrow> \<not> alive y)"
      using assms by (simp add: agrees_def)
    then show "dereg m t x u = entry_step e (Dereg t x) u \<or> dereg m t x u = None \<and>
        (\<forall>y. entry_step e (Dereg t x) u = Some y \<longrightarrow> \<not> alive y)"
      by (cases "u = t") (auto simp: dereg_entry)
  qed
  then show ?thesis using Dereg by simp
next
  case (Die x)
  then show ?thesis using assms by (auto simp: agrees_def)
qed

lemma agrees_run:
  "agrees alive m e \<Longrightarrow>
   agrees (fst (foldl reg_step (alive, m) ops)) (snd (foldl reg_step (alive, m) ops)) (foldl entry_step e ops)
   \<and> fst (foldl reg_step (alive, m) ops) = foldl alive_step alive ops"
proof (induction ops arbitrary: alive m e)
  case (Cons op ops)
  obtain alive1 m1 where st: "reg_step (alive, m) op = (alive1, m1)" by fastforce
  from agrees_step [OF Cons.prems, of op]
  have ag: "agrees alive1 m1 (entry_step e op)" and al: "alive_step alive op = alive1"
    unfolding st fst_conv snd_conv by auto
  show ?case unfolding foldl_Cons st al by (rule Cons.IH [OF ag])
qed simp

lemma look_agrees:
  "agrees alive m e \<Longrightarrow> fst (look alive m t) =
     (if t = 0 then None else case e t of Some x \<Rightarrow> if alive x then Some x else None | None \<Rightarrow> None)"
  unfolding look_result agrees_def by (auto split: option.splits) (metis option.distinct(1) option.inject)+

text \<open>What a lookup finds after any history.\<close>

lemma look_finds:
  "fst (look (foldl alive_step (\<lambda>_. True) ops)
             (snd (foldl reg_step (\<lambda>_. True, \<lambda>_. None) ops)) t) =
     (if t = 0 then None
      else case foldl entry_step (\<lambda>_. None) ops t of
             Some x \<Rightarrow> if foldl alive_step (\<lambda>_. True) ops x then Some x else None
           | None \<Rightarrow> None)"
proof -
  have "agrees (\<lambda>_. True) (\<lambda>_. None) (\<lambda>_. None)" by (simp add: agrees_def)
  note run = agrees_run [OF this, of ops]
  have "agrees (foldl alive_step (\<lambda>_. True) ops) (snd (foldl reg_step (\<lambda>_. True, \<lambda>_. None) ops))
      (foldl entry_step (\<lambda>_. None) ops)"
    using conjunct1 [OF run] unfolding conjunct2 [OF run] .
  then show ?thesis by (rule look_agrees)
qed

end

interpretation send_registry: weak_registry register deregister lookup
  by unfold_locales
     (auto simp: register_def deregister_def lookup_def split: option.splits)

interpretation recv_registry: weak_registry register_receiver deregister_receiver lookup_receiver
  by unfold_locales
     (auto simp: register_receiver_def deregister_receiver_def lookup_receiver_def split: option.splits)

text \<open>One step of the two registries, as the program uses them.\<close>

fun send_reg_step :: "(nat \<Rightarrow> bool) \<times> weak_map \<Rightarrow> reg_op \<Rightarrow> (nat \<Rightarrow> bool) \<times> weak_map" where
  "send_reg_step (alive, m) (Reg t x) = (alive, register m t x)"
| "send_reg_step (alive, m) (Dereg t x) = (alive, deregister m t x)"
| "send_reg_step (alive, m) (Look t) = (alive, snd (lookup alive m t))"
| "send_reg_step (alive, m) (Die x) = (alive(x := False), m)"

fun recv_reg_step :: "(nat \<Rightarrow> bool) \<times> weak_map \<Rightarrow> reg_op \<Rightarrow> (nat \<Rightarrow> bool) \<times> weak_map" where
  "recv_reg_step (alive, m) (Reg t x) = (alive, register_receiver m t x)"
| "recv_reg_step (alive, m) (Dereg t x) = (alive, deregister_receiver m t x)"
| "recv_reg_step (alive, m) (Look t) = (alive, snd (lookup_receiver alive m t))"
| "recv_reg_step (alive, m) (Die x) = (alive(x := False), m)"

lemma reg_steps: "send_registry.reg_step = send_reg_step" "recv_registry.reg_step = recv_reg_step"
proof -
  show "send_registry.reg_step = send_reg_step"
  proof (intro ext)
    fix s op
    show "send_registry.reg_step s op = send_reg_step s op" by (cases s; cases op) simp_all
  qed
  show "recv_registry.reg_step = recv_reg_step"
  proof (intro ext)
    fix s op
    show "recv_registry.reg_step s op = recv_reg_step s op" by (cases s; cases op) simp_all
  qed
qed

text \<open>A transceiver finds the latest live registration of its track. After any history of
  registrations, deregistrations, lookups and deaths, in either registry, a lookup gives the
  object of the last registration for that native track that was not taken back by that same
  object, if it is still alive, and nothing otherwise. In particular an inner track that goes away
  does not remove the queue that replaced its own, a dead queue is never found again, and the
  dead entries a lookup drops change no later answer.\<close>
theorem registry_finds_latest:
  "fst (lookup (foldl alive_step (\<lambda>_. True) ops) (snd (foldl send_reg_step (\<lambda>_. True, \<lambda>_. None) ops)) t)
     = (if t = 0 then None
        else case foldl entry_step (\<lambda>_. None) ops t of
               Some x \<Rightarrow> if foldl alive_step (\<lambda>_. True) ops x then Some x else None
             | None \<Rightarrow> None)
   \<and> fst (lookup_receiver (foldl alive_step (\<lambda>_. True) ops)
            (snd (foldl recv_reg_step (\<lambda>_. True, \<lambda>_. None) ops)) t)
     = (if t = 0 then None
        else case foldl entry_step (\<lambda>_. None) ops t of
               Some x \<Rightarrow> if foldl alive_step (\<lambda>_. True) ops x then Some x else None
             | None \<Rightarrow> None)"
  using send_registry.look_finds [of ops t] recv_registry.look_finds [of ops t] by (simp add: reg_steps)

section \<open>Pairing metadata with decoded frames\<close>

lemma take_receiver_meta_found:
  assumes "\<forall>e \<in> set skipped. \<not> key_matches ssrc ts (fst e)" "key_matches ssrc ts k"
  shows "take_receiver_meta (skipped @ (k, m) # rest) ssrc ts = (Some m, rest)"
proof -
  have "dropWhile (\<lambda>(k, _). \<not> key_matches ssrc ts k) (skipped @ (k, m) # rest) = (k, m) # rest"
    using assms by (induction skipped) auto
  then show ?thesis by (simp add: take_receiver_meta_def)
qed

lemma key_matches_exact: "ssrc \<noteq> 0 \<Longrightarrow> key_matches ssrc ts k \<longleftrightarrow> k = \<lparr>fk_ssrc = ssrc, fk_rtp_timestamp = ts\<rparr>"
  by (cases k) (auto simp: key_matches_def)

text \<open>Take the metadata of a list of decoded frames, in order.\<close>

fun take_all :: "receiver_queue \<Rightarrow> frame_key list \<Rightarrow> frame_metadata option list" where
  "take_all q [] = []"
| "take_all q (k # ks) =
     (case take_receiver_meta q (fk_ssrc k) (fk_rtp_timestamp k) of (m, q') \<Rightarrow> m # take_all q' ks)"

lemma take_all_pairs:
  assumes "distinct (map fst q)" and "\<forall>e \<in> set q. fk_ssrc (fst e) \<noteq> 0" and "subseq frames q"
  shows "take_all q (map fst frames) = map (\<lambda>e. Some (snd e)) frames"
  using assms(3,1,2)
proof (induction frames arbitrary: q)
  case (Cons e frames)
  obtain k m where e: "e = (k, m)" by (cases e)
  from list_emb_ConsD [OF Cons.prems(1)]
  obtain skipped rest where q: "q = skipped @ e # rest" and sub: "subseq frames rest" by auto
  have ssrc: "fk_ssrc k \<noteq> 0" using Cons.prems(3) by (simp add: q e)
  have "\<forall>x \<in> set skipped. \<not> key_matches (fk_ssrc k) (fk_rtp_timestamp k) (fst x)"
  proof
    fix x
    assume x: "x \<in> set skipped"
    have "fst x \<noteq> k" using Cons.prems(2) x by (auto simp: q e)
    moreover have "k = \<lparr>fk_ssrc = fk_ssrc k, fk_rtp_timestamp = fk_rtp_timestamp k\<rparr>" by simp
    ultimately show "\<not> key_matches (fk_ssrc k) (fk_rtp_timestamp k) (fst x)"
      by (metis key_matches_exact [OF ssrc])
  qed
  then have "take_receiver_meta q (fk_ssrc k) (fk_rtp_timestamp k) = (Some m, rest)"
    unfolding q e by (rule take_receiver_meta_found) (simp add: key_matches_exact [OF ssrc])
  moreover have "take_all rest (map fst frames) = map (\<lambda>e. Some (snd e)) frames"
    using Cons.prems by (intro Cons.IH [OF sub]) (auto simp: q)
  ultimately show ?case by (simp add: e)
qed simp

text \<open>C21: Decoded frames get their own metadata. Let the queue hold the entries of the frames that
  reached the strip step, in order and with distinct keys, and let the decoder deliver any of
  them, in order, losing the others: each delivered frame takes exactly the metadata stripped from
  it, however many frames were lost before it.\<close>
theorem metadata_pairs_with_its_frame:
  assumes "distinct (map fst q)" and "\<forall>e \<in> set q. fk_ssrc (fst e) \<noteq> 0" and "subseq frames q"
  shows "take_all q (map fst frames) = map (\<lambda>e. Some (snd e)) frames"
  using assms by (rule take_all_pairs)

definition sample_meta :: "nat \<Rightarrow> frame_metadata" where
  "sample_meta n = \<lparr>md_frame_id = word_of_nat n, md_capture_time_us = 0, md_user_data = []\<rparr>"

definition sample_key :: "nat \<Rightarrow> frame_key" where
  "sample_key n = \<lparr>fk_ssrc = 7, fk_rtp_timestamp = word_of_nat n\<rparr>"

lemma metadata_pairs_with_its_frame_witness:
  "take_all [(sample_key 1, sample_meta 1), (sample_key 2, sample_meta 2), (sample_key 3, sample_meta 3)]
     [sample_key 1, sample_key 3] = [Some (sample_meta 1), Some (sample_meta 3)]"
  using metadata_pairs_with_its_frame
    [of "[(sample_key 1, sample_meta 1), (sample_key 2, sample_meta 2), (sample_key 3, sample_meta 3)]"
        "[(sample_key 1, sample_meta 1), (sample_key 3, sample_meta 3)]"]
  by (simp add: sample_key_def)

section \<open>From the sending slot to the receiving one\<close>

text \<open>
  A frame as it arrives: the bytes the sender left in it, under the SSRC and the timestamp offset
  the receiver sees (a relay rewrites both), with \<open>ef_data\<close> the payload at that moment.
\<close>

definition arrive :: "u32 \<Rightarrow> u32 \<Rightarrow> encoded_frame \<Rightarrow> encoded_frame" where
  "arrive ssrc offset f =
     f\<lparr>ef_direction := ReceiveDir, ef_ssrc := ssrc, ef_timestamp := ef_timestamp f + offset,
       ef_data := ef_current f\<rparr>"

text \<open>Frames go through the sending slot, over the wire and through the receiving slot, one by
  one; the result is the payload each one ends with, the receiving slot and the world.\<close>

fun relay ::
  "(frame_metadata \<Rightarrow> bytes) \<Rightarrow> (bytes \<Rightarrow> frame_metadata option) \<Rightarrow> u32 \<Rightarrow> u32 \<Rightarrow> composed_slot \<Rightarrow>
   composed_slot \<Rightarrow> encoded_frame list \<Rightarrow> meta_world \<Rightarrow> bytes list \<times> composed_slot \<times> meta_world" where
  "relay enc dec ssrc off snd_slot rcv [] mw = ([], rcv, mw)"
| "relay enc dec ssrc off snd_slot rcv (f # fs) mw =
     (let (_, f1, snd1, mw1) = slot_run enc dec snd_slot f mw;
          (_, f2, rcv2, mw2) = slot_run enc dec rcv (arrive ssrc off f1) mw1;
          (ps, rest) = relay enc dec ssrc off snd1 rcv2 fs mw2
      in (ef_current f2 # ps, rest))"

text \<open>The queue entry a frame leaves.\<close>

definition entry_for :: "u32 \<Rightarrow> u32 \<Rightarrow> encoded_frame \<times> frame_metadata \<Rightarrow> frame_key \<times> frame_metadata" where
  "entry_for ssrc off = (\<lambda>(f, m). (\<lparr>fk_ssrc = ssrc, fk_rtp_timestamp = ef_timestamp f + off\<rparr>, m))"

lemma send_step:
  assumes "sl_caller s = None" "sl_meta s = Some (Embed src g)" "gate_is_open (mw_gates mw g)"
    and "mw_sources mw src = Fifo (m # ms)"
  shows "slot_run enc dec s f mw =
    (Forward, f\<lparr>ef_current := ef_current f @ encode_trailer enc m\<rparr>, s,
     mw\<lparr>mw_sources := (mw_sources mw)(src := Fifo ms)\<rparr>)"
  using assms
  by (simp add: slot_run_def run_embed_def source_take_def fifo_take_def replace_data_def current_data_def)

lemma receive_step:
  assumes "sl_caller r = None" "sl_meta r = Some (Strip q seen)"
    and "(ef_ssrc f, ef_timestamp f) \<notin> set seen" "length (mw_queues mw q) < RECEIVER_META_CAP"
    and "decode_and_strip_trailer dec (ef_current f) = Some (m, payload)"
  shows "slot_run enc dec r f mw =
    (Forward, f\<lparr>ef_current := payload\<rparr>,
     r\<lparr>sl_meta := Some (Strip q (push_capped SEEN_WINDOW seen (ef_ssrc f, ef_timestamp f)))\<rparr>,
     mw\<lparr>mw_queues := (mw_queues mw)
          (q := mw_queues mw q @ [(\<lparr>fk_ssrc = ef_ssrc f, fk_rtp_timestamp = ef_timestamp f\<rparr>, m)])\<rparr>)"
  using assms
  by (simp add: slot_run_def run_strip_def note_seen_def replace_data_def current_data_def
      push_capped_def Let_def)

lemma push_capped_set: "set (push_capped cap xs x) \<subseteq> insert x (set xs)"
  by (cases xs) (auto simp: push_capped_def)

lemma relay_run:
  assumes "sl_caller s = None" "sl_meta s = Some (Embed src g)" "gate_is_open (mw_gates mw g)"
    and "sl_caller r = None" "sl_meta r = Some (Strip q seen)"
    and "mw_sources mw src = Fifo ms" "length ms = length fs"
    and "\<forall>m \<in> set ms. dec (enc m) = Some m \<and> length (enc m) < 2 ^ 32"
    and "distinct (map ef_timestamp fs)"
    and "\<forall>f \<in> set fs. (ssrc, ef_timestamp f + off) \<notin> set seen"
    and "length (mw_queues mw q) + length fs \<le> RECEIVER_META_CAP"
  shows "fst (relay enc dec ssrc off s r fs mw) = map ef_current fs \<and>
    mw_queues (snd (snd (relay enc dec ssrc off s r fs mw))) q
      = mw_queues mw q @ map (entry_for ssrc off) (zip fs ms) \<and>
    mw_sources (snd (snd (relay enc dec ssrc off s r fs mw))) src = Fifo []"
  using assms
proof (induction fs arbitrary: mw r seen ms)
  case (Cons f fs)
  obtain m ms' where ms: "ms = m # ms'" "length ms' = length fs"
    using Cons.prems(7) by (cases ms) auto
  let ?mw1 = "mw\<lparr>mw_sources := (mw_sources mw)(src := Fifo ms')\<rparr>"
  let ?f1 = "f\<lparr>ef_current := ef_current f @ encode_trailer enc m\<rparr>"
  let ?key = "(ssrc, ef_timestamp f + off)"
  let ?f2 = "(arrive ssrc off ?f1)\<lparr>ef_current := ef_current f\<rparr>"
  let ?r2 = "r\<lparr>sl_meta := Some (Strip q (push_capped SEEN_WINDOW seen ?key))\<rparr>"
  let ?mw2 = "?mw1\<lparr>mw_queues := (mw_queues mw)
     (q := mw_queues mw q @ [entry_for ssrc off (f, m)])\<rparr>"
  have one: "slot_run enc dec s f mw = (Forward, ?f1, s, ?mw1)"
    using Cons.prems by (intro send_step) (simp_all add: ms)
  have coder: "dec (enc m) = Some m" "length (enc m) < 2 ^ 32" using Cons.prems(8) by (simp_all add: ms)
  have two: "slot_run enc dec r (arrive ssrc off ?f1) ?mw1 = (Forward, ?f2, ?r2, ?mw2)"
    using Cons.prems coder
    by (subst receive_step [where m = m and payload = "ef_current f"])
       (auto simp: arrive_def entry_for_def trailer_char encode_trailer_def Let_def)
  have fresh: "\<forall>f' \<in> set fs. (ssrc, ef_timestamp f' + off) \<notin> set (push_capped SEEN_WINDOW seen ?key)"
  proof
    fix f'
    assume f': "f' \<in> set fs"
    have "(ssrc, ef_timestamp f' + off) \<noteq> ?key" "(ssrc, ef_timestamp f' + off) \<notin> set seen"
      using Cons.prems(9,10) f' by (auto simp: image_iff)
    then show "(ssrc, ef_timestamp f' + off) \<notin> set (push_capped SEEN_WINDOW seen ?key)"
      using push_capped_set [of SEEN_WINDOW seen ?key] by blast
  qed
  have "fst (relay enc dec ssrc off s ?r2 fs ?mw2) = map ef_current fs \<and>
    mw_queues (snd (snd (relay enc dec ssrc off s ?r2 fs ?mw2))) q
      = mw_queues ?mw2 q @ map (entry_for ssrc off) (zip fs ms') \<and>
    mw_sources (snd (snd (relay enc dec ssrc off s ?r2 fs ?mw2))) src = Fifo []"
    using Cons.prems fresh by (intro Cons.IH) (simp_all add: ms)
  then show ?case by (simp add: one two ms case_prod_beta Let_def)
qed simp

text \<open>C4: Metadata crosses a connection with its frame. A sending slot whose gate is open embeds
  the metadata its source has for each frame, and a receiving slot strips it: over up to 300
  frames with distinct timestamps, under any SSRC and timestamp offset the receiver sees, every
  frame arrives with exactly the encoder's payload, the source is drained, and whichever frames
  the decoder goes on to deliver, each takes the metadata its own sender gave it.\<close>
theorem metadata_reaches_receiver:
  assumes "sl_caller s = None" and "sl_meta s = Some (Embed src g)" and "gate_is_open (mw_gates mw g)"
    and "sl_caller r = None" and "sl_meta r = Some (Strip q [])" and "mw_queues mw q = []"
    and "mw_sources mw src = Fifo (map snd sent)"
    and "\<forall>m \<in> snd ` set sent. dec (enc m) = Some m \<and> length (enc m) < 2 ^ 32"
    and "distinct (map (ef_timestamp \<circ> fst) sent)" and "length sent \<le> 300" and "ssrc \<noteq> 0"
    and "subseq delivered sent"
  shows "case relay enc dec ssrc off s r (map fst sent) mw of
     (payloads, _, mw') \<Rightarrow>
       payloads = map (ef_current \<circ> fst) sent \<and> mw_sources mw' src = Fifo [] \<and>
       take_all (mw_queues mw' q) (map (fst \<circ> entry_for ssrc off) delivered) = map (Some \<circ> snd) delivered"
proof -
  note run = relay_run [OF assms(1-5,7), of "map fst sent" dec enc ssrc off]
  have queue: "mw_queues (snd (snd (relay enc dec ssrc off s r (map fst sent) mw))) q
      = map (entry_for ssrc off) sent"
    using run assms by (simp add: RECEIVER_META_CAP_def zip_map_fst_snd)
  have "distinct (map fst (map (entry_for ssrc off) sent))"
  proof -
    have "map fst (map (entry_for ssrc off) sent)
        = map (\<lambda>t. \<lparr>fk_ssrc = ssrc, fk_rtp_timestamp = t + off\<rparr>) (map (ef_timestamp \<circ> fst) sent)"
      by (simp add: entry_for_def case_prod_beta comp_def)
    moreover have "inj (\<lambda>t. \<lparr>fk_ssrc = ssrc, fk_rtp_timestamp = t + off\<rparr>)" by (auto intro: injI)
    ultimately show ?thesis
      using assms(9) by (simp only: distinct_map) (auto intro: inj_on_subset)
  qed
  moreover have "\<forall>e \<in> set (map (entry_for ssrc off) sent). fk_ssrc (fst e) \<noteq> 0"
    using assms(11) by (auto simp: entry_for_def)
  moreover have "subseq (map (entry_for ssrc off) delivered) (map (entry_for ssrc off) sent)"
    using assms(12) by (rule subseq_map)
  ultimately have "take_all (map (entry_for ssrc off) sent) (map fst (map (entry_for ssrc off) delivered))
      = map (\<lambda>e. Some (snd e)) (map (entry_for ssrc off) delivered)"
    by (rule take_all_pairs)
  moreover have "snd (entry_for ssrc off e) = snd e" for e by (cases e) (simp add: entry_for_def)
  ultimately show ?thesis
    using run assms queue
    by (simp add: case_prod_beta RECEIVER_META_CAP_def comp_def)
qed

text \<open>Three frames with their metadata, of which the decoder loses the second.\<close>

definition sample_frame :: "nat \<Rightarrow> encoded_frame" where
  "sample_frame n = \<lparr>ef_direction = SendDir, ef_kind = Video, ef_is_key_frame = False,
     ef_payload_type = 96, ef_ssrc = 1, ef_timestamp = word_of_nat (90 * n), ef_capture_time_ms = int n,
     ef_mime_type = ''video/VP8'', ef_data = [word_of_nat n, 3], ef_current = [word_of_nat n, 3]\<rparr>"

definition sample_tagged :: "nat \<Rightarrow> frame_metadata" where
  "sample_tagged n = \<lparr>md_frame_id = 0, md_capture_time_us = 0, md_user_data = [word_of_nat n]\<rparr>"

definition sample_dec :: "bytes \<Rightarrow> frame_metadata option" where
  "sample_dec b = Some \<lparr>md_frame_id = 0, md_capture_time_us = 0, md_user_data = b\<rparr>"

definition sample_sent :: "(encoded_frame \<times> frame_metadata) list" where
  "sample_sent = map (\<lambda>n. (sample_frame n, sample_tagged n)) [1, 2, 3]"

definition sample_world :: meta_world where
  "sample_world = \<lparr>mw_sources = (\<lambda>_. Fifo (map snd sample_sent)), mw_gates = (\<lambda>_. gate_set gate_new True),
     mw_queues = (\<lambda>_. [])\<rparr>"

lemma metadata_reaches_receiver_witness:
  "case relay md_user_data sample_dec 7 5 (slot_default\<lparr>sl_meta := Some (Embed 0 0)\<rparr>)
     (slot_default\<lparr>sl_meta := Some (Strip 0 [])\<rparr>) (map fst sample_sent) sample_world of
   (payloads, _, mw') \<Rightarrow>
     payloads = map (ef_current \<circ> fst) sample_sent \<and> mw_sources mw' 0 = Fifo [] \<and>
     take_all (mw_queues mw' 0) (map (fst \<circ> entry_for 7 5) [sample_sent ! 0, sample_sent ! 2])
       = map (Some \<circ> snd) [sample_sent ! 0, sample_sent ! 2]"
  by (rule metadata_reaches_receiver)
     (simp_all add: sample_world_def sample_sent_def sample_frame_def sample_tagged_def sample_dec_def
       slot_default_def gate_is_open_def gate_set_def)

end
