(* ===== verification/Sender_Slots.thy ===== *)
theory Sender_Slots
  imports Sender_Meta_Props
begin

text \<open>
  The slots of all connections over their life (\<open>sender_meta.rs\<close>): any order of attaching the
  caller's transform and the metadata step composes both behind one native transformer, slots of
  different transceivers do not disturb each other, and the strip step's queue and window stay
  bounded.
\<close>

section \<open>Attaching\<close>

datatype attach_op =
    ACaller nat nat side_of encoded_cb
  | AEmbed nat nat nat nat
  | AStrip nat nat nat

fun attach_run :: "slot_map \<Rightarrow> attach_op \<Rightarrow> bool \<times> slot_map" where
  "attach_run m (ACaller pc tc side cb) = attach_caller m pc tc side cb"
| "attach_run m (AEmbed pc tc source g) = attach_embed m pc tc source g"
| "attach_run m (AStrip pc tc queue) = attach_strip m pc tc queue"

fun op_key :: "attach_op \<Rightarrow> slot_key" where
  "op_key (ACaller pc tc side cb) = (pc, tc, side)"
| "op_key (AEmbed pc tc source g) = (pc, tc, SendSide)"
| "op_key (AStrip pc tc queue) = (pc, tc, ReceiveSide)"

fun op_edit :: "attach_op \<Rightarrow> composed_slot \<Rightarrow> composed_slot" where
  "op_edit (ACaller pc tc side cb) s = set_caller s cb"
| "op_edit (AEmbed pc tc source g) s = set_meta s (Embed source g)"
| "op_edit (AStrip pc tc queue) s = set_meta s (Strip queue [])"

text \<open>The keys for which a native transformer was handed out, in order, and the slots after.\<close>

fun attach_all :: "slot_map \<Rightarrow> attach_op list \<Rightarrow> slot_key list \<times> slot_map" where
  "attach_all m [] = ([], m)"
| "attach_all m (op # ops) =
     (let (first, m') = attach_run m op; (natives, m'') = attach_all m' ops
      in (if first then op_key op # natives else natives, m''))"

lemma attach_with_step:
  "attach_with m pc tc side f =
     (if tc = 0 then (False, m)
      else case m (pc, tc, side) of
             None \<Rightarrow> (\<not> sl_installed (f slot_default),
                       m((pc, tc, side) := Some ((f slot_default)\<lparr>sl_installed := True\<rparr>)))
           | Some s \<Rightarrow> (\<not> sl_installed (f s), m((pc, tc, side) := Some ((f s)\<lparr>sl_installed := True\<rparr>))))"
  by (simp add: attach_with_def slot_for_def claim_install_def split: option.split)

lemma attach_run_step:
  "attach_run m op =
     (if fst (snd (op_key op)) = 0 then (False, m)
      else (case m (op_key op) of None \<Rightarrow> True | Some s \<Rightarrow> \<not> sl_installed s,
            m(op_key op := Some ((op_edit op (case m (op_key op) of None \<Rightarrow> slot_default | Some s \<Rightarrow> s))
                                   \<lparr>sl_installed := True\<rparr>))))"
  by (cases op) (auto simp: attach_caller_def attach_embed_def attach_strip_def attach_with_step
      set_caller_def set_meta_def slot_default_def split: option.splits)

text \<open>What a slot should hold after its own attachments: the last caller, the last metadata
  step.\<close>

fun last_caller :: "attach_op list \<Rightarrow> encoded_cb option \<Rightarrow> encoded_cb option" where
  "last_caller [] c = c"
| "last_caller (ACaller _ _ _ cb # ops) c = last_caller ops (Some cb)"
| "last_caller (_ # ops) c = last_caller ops c"

fun last_step :: "attach_op list \<Rightarrow> meta_step option \<Rightarrow> meta_step option" where
  "last_step [] c = c"
| "last_step (AEmbed _ _ source g # ops) c = last_step ops (Some (Embed source g))"
| "last_step (AStrip _ _ queue # ops) c = last_step ops (Some (Strip queue []))"
| "last_step (ACaller _ _ _ _ # ops) c = last_step ops c"

lemma attach_all_known:
  assumes "fst (snd k) \<noteq> 0" "m k = Some s" "sl_installed s"
  shows "k \<notin> set (fst (attach_all m ops)) \<and>
    snd (attach_all m ops) k = Some \<lparr>sl_caller = last_caller (filter (\<lambda>op. op_key op = k) ops) (sl_caller s),
      sl_meta = last_step (filter (\<lambda>op. op_key op = k) ops) (sl_meta s), sl_installed = True\<rparr>"
  using assms
proof (induction ops arbitrary: m s)
  case Nil
  then show ?case by simp
next
  case (Cons op ops)
  show ?case
  proof (cases "op_key op = k")
    case True
    have "snd (attach_run m op) k = Some ((op_edit op s)\<lparr>sl_installed := True\<rparr>)" "\<not> fst (attach_run m op)"
      using Cons.prems True by (simp_all add: attach_run_step)
    with Cons.IH [OF Cons.prems(1), of "snd (attach_run m op)" "(op_edit op s)\<lparr>sl_installed := True\<rparr>"]
    show ?thesis using True
      by (cases op) (simp_all add: case_prod_beta Let_def set_caller_def set_meta_def)
  next
    case False
    then have "snd (attach_run m op) k = m k" by (simp add: attach_run_step)
    with Cons.IH [OF Cons.prems(1), of "snd (attach_run m op)" s] Cons.prems False
    show ?thesis by (simp add: case_prod_beta Let_def)
  qed
qed

lemma attach_all_new:
  assumes "fst (snd k) \<noteq> 0" "m k = None"
  shows "count_list (fst (attach_all m ops)) k = (if \<exists>op \<in> set ops. op_key op = k then 1 else 0) \<and>
    snd (attach_all m ops) k =
      (if \<exists>op \<in> set ops. op_key op = k
       then Some \<lparr>sl_caller = last_caller (filter (\<lambda>op. op_key op = k) ops) None,
              sl_meta = last_step (filter (\<lambda>op. op_key op = k) ops) None, sl_installed = True\<rparr>
       else None)"
  using assms
proof (induction ops arbitrary: m)
  case Nil
  then show ?case by simp
next
  case (Cons op ops)
  show ?case
  proof (cases "op_key op = k")
    case True
    have run: "attach_run m op = (True, m(k := Some ((op_edit op slot_default)\<lparr>sl_installed := True\<rparr>)))"
      using Cons.prems True by (simp add: attach_run_step)
    have known: "k \<notin> set (fst (attach_all (snd (attach_run m op)) ops)) \<and>
        snd (attach_all (snd (attach_run m op)) ops) k =
        Some \<lparr>sl_caller = last_caller (filter (\<lambda>op. op_key op = k) ops) (sl_caller (op_edit op slot_default)),
          sl_meta = last_step (filter (\<lambda>op. op_key op = k) ops) (sl_meta (op_edit op slot_default)),
          sl_installed = True\<rparr>"
      using attach_all_known [OF Cons.prems(1), of "snd (attach_run m op)"
          "(op_edit op slot_default)\<lparr>sl_installed := True\<rparr>" ops]
      by (simp add: run)
    then have "count_list (fst (attach_all (snd (attach_run m op)) ops)) k = 0"
      by (simp add: count_list_0_iff)
    with known run show ?thesis using True
      by (cases op) (simp_all add: case_prod_beta Let_def set_caller_def set_meta_def slot_default_def)
  next
    case False
    then have "snd (attach_run m op) k = None" using Cons.prems by (simp add: attach_run_step)
    with Cons.IH [OF Cons.prems(1), of "snd (attach_run m op)"] False
    show ?thesis by (simp add: case_prod_beta Let_def)
  qed
qed

text \<open>C20: A transceiver's transform and its metadata step compose in any order. After any sequence
  of attachments on fresh slots, the native transformer of each side was handed out exactly once if
  anything was attached there and never otherwise, and the slot holds the last caller and the last
  metadata step attached to it, whichever came first; a transceiver without a native identity has
  no slot.\<close>
theorem attachments_compose:
  "case attach_all (\<lambda>_. None) ops of (natives, m) \<Rightarrow>
     count_list natives k = (if fst (snd k) \<noteq> 0 \<and> (\<exists>op. op \<in> set ops \<and> op_key op = k) then 1 else 0) \<and>
     m k = (if fst (snd k) \<noteq> 0 \<and> (\<exists>op. op \<in> set ops \<and> op_key op = k)
            then Some \<lparr>sl_caller = last_caller (filter (\<lambda>op. op_key op = k) ops) None,
                   sl_meta = last_step (filter (\<lambda>op. op_key op = k) ops) None, sl_installed = True\<rparr>
            else None)"
proof (cases "fst (snd k) = 0")
  case True
  have "m k = None \<Longrightarrow> count_list (fst (attach_all m ops)) k = 0 \<and> snd (attach_all m ops) k = None" for m
  proof (induction ops arbitrary: m)
    case (Cons op ops)
    have "snd (attach_run m op) k = None" "fst (attach_run m op) \<longrightarrow> op_key op \<noteq> k"
      using True Cons.prems by (auto simp: attach_run_step)
    with Cons.IH [of "snd (attach_run m op)"] show ?case by (simp add: case_prod_beta Let_def)
  qed simp
  then show ?thesis using True by (simp add: case_prod_beta)
next
  case False
  then show ?thesis using attach_all_new [OF False, of "\<lambda>_. None" ops] by (simp add: case_prod_beta Bex_def)
qed

section \<open>Separation\<close>

text \<open>Transceivers do not disturb each other's slots. Each operation on the slots, given
  slot by slot: attaching and releasing change the one slot of their key, making it if needed;
  a new metadata source replaces the old one only in an installed embed slot; forgetting removes
  both sides of its transceiver and nothing else; and a prune takes from its own connection
  exactly the slots whose transceiver is gone, so a recycled native address on another connection
  keeps its slot. Without a native identity nothing changes.\<close>
theorem slots_are_separate:
  "snd (attach_run m op) k =
     (if k = op_key op \<and> fst (snd k) \<noteq> 0
      then Some ((op_edit op (case m k of None \<Rightarrow> slot_default | Some s \<Rightarrow> s))\<lparr>sl_installed := True\<rparr>)
      else m k)
   \<and> release_install m pc tc side k =
     (if k = (pc, tc, side) \<and> tc \<noteq> 0
      then Some ((case m k of None \<Rightarrow> slot_default | Some s \<Rightarrow> s)\<lparr>sl_installed := False\<rparr>) else m k)
   \<and> update_embed_source m pc tc source k =
     (if k = (pc, tc, SendSide) \<and> tc \<noteq> 0
      then (case m k of
              None \<Rightarrow> Some slot_default
            | Some s \<Rightarrow> (case sl_meta s of
                          Some (Embed _ g) \<Rightarrow> if sl_installed s then Some (s\<lparr>sl_meta := Some (Embed source g)\<rparr>)
                                             else Some s
                        | _ \<Rightarrow> Some s))
      else m k)
   \<and> forget_transceiver m pc tc k = (if tc \<noteq> 0 \<and> fst k = pc \<and> fst (snd k) = tc then None else m k)
   \<and> prune_stale_slots m pc live k = (if fst k = pc \<and> fst (snd k) \<notin> set live then None else m k)"
proof (intro conjI)
  show "snd (attach_run m op) k =
     (if k = op_key op \<and> fst (snd k) \<noteq> 0
      then Some ((op_edit op (case m k of None \<Rightarrow> slot_default | Some s \<Rightarrow> s))\<lparr>sl_installed := True\<rparr>)
      else m k)"
    by (auto simp: attach_run_step)
  show "release_install m pc tc side k =
     (if k = (pc, tc, side) \<and> tc \<noteq> 0
      then Some ((case m k of None \<Rightarrow> slot_default | Some s \<Rightarrow> s)\<lparr>sl_installed := False\<rparr>) else m k)"
    by (auto simp: release_install_def slot_for_def update_slot_def split: option.splits)
  show "update_embed_source m pc tc source k =
     (if k = (pc, tc, SendSide) \<and> tc \<noteq> 0
      then (case m k of
              None \<Rightarrow> Some slot_default
            | Some s \<Rightarrow> (case sl_meta s of
                          Some (Embed _ g) \<Rightarrow> if sl_installed s then Some (s\<lparr>sl_meta := Some (Embed source g)\<rparr>)
                                             else Some s
                        | _ \<Rightarrow> Some s))
      else m k)"
    by (auto simp: update_embed_source_def slot_for_def update_slot_def slot_default_def
        split: option.splits meta_step.splits)
  show "forget_transceiver m pc tc k = (if tc \<noteq> 0 \<and> fst k = pc \<and> fst (snd k) = tc then None else m k)"
    by (cases k, cases "snd (snd k)") (auto simp: forget_transceiver_def)
  show "prune_stale_slots m pc live k = (if fst k = pc \<and> fst (snd k) \<notin> set live then None else m k)"
    by (cases k) (simp add: prune_stale_slots_def)
qed

section \<open>Bounds\<close>

text \<open>The queues stay within their cap and the dedup window within its own.\<close>

definition queues_bounded :: "meta_world \<Rightarrow> bool" where
  "queues_bounded mw \<longleftrightarrow> (\<forall>q. length (mw_queues mw q) \<le> RECEIVER_META_CAP)"

definition window_bounded :: "composed_slot \<Rightarrow> bool" where
  "window_bounded s \<longleftrightarrow>
     (case sl_meta s of Some (Strip _ seen) \<Rightarrow> length seen \<le> SEEN_WINDOW \<and> distinct seen | _ \<Rightarrow> True)"

lemma push_capped_length: "0 < cap \<Longrightarrow> length xs \<le> cap \<Longrightarrow> length (push_capped cap xs x) \<le> cap"
  by (auto simp: push_capped_def)

lemma push_capped_distinct: "x \<notin> set xs \<Longrightarrow> distinct xs \<Longrightarrow> distinct (push_capped cap xs x)"
  by (cases xs) (auto simp: push_capped_def)

lemma run_embed_queues: "mw_queues (snd (run_embed enc src g f mw)) = mw_queues mw"
  by (simp add: run_embed_def Let_def split: prod.split option.split)

lemma run_strip_bounded:
  assumes "queues_bounded mw" "length seen \<le> SEEN_WINDOW" "distinct seen"
  shows "case run_strip dec queue seen f mw of (_, seen', mw') \<Rightarrow>
    queues_bounded mw' \<and> length seen' \<le> SEEN_WINDOW \<and> distinct seen'"
proof (cases "decode_and_strip_trailer dec (current_data f)")
  case None
  then show ?thesis using assms by (simp add: run_strip_def)
next
  case (Some p)
  have "0 < RECEIVER_META_CAP" "0 < SEEN_WINDOW" by (simp_all add: RECEIVER_META_CAP_def SEEN_WINDOW_def)
  then show ?thesis
    using assms Some
    by (auto simp: run_strip_def note_seen_def queues_bounded_def Let_def case_prod_beta
        intro: push_capped_length push_capped_distinct)
qed

lemma slot_run_bounded:
  assumes "queues_bounded mw" "window_bounded s"
  shows "case slot_run enc dec s f mw of (_, _, s', mw') \<Rightarrow> queues_bounded mw' \<and> window_bounded s'"
proof -
  obtain act f1 where caller: "(case sl_caller s of None \<Rightarrow> (Forward, f) | Some cb \<Rightarrow> cb f) = (act, f1)"
    by fastforce
  show ?thesis
  proof (cases "act = DropFrame \<or> sl_meta s = None")
    case True
    then show ?thesis using assms caller by (auto simp: slot_run_def Let_def)
  next
    case False
    then obtain step where step: "sl_meta s = Some step" by blast
    show ?thesis
    proof (cases step)
      case (Embed src g)
      have "queues_bounded (snd (run_embed enc src g f1 mw))"
        using assms(1) by (simp add: queues_bounded_def run_embed_queues)
      then show ?thesis
        using False caller step Embed assms by (simp add: slot_run_def case_prod_beta)
    next
      case (Strip q seen)
      have "length seen \<le> SEEN_WINDOW" "distinct seen"
        using assms(2) step Strip by (simp_all add: window_bounded_def)
      from run_strip_bounded [OF assms(1) this, of dec q f1]
      show ?thesis
        using False caller step Strip by (simp add: slot_run_def case_prod_beta window_bounded_def)
    qed
  qed
qed

text \<open>Any number of slots run any frames in any interleaving: a step runs one slot of a list.\<close>

definition run_nth ::
  "(frame_metadata \<Rightarrow> bytes) \<Rightarrow> (bytes \<Rightarrow> frame_metadata option) \<Rightarrow> composed_slot list \<times> meta_world
    \<Rightarrow> nat \<times> encoded_frame \<Rightarrow> composed_slot list \<times> meta_world" where
  "run_nth enc dec st step =
     (case st of (slots, mw) \<Rightarrow> case step of (i, f) \<Rightarrow>
        if i < length slots
        then case slot_run enc dec (slots ! i) f mw of (_, _, s', mw') \<Rightarrow> (slots[i := s'], mw')
        else (slots, mw))"

lemma run_nth_bounded:
  assumes "queues_bounded (snd st)" "list_all window_bounded (fst st)"
  shows "queues_bounded (snd (run_nth enc dec st step)) \<and> list_all window_bounded (fst (run_nth enc dec st step))"
proof (cases "fst step < length (fst st)")
  case True
  then have "window_bounded (fst st ! fst step)" using assms(2) by (simp add: list_all_length)
  from slot_run_bounded [OF assms(1) this, of enc dec "snd step"] True assms(2)
  show ?thesis
    by (auto simp: run_nth_def case_prod_beta list_all_length nth_list_update)
qed (use assms in \<open>simp add: run_nth_def case_prod_beta\<close>)

text \<open>C25: Metadata that nobody collects does not pile up. Whatever frames arrive on whatever slots
  in whatever order, with callers that may rewrite or drop them, every receive queue holds at most
  300 entries and every dedup window at most 32 frames, each once.\<close>
theorem receive_state_bounded:
  assumes "list_all window_bounded slots" and "queues_bounded mw"
  shows "case foldl (run_nth enc dec) (slots, mw) steps of
     (slots', mw') \<Rightarrow> queues_bounded mw' \<and> list_all window_bounded slots'"
proof -
  have "queues_bounded (snd st) \<Longrightarrow> list_all window_bounded (fst st) \<Longrightarrow>
    queues_bounded (snd (foldl (run_nth enc dec) st steps)) \<and>
    list_all window_bounded (fst (foldl (run_nth enc dec) st steps))" for st
  proof (induction steps arbitrary: st)
    case (Cons a steps)
    then show ?case using run_nth_bounded [OF Cons.prems, of enc dec a] by simp
  qed simp
  from this [of "(slots, mw)"] show ?thesis using assms by (simp add: case_prod_beta)
qed

lemma receive_state_bounded_witness:
  "case foldl (run_nth md_user_data (\<lambda>b. None))
     ([slot_default, slot_default\<lparr>sl_meta := Some (Strip 0 [])\<rparr>],
      \<lparr>mw_sources = (\<lambda>_. Fifo []), mw_gates = (\<lambda>_. False), mw_queues = (\<lambda>_. [])\<rparr>) [(0, sample_frame 1), (1, sample_frame 2)] of
   (slots', mw') \<Rightarrow> queues_bounded mw' \<and> list_all window_bounded slots'"
  by (rule receive_state_bounded) (simp_all add: window_bounded_def slot_default_def queues_bounded_def)

end
