(* ===== verification/Media.thy ===== *)
theory Media
  imports Sender_Meta Rust_Error "HOL-Library.Signed_Division"
begin

text \<open>
  Media tracks (\<open>crates/reactor-webrtc/src/media.rs\<close>): the checks of a pushed frame, the
  capture stamp and frame id it is given, the metadata kept for it, what reaches the native track,
  and the sinks of received frames.

  The native track is what was pushed into it: a list of \<open>native_push\<close>. The clock is an
  argument (\<open>now\<close>, in microseconds). An \<open>i64\<close> is an integer, and arithmetic on it that can
  leave the range goes through \<open>i64_wrap\<close>, as in a release build (a debug build panics there).
\<close>

section \<open>Signed 64-bit arithmetic\<close>

definition i64_wrap :: "int \<Rightarrow> int" where "i64_wrap x = signed_take_bit 63 x"

lemma i64_wrap_id [simp]: "- (2 ^ 63) \<le> x \<Longrightarrow> x < 2 ^ 63 \<Longrightarrow> i64_wrap x = x"
  by (simp add: i64_wrap_def signed_take_bit_int_eq_self)

section \<open>Frames\<close>

datatype pixel_format = Bgra | Rgb24

fun bytes_per_pixel :: "pixel_format \<Rightarrow> nat" where
  "bytes_per_pixel Bgra = 4"
| "bytes_per_pixel Rgb24 = 3"

fun pf_raw :: "pixel_format \<Rightarrow> int" where
  "pf_raw Bgra = 0"
| "pf_raw Rgb24 = 1"

fun pf_name :: "pixel_format \<Rightarrow> string" where
  "pf_name Bgra = ''BGRA''"
| "pf_name Rgb24 = ''RGB24''"

record video_frame =
  vf_pixels :: bytes
  vf_width :: u32
  vf_height :: u32
  vf_format :: pixel_format
  vf_metadata :: "frame_metadata option"

definition vf_new :: "bytes \<Rightarrow> u32 \<Rightarrow> u32 \<Rightarrow> video_frame" where
  "vf_new pixels width height =
     \<lparr>vf_pixels = pixels, vf_width = width, vf_height = height, vf_format = Bgra, vf_metadata = None\<rparr>"

definition with_format :: "video_frame \<Rightarrow> pixel_format \<Rightarrow> video_frame" where
  "with_format f format = f\<lparr>vf_format := format\<rparr>"

record audio_frame =
  af_pcm :: "16 word list"
  af_sample_rate :: u32
  af_channels :: u32
  af_frames :: u32

definition af_new :: "16 word list \<Rightarrow> u32 \<Rightarrow> u32 \<Rightarrow> audio_frame" where
  "af_new pcm sample_rate channels =
     \<lparr>af_pcm = pcm, af_sample_rate = sample_rate, af_channels = channels,
      af_frames = (if channels = 0 then 0 else word_of_nat (length pcm div unat channels))\<rparr>"

text \<open>\<open>usize::checked_mul\<close>.\<close>

definition checked_mul :: "nat \<Rightarrow> nat \<Rightarrow> nat option" where
  "checked_mul a b = (if a * b < 2 ^ 64 then Some (a * b) else None)"

definition check_frame :: "video_frame \<Rightarrow> unit result" where
  "check_frame f =
     (let name = pf_name (vf_format f) in
      if vf_width f = 0 \<or> vf_height f = 0
      then Inl (Webrtc (Fmt ''a {} frame needs a size, got {}x{}''
                  [AStr name, ANat (unat (vf_width f)), ANat (unat (vf_height f))]))
      else case Option.bind (checked_mul (unat (vf_width f)) (unat (vf_height f)))
                  (\<lambda>n. checked_mul n (bytes_per_pixel (vf_format f))) of
             None \<Rightarrow> Inl (Webrtc (Fmt ''a {} frame of {}x{} is too large''
                       [AStr name, ANat (unat (vf_width f)), ANat (unat (vf_height f))]))
           | Some needed \<Rightarrow>
               if length (vf_pixels f) < needed
               then Inl (Webrtc (Fmt ''a {} frame of {}x{} is {} bytes, got {}''
                      [AStr name, ANat (unat (vf_width f)), ANat (unat (vf_height f)), ANat needed,
                       ANat (length (vf_pixels f))]))
               else Inr ())"

section \<open>Capture stamps and frame ids\<close>

text \<open>One pass of the compare-and-exchange loop: the value it tries to store.\<close>

definition next_capture :: "int \<Rightarrow> int \<Rightarrow> int" where
  "next_capture prev raw_ms = max raw_ms (i64_wrap (prev + 1))"

text \<open>The loop with nobody else storing; \<open>Media_Props\<close> has it with any number of threads.\<close>

definition next_unique_capture_ms :: "int \<Rightarrow> int \<Rightarrow> int \<times> int" where
  "next_unique_capture_ms prev raw_ms = (let next = next_capture prev raw_ms in (next, next))"

section \<open>Tracks\<close>

datatype native_push =
    PushNow bytes u32 u32
  | PushTs bytes u32 u32 int
  | PushFormatTs bytes u32 u32 int int
  | PushPcmTs "16 word list" nat u32 u32 int

record track =
  tk_kind :: media_kind
  tk_sender_meta :: capture_time_meta
  tk_native_id :: nat
  tk_frame_counter :: u64
  tk_last_send_ms :: int
  tk_is_remote :: bool
  tk_metadata_enabled :: bool
  tk_native :: "native_push list"

definition native_push :: "track \<Rightarrow> native_push \<Rightarrow> track" where
  "native_push t p = t\<lparr>tk_native := tk_native t @ [p]\<rparr>"

definition SENDER_META_CAP :: nat where "SENDER_META_CAP = 300"

definition alloc_send_capture_us :: "track \<Rightarrow> int \<Rightarrow> int option \<Rightarrow> int \<times> track" where
  "alloc_send_capture_us t now requested =
     (let raw_ms = (case requested of Some us \<Rightarrow> us sdiv 1000 | None \<Rightarrow> now sdiv 1000);
          (ms, last_ms) = next_unique_capture_ms (tk_last_send_ms t) raw_ms
      in (i64_wrap (ms * 1000), t\<lparr>tk_last_send_ms := last_ms\<rparr>))"

definition next_frame_id :: "track \<Rightarrow> u64 \<times> track" where
  "next_frame_id t =
     (let raw = tk_frame_counter t in
      (if raw = - 1 then 1 else raw + 1, t\<lparr>tk_frame_counter := raw + 1\<rparr>))"

definition insert_meta :: "capture_time_meta \<Rightarrow> int \<Rightarrow> frame_metadata \<Rightarrow> capture_time_meta" where
  "insert_meta c capture_ms meta =
     (let c1 = (if length (cm_order c) \<ge> SENDER_META_CAP
                then (case cm_order c of
                        [] \<Rightarrow> c
                      | old_key # rest \<Rightarrow> c\<lparr>cm_map := (cm_map c)(old_key := None), cm_order := rest\<rparr>)
                else c)
      in c1\<lparr>cm_map := (case cm_map c1 capture_ms of
                          Some _ \<Rightarrow> cm_map c1 | None \<Rightarrow> (cm_map c1)(capture_ms := Some meta)),
            cm_order := cm_order c1 @ [capture_ms]\<rparr>)"

definition insert_sender_meta :: "track \<Rightarrow> int \<Rightarrow> frame_metadata \<Rightarrow> track" where
  "insert_sender_meta t capture_ms meta =
     t\<lparr>tk_sender_meta := insert_meta (tk_sender_meta t) capture_ms meta\<rparr>"

definition push_video_frame_now :: "track \<Rightarrow> bytes \<Rightarrow> u32 \<Rightarrow> u32 \<Rightarrow> track" where
  "push_video_frame_now t bgra w h =
     (if tk_kind t \<noteq> Video then t else native_push t (PushNow bgra w h))"

definition push_video_frame_ts :: "track \<Rightarrow> bytes \<Rightarrow> u32 \<Rightarrow> u32 \<Rightarrow> int \<Rightarrow> track" where
  "push_video_frame_ts t bgra w h capture_us = native_push t (PushTs bgra w h capture_us)"

definition push_pixels_ts :: "track \<Rightarrow> bytes \<Rightarrow> u32 \<Rightarrow> u32 \<Rightarrow> int \<Rightarrow> int \<Rightarrow> track" where
  "push_pixels_ts t pixels w h capture_us format =
     (if tk_kind t \<noteq> Video then t else native_push t (PushFormatTs pixels w h capture_us format))"

definition push_metadata_frame ::
  "track \<Rightarrow> int \<Rightarrow> bytes \<Rightarrow> u32 \<Rightarrow> u32 \<Rightarrow> bytes \<Rightarrow> int option \<Rightarrow> int \<Rightarrow> track" where
  "push_metadata_frame t now pixels w h user_data capture_time_us format =
     (if tk_kind t \<noteq> Video then t
      else
        (let declared = (case capture_time_us of Some us \<Rightarrow> us | None \<Rightarrow> now);
             (capture_us, t1) = alloc_send_capture_us t now (Some declared);
             (frame_id, t2) = next_frame_id t1;
             meta = \<lparr>md_frame_id = frame_id, md_capture_time_us = word_of_int (max declared 0),
                     md_user_data = user_data\<rparr>;
             t3 = insert_sender_meta t2 (capture_us sdiv 1000) meta
         in push_pixels_ts t3 pixels w h capture_us format))"

definition push_pcm_inner ::
  "track \<Rightarrow> 16 word list \<Rightarrow> u32 \<Rightarrow> u32 \<Rightarrow> int \<Rightarrow> unit result \<times> track" where
  "push_pcm_inner t pcm sample_rate channels capture_time_ms =
     (if channels = 0 then (Inl (Webrtc (Text ''channels must be at least 1'')), t)
      else if length pcm mod unat channels \<noteq> 0
      then (Inl (Webrtc (Fmt ''pcm length ({}) is not a multiple of channels ({})''
                   [ANat (length pcm), ANat (unat channels)])), t)
      else (Inr (), native_push t
              (PushPcmTs pcm (length pcm div unat channels) sample_rate channels capture_time_ms)))"

section \<open>Video tracks\<close>

definition guard_remote :: "track \<Rightarrow> unit result" where
  "guard_remote t =
     (if tk_is_remote t then Inl (Webrtc (Text ''cannot push frames onto a remote track'')) else Inr ())"

definition push_unmarked :: "track \<Rightarrow> int \<Rightarrow> video_frame \<Rightarrow> int option \<Rightarrow> track" where
  "push_unmarked t now f capture_time_us =
     (case (vf_format f, capture_time_us) of
        (Bgra, None) \<Rightarrow> push_video_frame_now t (vf_pixels f) (vf_width f) (vf_height f)
      | (Bgra, Some us) \<Rightarrow> push_video_frame_ts t (vf_pixels f) (vf_width f) (vf_height f) us
      | (format, us) \<Rightarrow>
          push_pixels_ts t (vf_pixels f) (vf_width f) (vf_height f)
            (case us of Some x \<Rightarrow> x | None \<Rightarrow> now) (pf_raw format))"

text \<open>The two checks every video push starts with.\<close>

definition checked :: "track \<Rightarrow> video_frame \<Rightarrow> track \<Rightarrow> unit result \<times> track" where
  "checked t f after =
     (case res_bind (guard_remote t) (\<lambda>_. check_frame f) of Inl e \<Rightarrow> (Inl e, t) | Inr _ \<Rightarrow> (Inr (), after))"

definition vt_push_frame :: "track \<Rightarrow> int \<Rightarrow> video_frame \<Rightarrow> unit result \<times> track" where
  "vt_push_frame t now f = checked t f (push_unmarked t now f None)"

definition vt_push_frame_at :: "track \<Rightarrow> int \<Rightarrow> video_frame \<Rightarrow> int \<Rightarrow> unit result \<times> track" where
  "vt_push_frame_at t now f us = checked t f (push_unmarked t now f (Some us))"

definition push_with_metadata ::
  "track \<Rightarrow> int \<Rightarrow> video_frame \<Rightarrow> bytes \<Rightarrow> int option \<Rightarrow> unit result \<times> track" where
  "push_with_metadata t now f user_data us =
     checked t f
       (if tk_metadata_enabled t
        then push_metadata_frame t now (vf_pixels f) (vf_width f) (vf_height f) user_data us
               (pf_raw (vf_format f))
        else push_unmarked t now f us)"

definition vt_push_frame_with_metadata ::
  "track \<Rightarrow> int \<Rightarrow> video_frame \<Rightarrow> bytes \<Rightarrow> unit result \<times> track" where
  "vt_push_frame_with_metadata t now f user_data = push_with_metadata t now f user_data None"

definition vt_push_frame_with_metadata_at ::
  "track \<Rightarrow> int \<Rightarrow> video_frame \<Rightarrow> bytes \<Rightarrow> int \<Rightarrow> unit result \<times> track" where
  "vt_push_frame_with_metadata_at t now f user_data us = push_with_metadata t now f user_data (Some us)"

section \<open>Audio tracks\<close>

definition at_push_frame :: "track \<Rightarrow> audio_frame \<Rightarrow> unit result \<times> track" where
  "at_push_frame t f =
     (case guard_remote t of
        Inl e \<Rightarrow> (Inl e, t)
      | Inr _ \<Rightarrow> push_pcm_inner t (af_pcm f) (af_sample_rate f) (af_channels f) 0)"

definition at_push_frame_at :: "track \<Rightarrow> audio_frame \<Rightarrow> int \<Rightarrow> unit result \<times> track" where
  "at_push_frame_at t f us =
     (case guard_remote t of
        Inl e \<Rightarrow> (Inl e, t)
      | Inr _ \<Rightarrow> push_pcm_inner t (af_pcm f) (af_sample_rate f) (af_channels f) (us sdiv 1000))"

section \<open>Creating and dropping a track\<close>

text \<open>The process-wide registries, with the identities a track's source and queue have.\<close>

record registries =
  rg_send :: weak_map
  rg_recv :: weak_map
  rg_allowed :: allow_map
  rg_feedback :: "nat \<Rightarrow> nat option"

definition from_raw_with_registry ::
  "registries \<Rightarrow> nat \<Rightarrow> nat \<Rightarrow> nat \<Rightarrow> media_kind \<Rightarrow> bool \<Rightarrow> bool \<Rightarrow> track \<times> registries" where
  "from_raw_with_registry rg native_id source queue kind is_remote metadata_enabled =
     (\<lparr>tk_kind = kind, tk_sender_meta = cm_default, tk_native_id = native_id, tk_frame_counter = 0,
       tk_last_send_ms = 0, tk_is_remote = is_remote, tk_metadata_enabled = metadata_enabled,
       tk_native = []\<rparr>,
      if kind = Video
      then rg\<lparr>rg_send := register (rg_send rg) native_id source,
              rg_recv := register_receiver (rg_recv rg) native_id queue,
              rg_allowed := register_allowed (rg_allowed rg) native_id metadata_enabled\<rparr>
      else rg)"

definition track_drop :: "registries \<Rightarrow> nat \<Rightarrow> nat \<Rightarrow> track \<Rightarrow> registries" where
  "track_drop rg source queue t =
     (if tk_kind t = Video
      then rg\<lparr>rg_send := deregister (rg_send rg) (tk_native_id t) source,
              rg_recv := deregister_receiver (rg_recv rg) (tk_native_id t) queue,
              rg_allowed := deregister_allowed (rg_allowed rg) (tk_native_id t),
              rg_feedback := (rg_feedback rg)(tk_native_id t := None)\<rparr>
      else rg)"

section \<open>Sinks\<close>

record sink_timings =
  vs_convert :: nat
  vs_frames :: nat

record raw_sink_frame =
  rf_pixels :: bytes
  rf_width :: u32
  rf_height :: u32
  rf_metadata :: "frame_metadata option"

definition U64_MAX :: nat where "U64_MAX = 2 ^ 64 - 1"

text \<open>\<open>pixels\<close> is the memory the native sink points to, which holds at least the frame.\<close>

definition video_sink_tramp ::
  "pixel_format \<Rightarrow> sink_timings \<Rightarrow> receiver_queue \<Rightarrow> bytes \<Rightarrow> u32 \<Rightarrow> u32 \<Rightarrow> u32 \<Rightarrow> u32 \<Rightarrow> int \<Rightarrow> nat
     \<Rightarrow> (raw_sink_frame \<times> nat) \<times> sink_timings \<times> receiver_queue" where
  "video_sink_tramp format totals q pixels width height ssrc rtp_timestamp convert_ns elapsed =
     (let len = unat ((scast width :: u64) * scast height * word_of_nat (bytes_per_pixel format));
          (metadata, q') = take_receiver_meta q ssrc rtp_timestamp;
          here_ns = min elapsed U64_MAX;
          convert = min (nat (max convert_ns 0) + here_ns) U64_MAX
      in ((\<lparr>rf_pixels = take len pixels, rf_width = width, rf_height = height, rf_metadata = metadata\<rparr>, convert),
          totals\<lparr>vs_convert := vs_convert totals + convert, vs_frames := vs_frames totals + 1\<rparr>, q'))"

text \<open>The public wrapper shapes the sink's frame into a \<open>VideoFrame\<close> of its format.\<close>

definition shape_frame :: "pixel_format \<Rightarrow> raw_sink_frame \<Rightarrow> video_frame" where
  "shape_frame format r =
     \<lparr>vf_pixels = rf_pixels r, vf_width = rf_width r, vf_height = rf_height r, vf_format = format,
      vf_metadata = rf_metadata r\<rparr>"

definition audio_sink_tramp :: "16 word list \<Rightarrow> u32 \<Rightarrow> u32 \<Rightarrow> u32 \<Rightarrow> audio_frame" where
  "audio_sink_tramp pcm sample_rate channels frames =
     \<lparr>af_pcm = take (unat ((scast frames :: u64) * scast channels)) pcm, af_sample_rate = sample_rate,
      af_channels = channels, af_frames = frames\<rparr>"

end
