(* ===== verification/Media_Props.thy ===== *)
theory Media_Props
  imports Media Sender_Meta_Props
begin

text \<open>
  What the track operations promise: which pushes are accepted and what they hand to the native
  track, that every frame pushed with metadata finds its own record under its capture millisecond,
  and that concurrent pushes never share one.
\<close>

section \<open>Which frames are accepted\<close>

definition frame_bytes :: "video_frame \<Rightarrow> nat" where
  "frame_bytes f = unat (vf_width f) * unat (vf_height f) * bytes_per_pixel (vf_format f)"

lemma bytes_per_pixel_pos [simp]: "0 < bytes_per_pixel p"
  by (cases p) simp_all

lemma checked_size:
  "Option.bind (checked_mul a b) (\<lambda>n. checked_mul n (bytes_per_pixel p))
     = (if a * b * bytes_per_pixel p < 2 ^ 64 then Some (a * b * bytes_per_pixel p) else None)"
proof -
  have "a * b \<le> a * b * bytes_per_pixel p" by (cases p) simp_all
  then have "a * b * bytes_per_pixel p < 2 ^ 64 \<Longrightarrow> a * b < 2 ^ 64" by (rule le_less_trans)
  then show ?thesis by (auto simp: checked_mul_def)
qed

lemma check_frame_cases:
  "check_frame f =
     (if vf_width f = 0 \<or> vf_height f = 0
      then Inl (Webrtc (Fmt ''a {} frame needs a size, got {}x{}''
             [AStr (pf_name (vf_format f)), ANat (unat (vf_width f)), ANat (unat (vf_height f))]))
      else if 2 ^ 64 \<le> frame_bytes f
      then Inl (Webrtc (Fmt ''a {} frame of {}x{} is too large''
             [AStr (pf_name (vf_format f)), ANat (unat (vf_width f)), ANat (unat (vf_height f))]))
      else if length (vf_pixels f) < frame_bytes f
      then Inl (Webrtc (Fmt ''a {} frame of {}x{} is {} bytes, got {}''
             [AStr (pf_name (vf_format f)), ANat (unat (vf_width f)), ANat (unat (vf_height f)),
              ANat (frame_bytes f), ANat (length (vf_pixels f))]))
      else Inr ())"
  by (simp add: check_frame_def checked_size frame_bytes_def Let_def)

lemma check_frame_ok:
  "check_frame f = Inr () \<longleftrightarrow>
     vf_width f \<noteq> 0 \<and> vf_height f \<noteq> 0 \<and> frame_bytes f < 2 ^ 64 \<and> frame_bytes f \<le> length (vf_pixels f)"
  by (auto simp: check_frame_cases)

text \<open>The push a frame without metadata makes.\<close>

definition plain_push :: "int \<Rightarrow> video_frame \<Rightarrow> int option \<Rightarrow> native_push" where
  "plain_push now f us =
     (case vf_format f of
        Bgra \<Rightarrow> (case us of None \<Rightarrow> PushNow (vf_pixels f) (vf_width f) (vf_height f)
                 | Some x \<Rightarrow> PushTs (vf_pixels f) (vf_width f) (vf_height f) x)
      | Rgb24 \<Rightarrow> PushFormatTs (vf_pixels f) (vf_width f) (vf_height f) (case us of None \<Rightarrow> now | Some x \<Rightarrow> x) 1)"

lemma push_unmarked_video: "tk_kind t = Video \<Longrightarrow> push_unmarked t now f us = native_push t (plain_push now f us)"
  by (simp add: push_unmarked_def plain_push_def push_video_frame_now_def push_video_frame_ts_def
      push_pixels_ts_def split: pixel_format.split option.split)

text \<open>A push reaches the native track only with memory it may read. On a video track, a push
  of a plain frame succeeds exactly when the track is local, the size is not zero and the buffer
  holds width times height pixels of the format, computed without overflow; then the native track
  gets exactly one push, with the caller's buffer and stamp, and otherwise nothing changes and the
  error says which check failed.\<close>
theorem push_checked:
  assumes "tk_kind t = Video"
  shows "vt_push_frame t now f =
     (if tk_is_remote t then (Inl (Webrtc (Text ''cannot push frames onto a remote track'')), t)
      else case check_frame f of Inl e \<Rightarrow> (Inl e, t) | Inr _ \<Rightarrow> (Inr (), native_push t (plain_push now f None)))
   \<and> vt_push_frame_at t now f us =
     (if tk_is_remote t then (Inl (Webrtc (Text ''cannot push frames onto a remote track'')), t)
      else case check_frame f of Inl e \<Rightarrow> (Inl e, t) | Inr _ \<Rightarrow> (Inr (), native_push t (plain_push now f (Some us))))
   \<and> check_frame f =
     (if vf_width f = 0 \<or> vf_height f = 0
      then Inl (Webrtc (Fmt ''a {} frame needs a size, got {}x{}''
             [AStr (pf_name (vf_format f)), ANat (unat (vf_width f)), ANat (unat (vf_height f))]))
      else if 2 ^ 64 \<le> frame_bytes f
      then Inl (Webrtc (Fmt ''a {} frame of {}x{} is too large''
             [AStr (pf_name (vf_format f)), ANat (unat (vf_width f)), ANat (unat (vf_height f))]))
      else if length (vf_pixels f) < frame_bytes f
      then Inl (Webrtc (Fmt ''a {} frame of {}x{} is {} bytes, got {}''
             [AStr (pf_name (vf_format f)), ANat (unat (vf_width f)), ANat (unat (vf_height f)),
              ANat (frame_bytes f), ANat (length (vf_pixels f))]))
      else Inr ())"
  using check_frame_cases [of f]
  by (simp add: vt_push_frame_def vt_push_frame_at_def checked_def guard_remote_def
      push_unmarked_video [OF assms] split: sum.split)

definition sample_track :: track where
  "sample_track = fst (from_raw_with_registry \<lparr>rg_send = (\<lambda>_. None), rg_recv = (\<lambda>_. None),
     rg_allowed = (\<lambda>_. None), rg_feedback = (\<lambda>_. None)\<rparr> 1 2 3 Video False True)"

lemma push_checked_witness:
  "vt_push_frame sample_track 9 (vf_new (replicate 24 0) 3 2)
     = (Inr (), native_push sample_track (PushNow (replicate 24 0) 3 2))"
  using push_checked [of sample_track 9 "vf_new (replicate 24 0) 3 2" 0]
  by (simp add: sample_track_def from_raw_with_registry_def vf_new_def plain_push_def frame_bytes_def)

section \<open>Metadata under its capture millisecond\<close>

lemma wrap_ms [simp]: "0 \<le> ms \<Longrightarrow> ms \<le> 9223372036854775 \<Longrightarrow> i64_wrap (ms * 1000) = ms * 1000"
  by (intro i64_wrap_id) simp_all

lemma sdiv_thousand [simp]: "0 \<le> ms \<Longrightarrow> ms * 1000 sdiv 1000 = (ms :: int)"
  by (simp add: signed_divide_int_def sgn_if)

text \<open>The newest entries of a list.\<close>

definition newest :: "nat \<Rightarrow> 'a list \<Rightarrow> 'a list" where
  "newest n xs = drop (length xs - n) xs"

lemma newest_snoc:
  assumes "0 < n"
  shows "newest n (xs @ [x]) = (if length (newest n xs) \<ge> n then tl (newest n xs) else newest n xs) @ [x]"
proof (cases "n \<le> length xs")
  case True
  then have "Suc (length xs) - n = Suc (length xs - n)" by simp
  then show ?thesis using True assms by (simp add: newest_def drop_Suc tl_drop)
qed (simp add: newest_def)

lemma set_newest: "set (newest n xs) \<subseteq> set xs"
  by (simp add: newest_def set_drop_subset)

lemma sorted_newest: "sorted_wrt P (map f xs) \<Longrightarrow> sorted_wrt P (map f (newest n xs))"
  by (simp add: newest_def drop_map [symmetric] sorted_wrt_drop)

text \<open>The invariant of a track's map: after the entries \<open>pushed\<close>, whose keys increase from
  above zero to the last millisecond handed out, it holds exactly the newest ones.\<close>

definition keeps :: "capture_time_meta \<Rightarrow> (int \<times> frame_metadata) list \<Rightarrow> int \<Rightarrow> bool" where
  "keeps c pushed last_ms \<longleftrightarrow>
     cm_order c = map fst (newest SENDER_META_CAP pushed) \<and>
     cm_map c = map_of (newest SENDER_META_CAP pushed) \<and>
     sorted_wrt (<) (map fst pushed) \<and> (\<forall>e \<in> set pushed. 0 < fst e \<and> fst e \<le> last_ms) \<and> 0 \<le> last_ms"

lemma keeps_default: "keeps cm_default [] 0"
  by (simp add: keeps_def cm_default_def newest_def)

lemma map_of_distinct_tl:
  "distinct (map fst xs) \<Longrightarrow> xs \<noteq> [] \<Longrightarrow> (map_of xs)(fst (hd xs) := None) = map_of (tl xs)"
  by (cases xs) (auto simp: fun_eq_iff, metis map_of_eq_None_iff)

lemma map_of_snoc: "k \<notin> fst ` set xs \<Longrightarrow> map_of (xs @ [(k, m)]) = (map_of xs)(k := Some m)"
  by (induction xs) (auto simp: fun_upd_twist)

lemma keeps_insert:
  assumes inv: "keeps c pushed last_ms" and k: "last_ms < k"
  shows "keeps (insert_meta c k m) (pushed @ [(k, m)]) k"
proof -
  let ?old = "newest SENDER_META_CAP pushed"
  let ?kept = "if length ?old \<ge> SENDER_META_CAP then tl ?old else ?old"
  have "sorted_wrt (<) (map fst ?old)" using inv by (auto simp: keeps_def intro: sorted_newest)
  then have dist: "distinct (map fst ?old)" using strict_sorted_iff by blast
  have small: "\<forall>e \<in> set ?old. fst e < k" using inv k set_newest [of SENDER_META_CAP pushed]
    by (fastforce simp: keeps_def)
  have fresh: "k \<notin> fst ` set ?kept"
    using small by (cases ?old) (auto split: if_splits)
  have "0 < SENDER_META_CAP" by (simp add: SENDER_META_CAP_def)
  then have nw: "newest SENDER_META_CAP (pushed @ [(k, m)]) = ?kept @ [(k, m)]"
    by (rule newest_snoc)
  define c1 where "c1 = (if length (cm_order c) \<ge> SENDER_META_CAP
      then (case cm_order c of [] \<Rightarrow> c
            | old_key # rest \<Rightarrow> c\<lparr>cm_map := (cm_map c)(old_key := None), cm_order := rest\<rparr>)
      else c)"
  have c1: "cm_order c1 = map fst ?kept" "cm_map c1 = map_of ?kept"
  proof -
    have order: "cm_order c = map fst ?old" and cmap: "cm_map c = map_of ?old"
      using inv by (simp_all add: keeps_def)
    show "cm_order c1 = map fst ?kept"
      unfolding c1_def order by (cases ?old) (auto simp: order)
    show "cm_map c1 = map_of ?kept"
    proof (cases "length ?old \<ge> SENDER_META_CAP \<and> ?old \<noteq> []")
      case True
      then obtain e rest where old: "?old = e # rest" by (cases ?old) auto
      then have "cm_map c1 = (map_of ?old)(fst (hd ?old) := None)"
        using True unfolding c1_def order cmap old by (simp add: cmap old)
      also have "\<dots> = map_of (tl ?old)" using dist old by (intro map_of_distinct_tl) simp_all
      finally show ?thesis using True by simp
    next
      case False
      then show ?thesis unfolding c1_def order by (auto simp: cmap order)
    qed
  qed
  have "map_of ?kept k = None" using fresh by (simp add: map_of_eq_None_iff)
  then have ins: "insert_meta c k m = c1\<lparr>cm_map := (map_of ?kept)(k := Some m), cm_order := map fst ?kept @ [k]\<rparr>"
    unfolding insert_meta_def Let_def c1_def [symmetric] by (simp add: c1)
  have "map_of (?kept @ [(k, m)]) = (map_of ?kept)(k := Some m)"
    using fresh by (rule map_of_snoc)
  then show ?thesis
    using inv k unfolding keeps_def nw ins by (auto simp: sorted_wrt_append)
qed

text \<open>One push with metadata: the stamp and the record it makes, and the track after it.\<close>

definition declared_meta :: "u64 \<Rightarrow> int \<Rightarrow> bytes \<Rightarrow> frame_metadata" where
  "declared_meta frame_id us user_data =
     \<lparr>md_frame_id = frame_id, md_capture_time_us = word_of_int (max us 0), md_user_data = user_data\<rparr>"

fun push_all :: "track \<Rightarrow> (video_frame \<times> bytes \<times> int) list \<Rightarrow> track" where
  "push_all t [] = t"
| "push_all t ((f, user_data, us) # ps) =
     push_all (snd (vt_push_frame_with_metadata_at t 0 f user_data us)) ps"

text \<open>The capture milliseconds and the frame ids of the pushes.\<close>

fun stamps :: "int \<Rightarrow> int list \<Rightarrow> int list" where
  "stamps last_ms [] = []"
| "stamps last_ms (us # uss) = (let ms = max (us sdiv 1000) (last_ms + 1) in ms # stamps ms uss)"

lemma alloc_step:
  assumes "0 \<le> tk_last_send_ms t" "max (us sdiv 1000) (tk_last_send_ms t + 1) \<le> 9223372036854775"
  shows "alloc_send_capture_us t now (Some us) =
    (max (us sdiv 1000) (tk_last_send_ms t + 1) * 1000,
     t\<lparr>tk_last_send_ms := max (us sdiv 1000) (tk_last_send_ms t + 1)\<rparr>)"
proof -
  have small: "tk_last_send_ms t + 1 \<le> 9223372036854775" using assms(2) by simp
  then have one: "i64_wrap (tk_last_send_ms t + 1) = tk_last_send_ms t + 1"
    using assms(1) by (intro i64_wrap_id) simp_all
  have "0 \<le> max (us sdiv 1000) (tk_last_send_ms t + 1)" using assms(1) by simp
  then have "i64_wrap (max (us sdiv 1000) (tk_last_send_ms t + 1) * 1000)
      = max (us sdiv 1000) (tk_last_send_ms t + 1) * 1000"
    using assms(2) by (rule wrap_ms)
  then show ?thesis
    unfolding alloc_send_capture_us_def next_unique_capture_ms_def next_capture_def one Let_def by simp
qed

lemma push_step:
  assumes "tk_kind t = Video" "\<not> tk_is_remote t" "tk_metadata_enabled t" "check_frame f = Inr ()"
    and "0 \<le> tk_last_send_ms t" "max (us sdiv 1000) (tk_last_send_ms t + 1) \<le> 9223372036854775"
    and "tk_frame_counter t \<noteq> - 1"
  shows "snd (vt_push_frame_with_metadata_at t now f user_data us) =
    (let ms = max (us sdiv 1000) (tk_last_send_ms t + 1) in
     t\<lparr>tk_last_send_ms := ms, tk_frame_counter := tk_frame_counter t + 1,
       tk_sender_meta := insert_meta (tk_sender_meta t) ms
          (declared_meta (tk_frame_counter t + 1) us user_data),
       tk_native := tk_native t @ [PushFormatTs (vf_pixels f) (vf_width f) (vf_height f) (ms * 1000)
                                     (pf_raw (vf_format f))]\<rparr>)"
proof -
  define ms where "ms = max (us sdiv 1000) (tk_last_send_ms t + 1)"
  have pos: "0 \<le> ms" using assms(5) by (simp add: ms_def)
  have alloc: "alloc_send_capture_us t now (Some us) = (ms * 1000, t\<lparr>tk_last_send_ms := ms\<rparr>)"
    unfolding ms_def by (rule alloc_step [OF assms(5,6)])
  have key: "ms * 1000 sdiv 1000 = ms" by (rule sdiv_thousand [OF pos])
  show ?thesis
    unfolding ms_def [symmetric] Let_def vt_push_frame_with_metadata_at_def push_with_metadata_def
      checked_def guard_remote_def push_metadata_frame_def
    using assms(1-4,7)
    by (simp add: alloc key Let_def next_frame_id_def insert_sender_meta_def push_pixels_ts_def native_push_def
        declared_meta_def)
qed

lemma counter_step:
  assumes "n < 2 ^ 64 - 1"
  shows "(word_of_nat n :: u64) \<noteq> - 1"
proof
  assume eq: "(word_of_nat n :: u64) = - 1"
  have "unat (word_of_nat n :: u64) = n"
    using assms by (simp add: unat_of_nat take_bit_nat_eq_self)
  moreover have "unat (- 1 :: u64) = 2 ^ 64 - 1"
    by (simp add: unsigned_minus_1_eq_mask mask_eq_exp_minus_1)
  ultimately show False using eq assms by simp
qed

text \<open>The records of a run of pushes, from frame id \<open>n + 1\<close> on.\<close>

fun records :: "nat \<Rightarrow> (video_frame \<times> bytes \<times> int) list \<Rightarrow> frame_metadata list" where
  "records n [] = []"
| "records n ((f, user_data, us) # ps) = declared_meta (word_of_nat (Suc n)) us user_data # records (Suc n) ps"

definition tagged_push :: "(video_frame \<times> bytes \<times> int) \<times> int \<Rightarrow> native_push" where
  "tagged_push = (\<lambda>((f, _, _), ms).
     PushFormatTs (vf_pixels f) (vf_width f) (vf_height f) (ms * 1000) (pf_raw (vf_format f)))"

lemma push_all_run:
  assumes "tk_kind t = Video" "\<not> tk_is_remote t" "tk_metadata_enabled t"
    and "\<forall>(f, _, us) \<in> set ps. check_frame f = Inr () \<and> us sdiv 1000 \<le> B"
    and "0 \<le> tk_last_send_ms t" "tk_last_send_ms t \<le> B" "B + int (length ps) \<le> 9223372036854775"
    and "tk_frame_counter t = word_of_nat n" "n + length ps < 2 ^ 64"
    and "keeps (tk_sender_meta t) pushed (tk_last_send_ms t)"
  shows "tk_native (push_all t ps) =
      tk_native t @ map tagged_push (zip ps (stamps (tk_last_send_ms t) (map (snd \<circ> snd) ps))) \<and>
    (\<exists>last_ms. keeps (tk_sender_meta (push_all t ps))
      (pushed @ zip (stamps (tk_last_send_ms t) (map (snd \<circ> snd) ps)) (records n ps)) last_ms)"
  using assms
proof (induction ps arbitrary: t n pushed B)
  case Nil
  then show ?case by auto
next
  case (Cons p ps)
  obtain f user_data us where p: "p = (f, user_data, us)" by (cases p)
  define ms where "ms = max (us sdiv 1000) (tk_last_send_ms t + 1)"
  have ms: "ms \<le> B + 1" "0 \<le> ms" "tk_last_send_ms t < ms" using Cons.prems by (auto simp: ms_def p)
  have not_max: "tk_frame_counter t \<noteq> - 1" using Cons.prems(8,9) counter_step [of n] by simp
  let ?m = "declared_meta (word_of_nat (Suc n)) us user_data"
  let ?t = "t\<lparr>tk_last_send_ms := ms, tk_frame_counter := word_of_nat (Suc n),
      tk_sender_meta := insert_meta (tk_sender_meta t) ms ?m,
      tk_native := tk_native t @ [tagged_push (p, ms)]\<rparr>"
  have step: "snd (vt_push_frame_with_metadata_at t 0 f user_data us) = ?t"
    using Cons.prems(4,7) ms not_max
    by (subst push_step [OF Cons.prems(1-3) _ Cons.prems(5)])
       (auto simp: p ms_def Cons.prems(8) tagged_push_def Let_def add.commute)
  have keeps: "keeps (insert_meta (tk_sender_meta t) ms ?m) (pushed @ [(ms, ?m)]) ms"
    using Cons.prems(10) ms(3) by (rule keeps_insert)
  have "tk_native (push_all ?t ps) =
      tk_native ?t @ map tagged_push (zip ps (stamps (tk_last_send_ms ?t) (map (snd \<circ> snd) ps))) \<and>
    (\<exists>last_ms. keeps (tk_sender_meta (push_all ?t ps))
      ((pushed @ [(ms, ?m)]) @ zip (stamps (tk_last_send_ms ?t) (map (snd \<circ> snd) ps)) (records (Suc n) ps)) last_ms)"
  proof (rule Cons.IH [where B = "B + 1"])
    show "\<forall>(f, _, us) \<in> set ps. check_frame f = Inr () \<and> us sdiv 1000 \<le> B + 1"
      using Cons.prems(4) by fastforce
  qed (use Cons.prems ms keeps in simp_all)
  then have run: "tk_native (push_all ?t ps) =
      tk_native t @ map tagged_push (zip (p # ps) (ms # stamps ms (map (snd \<circ> snd) ps))) \<and>
    (\<exists>last_ms. keeps (tk_sender_meta (push_all ?t ps))
      (pushed @ zip (ms # stamps ms (map (snd \<circ> snd) ps)) (?m # records (Suc n) ps)) last_ms)"
    by simp
  have eqs: "push_all t (p # ps) = push_all ?t ps" "records n (p # ps) = ?m # records (Suc n) ps"
    "stamps (tk_last_send_ms t) (map (snd \<circ> snd) (p # ps)) = ms # stamps ms (map (snd \<circ> snd) ps)"
    unfolding p push_all.simps step records.simps by (simp_all add: ms_def p Let_def)
  show ?case unfolding eqs by (rule run)
qed

lemma stamps_props:
  "sorted_wrt (<) (stamps last_ms uss) \<and> (\<forall>ms \<in> set (stamps last_ms uss). last_ms < ms) \<and>
   length (stamps last_ms uss) = length uss \<and> list_all2 (\<lambda>us ms. us sdiv 1000 \<le> ms) uss (stamps last_ms uss)"
proof (induction uss arbitrary: last_ms)
  case (Cons us uss)
  from Cons.IH [of "max (us sdiv 1000) (last_ms + 1)"] show ?case by (fastforce simp: Let_def)
qed simp

text \<open>C22: A frame pushed with metadata finds its own record. Push any frames with any capture
  times, repeated or out of order, on a fresh local track: their capture milliseconds are distinct
  and never before the one declared, the native track gets each frame under its own, and looking
  up a frame by its capture millisecond gives the record of exactly that push for the last 300
  pushes, with the frame id counting from 1 and the declared time unrounded, and nothing for any
  other millisecond. The bound keeps the stamp in microseconds within an i64.\<close>
theorem metadata_found_under_its_key:
  assumes "fst (from_raw_with_registry rg native_id source queue Video False True) = t"
    and "\<forall>(f, _, us) \<in> set ps. check_frame f = Inr () \<and> us sdiv 1000 + int (length ps) \<le> 9223372036854775"
    and "int (length ps) \<le> 9223372036854775"
  shows "sorted_wrt (<) (stamps 0 (map (snd \<circ> snd) ps)) \<and>
    list_all2 (\<lambda>(_, _, us) ms. us sdiv 1000 \<le> ms \<and> 0 < ms) ps (stamps 0 (map (snd \<circ> snd) ps)) \<and>
    tk_native (push_all t ps) = map tagged_push (zip ps (stamps 0 (map (snd \<circ> snd) ps))) \<and>
    capture_time_take (tk_sender_meta (push_all t ps)) frame
      = map_of (newest 300 (zip (stamps 0 (map (snd \<circ> snd) ps)) (records 0 ps))) (ef_capture_time_ms frame)"
proof -
  have t: "tk_kind t = Video" "\<not> tk_is_remote t" "tk_metadata_enabled t" "tk_last_send_ms t = 0"
      "tk_frame_counter t = word_of_nat 0" "tk_sender_meta t = cm_default" "tk_native t = []"
    using assms(1) by (auto simp: from_raw_with_registry_def)
  let ?B = "9223372036854775 - int (length ps)"
  have frames: "\<forall>(f, _, us) \<in> set ps. check_frame f = Inr () \<and> us sdiv 1000 \<le> ?B"
    using assms(2) by fastforce
  have run: "tk_native (push_all t ps) = map tagged_push (zip ps (stamps 0 (map (snd \<circ> snd) ps))) \<and>
    (\<exists>last_ms. keeps (tk_sender_meta (push_all t ps)) (zip (stamps 0 (map (snd \<circ> snd) ps)) (records 0 ps)) last_ms)"
    using push_all_run [OF t(1-3) frames, of 0 "[]"] assms(3) by (simp add: t keeps_default)
  then obtain last_ms where
    keeps: "keeps (tk_sender_meta (push_all t ps)) (zip (stamps 0 (map (snd \<circ> snd) ps)) (records 0 ps)) last_ms"
    by blast
  let ?kept = "newest 300 (zip (stamps 0 (map (snd \<circ> snd) ps)) (records 0 ps))"
  have cmap: "cm_map (tk_sender_meta (push_all t ps)) = map_of ?kept"
    using keeps by (simp add: keeps_def SENDER_META_CAP_def)
  have "\<forall>e \<in> set ?kept. 0 < fst e"
    using keeps set_newest [of 300 "zip (stamps 0 (map (snd \<circ> snd) ps)) (records 0 ps)"]
    by (auto simp: keeps_def)
  then have "k \<le> 0 \<Longrightarrow> map_of ?kept k = None" for k by (fastforce simp: map_of_eq_None_iff)
  then have "capture_time_take (tk_sender_meta (push_all t ps)) frame = map_of ?kept (ef_capture_time_ms frame)"
    by (simp add: capture_time_take_def cmap)
  moreover have "list_all2 (\<lambda>(_, _, us) ms. us sdiv 1000 \<le> ms \<and> 0 < ms) ps (stamps 0 (map (snd \<circ> snd) ps))"
  proof (rule list_all2_all_nthI)
    show "length ps = length (stamps 0 (map (snd \<circ> snd) ps))"
      using stamps_props [of 0 "map (snd \<circ> snd) ps"] by simp
    fix i
    assume i: "i < length ps"
    have all: "list_all2 (\<lambda>us ms. us sdiv 1000 \<le> ms) (map (snd \<circ> snd) ps) (stamps 0 (map (snd \<circ> snd) ps))"
      and pos: "\<forall>ms \<in> set (stamps 0 (map (snd \<circ> snd) ps)). 0 < ms"
      and len: "length (stamps 0 (map (snd \<circ> snd) ps)) = length ps"
      using stamps_props [of 0 "map (snd \<circ> snd) ps"] by auto
    have "snd (snd (ps ! i)) sdiv 1000 \<le> stamps 0 (map (snd \<circ> snd) ps) ! i"
      using list_all2_nthD [OF all, of i] i by simp
    moreover have "0 < stamps 0 (map (snd \<circ> snd) ps) ! i" using pos len i by simp
    ultimately show "(case ps ! i of (_, _, us) \<Rightarrow> \<lambda>ms. us sdiv 1000 \<le> ms \<and> 0 < ms)
        (stamps 0 (map (snd \<circ> snd) ps) ! i)"
      by (simp add: case_prod_beta)
  qed
  ultimately show ?thesis using run stamps_props [of 0 "map (snd \<circ> snd) ps"] by blast
qed

text \<open>Three frames declared at the same microsecond.\<close>

definition same_stamp :: "(video_frame \<times> bytes \<times> int) list" where
  "same_stamp = map (\<lambda>n. (vf_new [0, 0, 0, 0] 1 1, [word_of_nat n], 5000000)) [1, 2, 3]"

lemma same_stamp_ok:
  "\<forall>(f, _, us) \<in> set same_stamp. check_frame f = Inr () \<and> us sdiv 1000 + int (length same_stamp) \<le> 9223372036854775"
  by (simp add: same_stamp_def check_frame_cases vf_new_def frame_bytes_def signed_divide_int_def)

lemma metadata_found_under_its_key_witness:
  "capture_time_take (tk_sender_meta (push_all sample_track same_stamp)) (sample_frame 1\<lparr>ef_capture_time_ms := 5001\<rparr>)
     = Some (declared_meta 2 5000000 [2])"
  using metadata_found_under_its_key
    [OF refl [of sample_track, unfolded sample_track_def] same_stamp_ok,
     where frame = "sample_frame 1\<lparr>ef_capture_time_ms := 5001\<rparr>"]
  unfolding sample_track_def [symmetric]
  by (simp add: same_stamp_def newest_def signed_divide_int_def)

section \<open>Threads that push at once\<close>

text \<open>
  The compare-and-exchange loop of \<open>next_unique_capture_ms\<close> in many threads. A thread loads
  the last value, then tries to store; the weak exchange may fail for no reason (\<open>weak\<close>), and a
  failure leaves the thread with the value it found.
\<close>

datatype claim = Start int | Loaded int int | Claimed int int

type_synonym claims = "int \<times> claim list"

definition cas_step :: "claims \<Rightarrow> nat \<times> bool \<Rightarrow> claims" where
  "cas_step st move =
     (case st of (last_ms, ts) \<Rightarrow> case move of (i, weak) \<Rightarrow>
        if i < length ts
        then case ts ! i of
               Start raw \<Rightarrow> (last_ms, ts[i := Loaded raw last_ms])
             | Loaded raw prev \<Rightarrow>
                 if last_ms = prev \<and> \<not> weak
                 then let next = next_capture prev raw in (next, ts[i := Claimed raw next])
                 else (last_ms, ts[i := Loaded raw last_ms])
             | Claimed raw v \<Rightarrow> (last_ms, ts)
        else (last_ms, ts))"

fun claim_raw :: "claim \<Rightarrow> int" where
  "claim_raw (Start raw) = raw"
| "claim_raw (Loaded raw prev) = raw"
| "claim_raw (Claimed raw v) = raw"

fun claim_value :: "claim \<Rightarrow> int option" where
  "claim_value (Claimed raw v) = Some v"
| "claim_value _ = None"

definition done_count :: "claim list \<Rightarrow> nat" where
  "done_count ts = length (filter (\<lambda>t. claim_value t \<noteq> None) ts)"

lemma done_count_update:
  assumes "i < length ts" "claim_value (ts ! i) = None"
  shows "done_count (ts[i := t]) = done_count ts + (if claim_value t = None then 0 else 1)"
proof -
  have ts: "ts = take i ts @ ts ! i # drop (Suc i) ts" using assms(1) by (rule id_take_nth_drop)
  have "ts[i := t] = take i ts @ t # drop (Suc i) ts" using assms(1) by (simp add: upd_conv_take_nth_drop)
  moreover have "done_count ts = done_count (take i ts) + done_count (drop (Suc i) ts)"
    using assms(2) by (subst ts) (simp add: done_count_def)
  ultimately show ?thesis by (simp add: done_count_def)
qed

definition claims_inv :: "int \<Rightarrow> int \<Rightarrow> int list \<Rightarrow> claims \<Rightarrow> bool" where
  "claims_inv start bound raws st \<longleftrightarrow>
     (case st of (last_ms, ts) \<Rightarrow>
        map claim_raw ts = raws \<and> start \<le> last_ms \<and> last_ms \<le> bound + int (done_count ts) \<and>
        (\<forall>i < length ts. \<forall>v. claim_value (ts ! i) = Some v \<longrightarrow> raws ! i \<le> v \<and> start < v \<and> v \<le> last_ms) \<and>
        (\<forall>i < length ts. \<forall>j < length ts. i \<noteq> j \<longrightarrow> claim_value (ts ! i) \<noteq> None \<longrightarrow>
           claim_value (ts ! i) \<noteq> claim_value (ts ! j)))"

lemma raw_update: "i < length ts \<Longrightarrow> claim_raw t = claim_raw (ts ! i) \<Longrightarrow> map claim_raw (ts[i := t]) = map claim_raw ts"
  by (simp add: map_update list_update_same_conv)

lemma claims_inv_step:
  assumes inv: "claims_inv start bound raws st"
    and bound: "- (2 ^ 63) \<le> start" "\<forall>raw \<in> set raws. raw \<le> bound" "bound + int (length raws) < 2 ^ 63 - 1"
  shows "claims_inv start bound raws (cas_step st move)"
proof -
  obtain last_ms ts i weak where st: "st = (last_ms, ts)" and mv: "move = (i, weak)"
    by (cases st; cases move)
  show ?thesis
  proof (cases "i < length ts")
    case False
    then show ?thesis using inv by (simp add: cas_step_def st mv)
  next
    case i: True
    have keep: "claims_inv start bound raws (last_ms, ts[i := Loaded raw prev])"
      if "claim_value (ts ! i) = None" "claim_raw (ts ! i) = raw" for raw prev
      using inv that i done_count_update [OF i that(1), of "Loaded raw prev"]
        raw_update [OF i, of "Loaded raw prev"]
      by (auto simp: claims_inv_def st nth_list_update)
    show ?thesis
    proof (cases "ts ! i")
      case (Start raw)
      then show ?thesis using keep [of raw last_ms] i by (simp add: cas_step_def st mv)
    next
      case (Claimed raw v)
      then show ?thesis using inv i by (simp add: cas_step_def st mv)
    next
      case (Loaded raw prev)
      show ?thesis
      proof (cases "last_ms = prev \<and> \<not> weak")
        case False
        then show ?thesis using keep [of raw last_ms] Loaded i by (auto simp: cas_step_def st mv)
      next
        case True
        have raws: "raws = map claim_raw ts" using inv by (auto simp: claims_inv_def st)
        have "done_count ts \<le> length raws" by (simp add: raws done_count_def)
        then have "prev < 2 ^ 63 - 1" "- (2 ^ 63) \<le> prev"
          using inv bound True by (auto simp: claims_inv_def st)
        then have wrap: "i64_wrap (prev + 1) = prev + 1" by (intro i64_wrap_id) simp_all
        define v where "v = max raw (prev + 1)"
        have "raw \<in> set raws" using i Loaded by (force simp: raws in_set_conv_nth)
        then have raw: "raw \<le> bound" "raws ! i = raw" using bound(2) i Loaded by (auto simp: raws)
        have undone: "claim_value (ts ! i) = None" using Loaded by simp
        have step: "cas_step st move = (v, ts[i := Claimed raw v])"
          using True Loaded i by (simp add: cas_step_def st mv next_capture_def wrap v_def Let_def)
        have less: "last_ms < v" "raw \<le> v" using True by (auto simp: v_def)
        have old: "w \<le> last_ms" if "j < length ts" "claim_value (ts ! j) = Some w" for j w
          using inv that by (auto simp: claims_inv_def st)
        have "map claim_raw (ts[i := Claimed raw v]) = raws"
          using raw_update [OF i, of "Claimed raw v"] Loaded by (simp add: raws)
        moreover have "start \<le> v \<and> v \<le> bound + int (done_count (ts[i := Claimed raw v]))"
          using inv raw less True done_count_update [OF i undone, of "Claimed raw v"]
          by (auto simp: claims_inv_def st v_def)
        moreover have "\<forall>j < length ts. \<forall>w. claim_value (ts[i := Claimed raw v] ! j) = Some w \<longrightarrow>
            raws ! j \<le> w \<and> start < w \<and> w \<le> v"
        proof (intro allI impI)
          fix j w
          assume j: "j < length ts" "claim_value (ts[i := Claimed raw v] ! j) = Some w"
          show "raws ! j \<le> w \<and> start < w \<and> w \<le> v"
          proof (cases "i = j")
            case True
            then show ?thesis using j i raw less inv by (auto simp: claims_inv_def st)
          next
            case False
            then have "claim_value (ts ! j) = Some w" using j by simp
            then have "raws ! j \<le> w \<and> start < w \<and> w \<le> last_ms"
              using inv j(1) by (simp add: claims_inv_def st)
            then show ?thesis using less(1) by simp
          qed
        qed
        moreover have "\<forall>j < length ts. \<forall>k < length ts. j \<noteq> k \<longrightarrow> claim_value (ts[i := Claimed raw v] ! j) \<noteq> None \<longrightarrow>
            claim_value (ts[i := Claimed raw v] ! j) \<noteq> claim_value (ts[i := Claimed raw v] ! k)"
        proof (intro allI impI)
          fix j k
          assume jk: "j < length ts" "k < length ts" "j \<noteq> k"
            "claim_value (ts[i := Claimed raw v] ! j) \<noteq> None"
          have fresh: "claim_value (ts ! n) \<noteq> Some v" if "n < length ts" for n
            using old [OF that] less(1) by fastforce
          show "claim_value (ts[i := Claimed raw v] ! j) \<noteq> claim_value (ts[i := Claimed raw v] ! k)"
          proof (cases "i = j \<or> i = k")
            case True
            then show ?thesis using jk i fresh [of j] fresh [of k] by (elim disjE) auto
          next
            case False
            have "claim_value (ts ! j) \<noteq> None" using jk False by simp
            then have "claim_value (ts ! j) \<noteq> claim_value (ts ! k)"
              using inv jk(1-3) by (simp add: claims_inv_def st)
            then show ?thesis using False by simp
          qed
        qed
        ultimately show ?thesis unfolding step by (simp add: claims_inv_def)
      qed
    qed
  qed
qed

lemma claims_inv_run:
  assumes "claims_inv start bound raws st"
    and "- (2 ^ 63) \<le> start" "\<forall>raw \<in> set raws. raw \<le> bound" "bound + int (length raws) < 2 ^ 63 - 1"
  shows "claims_inv start bound raws (foldl cas_step st moves)"
  using assms(1)
proof (induction moves arbitrary: st)
  case (Cons move moves)
  then show ?case using claims_inv_step [OF Cons.prems assms(2-4), of move] by simp
qed simp

lemma claims_inv_start:
  assumes "start \<le> bound"
  shows "claims_inv start bound raws (start, map Start raws)"
proof -
  have "map (claim_raw \<circ> Start) raws = raws" by (simp add: comp_def)
  then show ?thesis using assms by (simp add: claims_inv_def)
qed

lemma claim_alone:
  assumes "i < length ts" "claim_value (ts ! i) = None"
  shows "\<exists>v. claim_value (snd (cas_step (cas_step (cas_step (last_ms, ts) (i, False)) (i, False)) (i, False)) ! i)
    = Some v"
  using assms by (cases "ts ! i") (auto simp: cas_step_def Let_def)

text \<open>C23: Concurrent pushes never share a capture millisecond. Whatever the interleaving of the
  threads' compare-and-exchange loops, spurious failures included, two threads never end with the
  same millisecond, each is at least the one its thread asked for and above the one before the run,
  and a thread that is left alone for three steps ends its loop. The bound keeps the counter off
  the top of an i64.\<close>
theorem capture_ms_unique:
  assumes "- (2 ^ 63) \<le> start" and "start \<le> bound" and "\<forall>raw \<in> set raws. raw \<le> bound"
    and "bound + int (length raws) < 2 ^ 63 - 1"
    and "foldl cas_step (start, map Start raws) moves = (last_ms, ts)"
  shows "(\<forall>i < length raws. \<forall>v. claim_value (ts ! i) = Some v \<longrightarrow> raws ! i \<le> v \<and> start < v) \<and>
    (\<forall>i < length raws. \<forall>j < length raws. i \<noteq> j \<longrightarrow> claim_value (ts ! i) \<noteq> None \<longrightarrow>
       claim_value (ts ! i) \<noteq> claim_value (ts ! j)) \<and>
    (\<forall>i < length raws. claim_value (ts ! i) = None \<longrightarrow>
       (\<exists>v. claim_value (snd (foldl cas_step (last_ms, ts) [(i, False), (i, False), (i, False)]) ! i) = Some v))"
proof -
  have "claims_inv start bound raws (last_ms, ts)"
    using claims_inv_run [OF claims_inv_start [OF assms(2)] assms(1,3,4), of moves] assms(5) by simp
  then have inv: "claims_inv start bound raws (last_ms, ts)" "length ts = length raws"
    by (auto simp: claims_inv_def)
  then show ?thesis using claim_alone [of _ ts last_ms] by (auto simp: claims_inv_def)
qed

lemma capture_ms_unique_witness:
  "case foldl cas_step (0, map Start [7, 7]) [(0, False), (1, False), (0, False), (1, False), (1, True), (1, False)] of
     (_, ts) \<Rightarrow> ts ! 0 = Claimed 7 7 \<and> ts ! 1 = Claimed 7 8 \<and> claim_value (ts ! 0) \<noteq> claim_value (ts ! 1)"
proof -
  let ?moves = "[(0, False), (1, False), (0, False), (1, False), (1, True), (1, False)]"
  have run: "foldl cas_step (0, map Start [7, 7]) ?moves = (8, [Claimed 7 7, Claimed 7 8])"
    by (simp add: cas_step_def next_capture_def)
  from capture_ms_unique [OF _ _ _ _ run, where bound = 7] show ?thesis
    unfolding run by force
qed

section \<open>Where the stamps stop fitting\<close>

text \<open>A stamp near the top of an i64 makes the next one wrap to a negative time.\<close>

lemma capture_stamp_overflows:
  "fst (alloc_send_capture_us (snd (alloc_send_capture_us sample_track 0 (Some (2 ^ 63 - 1)))) 0 (Some 0)) < 0"
  by (simp add: alloc_send_capture_us_def next_unique_capture_ms_def next_capture_def sample_track_def
      from_raw_with_registry_def signed_divide_int_def i64_wrap_def signed_take_bit_int_eq_self
      signed_take_bit_def Let_def)

end
