(* ===== verification/Media_Sinks.thy ===== *)
theory Media_Sinks
  imports Media_Props
begin

text \<open>
  The sinks of a track (\<open>crates/reactor-webrtc/src/media.rs\<close>): threads that attach a sink,
  libwebrtc calling the one that is registered, and the drop of the track, as interleaved steps.
  A sink's state is a box on the heap; the native side holds its address, the track owns it.

  What the native registration does is libwebrtc's: replacing a sink waits until a delivery to
  the old one has returned, and no delivery begins in between (the comment above
  \<open>reactor_webrtc_audio_track_add_sink\<close> in the C++ glue). A box is its own allocation, so an
  address that the heap hands out again is another box.
\<close>

section \<open>The state\<close>

type_synonym thread = nat

text \<open>Where a thread stands in \<open>attach_video_sink\<close> or \<open>attach_audio_sink\<close>, with the box it made.\<close>

datatype attach_pc = Outside | Boxed nat | Holding nat | Registered nat | Stored nat | Swapped nat

record sinks =
  sk_next :: nat
  sk_live :: "nat set" \<comment> \<open>allocated and not freed\<close>
  sk_format :: "nat \<Rightarrow> pixel_format"
  sk_totals :: "nat \<Rightarrow> sink_timings" \<comment> \<open>behind the reference each video sink shares with the track\<close>
  sk_pc :: "thread \<Rightarrow> attach_pc"
  sk_lock :: "thread option" \<comment> \<open>who holds the mutex around the owned box\<close>
  sk_stored :: "nat option" \<comment> \<open>what the mutex protects\<close>
  sk_timings :: nat \<comment> \<open>the totals the track refers to\<close>
  sk_native :: "nat option" \<comment> \<open>what the native side calls\<close>
  sk_running :: "nat option" \<comment> \<open>the box a delivery in progress reads\<close>
  sk_calls :: "nat list" \<comment> \<open>the boxes whose closure was called, latest first\<close>
  sk_dropped :: bool

definition no_timings :: sink_timings where
  "no_timings = \<lparr>vs_convert = 0, vs_frames = 0\<rparr>"

definition sinks_new :: sinks where
  "sinks_new =
     \<lparr>sk_next = 1, sk_live = {}, sk_format = (\<lambda>_. Bgra), sk_totals = (\<lambda>_. no_timings), sk_pc = (\<lambda>_. Outside),
      sk_lock = None, sk_stored = None, sk_timings = 0, sk_native = None, sk_running = None, sk_calls = [],
      sk_dropped = False\<rparr>"

section \<open>Attaching\<close>

definition at_pc :: "thread \<Rightarrow> attach_pc \<Rightarrow> sinks \<Rightarrow> sinks" where
  "at_pc t pc w = w\<lparr>sk_pc := (sk_pc w)(t := pc)\<rparr>"

text \<open>Each step of the two bodies; \<open>None\<close> when the thread has to wait.\<close>

definition make_box :: "pixel_format \<Rightarrow> thread \<Rightarrow> sinks \<Rightarrow> sinks" where
  "make_box format t w =
     (let b = sk_next w in
      at_pc t (Boxed b)
        (w\<lparr>sk_next := b + 1, sk_live := insert b (sk_live w), sk_format := (sk_format w)(b := format),
          sk_totals := (sk_totals w)(b := no_timings)\<rparr>))"

definition take_lock :: "nat \<Rightarrow> thread \<Rightarrow> sinks \<Rightarrow> sinks option" where
  "take_lock b t w = (if sk_lock w \<noteq> None then None else Some (at_pc t (Holding b) (w\<lparr>sk_lock := Some t\<rparr>)))"

definition register_sink :: "nat \<Rightarrow> thread \<Rightarrow> sinks \<Rightarrow> sinks option" where
  "register_sink b t w =
     (if sk_running w \<noteq> None then None else Some (at_pc t (Registered b) (w\<lparr>sk_native := Some b\<rparr>)))"

definition store_box :: "nat \<Rightarrow> thread \<Rightarrow> sinks \<Rightarrow> sinks" where
  "store_box b t w =
     at_pc t (Stored b) (w\<lparr>sk_live := sk_live w - set_option (sk_stored w), sk_stored := Some b\<rparr>)"

definition unlock :: "thread \<Rightarrow> sinks \<Rightarrow> sinks" where
  "unlock t w = at_pc t Outside (w\<lparr>sk_lock := None\<rparr>)"

definition attach_video_sink :: "pixel_format \<Rightarrow> thread \<Rightarrow> sinks \<Rightarrow> sinks option" where
  "attach_video_sink format t w =
     (case sk_pc w t of
        Outside \<Rightarrow> Some (make_box format t w)
      | Boxed b \<Rightarrow> take_lock b t w
      | Holding b \<Rightarrow> register_sink b t w
      | Registered b \<Rightarrow> Some (store_box b t w)
      | Stored b \<Rightarrow> Some (at_pc t (Swapped b) (w\<lparr>sk_timings := b\<rparr>))
      | Swapped b \<Rightarrow> Some (unlock t w))"

text \<open>An audio sink has no format and no totals: \<open>format\<close> is not looked at.\<close>

definition attach_audio_sink :: "pixel_format \<Rightarrow> thread \<Rightarrow> sinks \<Rightarrow> sinks option" where
  "attach_audio_sink format t w =
     (case sk_pc w t of
        Outside \<Rightarrow> Some (make_box format t w)
      | Boxed b \<Rightarrow> take_lock b t w
      | Holding b \<Rightarrow> register_sink b t w
      | Registered b \<Rightarrow> Some (store_box b t w)
      | Stored b \<Rightarrow> Some (unlock t w)
      | Swapped b \<Rightarrow> None)"

section \<open>Delivering, reading the totals, dropping\<close>

record delivery_input =
  di_queue :: receiver_queue
  di_pixels :: bytes
  di_width :: u32
  di_height :: u32
  di_ssrc :: u32
  di_timestamp :: u32
  di_convert_ns :: int
  di_elapsed :: nat

text \<open>The native side enters the trampoline with the registered box, and leaves it.\<close>

definition enter_sink :: "media_kind \<Rightarrow> delivery_input \<Rightarrow> sinks \<Rightarrow> sinks option" where
  "enter_sink media i w =
     (case (sk_running w, sk_native w) of
        (None, Some b) \<Rightarrow>
          Some (w\<lparr>sk_running := Some b, sk_calls := b # sk_calls w,
                  sk_totals :=
                    (if media = Video
                     then (sk_totals w)(b :=
                            fst (snd (video_sink_tramp (sk_format w b) (sk_totals w b) (di_queue i) (di_pixels i)
                                   (di_width i) (di_height i) (di_ssrc i) (di_timestamp i) (di_convert_ns i)
                                   (di_elapsed i))))
                     else sk_totals w)\<rparr>)
      | _ \<Rightarrow> None)"

definition leave_sink :: "sinks \<Rightarrow> sinks" where
  "leave_sink w = w\<lparr>sk_running := None\<rparr>"

definition vt_sink_timings :: "sinks \<Rightarrow> sink_timings" where
  "vt_sink_timings w = sk_totals w (sk_timings w)"

text \<open>The drop: the native track is destroyed, which detaches its sink the same way, then the
  fields are. It needs the track for itself, so no thread is inside it.\<close>

definition destroy_native_track :: "sinks \<Rightarrow> sinks option" where
  "destroy_native_track w =
     (if sk_running w \<noteq> None then None else Some (w\<lparr>sk_native := None, sk_dropped := True\<rparr>))"

definition drop_fields :: "sinks \<Rightarrow> sinks" where
  "drop_fields w = w\<lparr>sk_live := sk_live w - set_option (sk_stored w), sk_stored := None\<rparr>"

definition attach_sink :: "media_kind \<Rightarrow> pixel_format \<Rightarrow> thread \<Rightarrow> sinks \<Rightarrow> sinks option" where
  "attach_sink media = (if media = Video then attach_video_sink else attach_audio_sink)"

inductive sink_step :: "media_kind \<Rightarrow> sinks \<Rightarrow> sinks \<Rightarrow> bool" for media where
  attaching: "\<not> sk_dropped w \<Longrightarrow> attach_sink media format t w = Some w' \<Longrightarrow> sink_step media w w'"
| entering: "enter_sink media i w = Some w' \<Longrightarrow> sink_step media w w'"
| leaving: "sk_running w \<noteq> None \<Longrightarrow> sink_step media w (leave_sink w)"
| destroying: "\<not> sk_dropped w \<Longrightarrow> \<forall>t. sk_pc w t = Outside \<Longrightarrow> destroy_native_track w = Some w' \<Longrightarrow> sink_step media w w'"
| dropping: "sk_dropped w \<Longrightarrow> sink_step media w (drop_fields w)"

inductive sinks_reachable :: "media_kind \<Rightarrow> sinks \<Rightarrow> bool" for media where
  start: "sinks_reachable media sinks_new"
| step: "sinks_reachable media w \<Longrightarrow> sink_step media w w' \<Longrightarrow> sinks_reachable media w'"

section \<open>The invariant\<close>

text \<open>The box a thread has made and the track does not own yet.\<close>

fun own_box :: "attach_pc \<Rightarrow> nat option" where
  "own_box (Boxed b) = Some b"
| "own_box (Holding b) = Some b"
| "own_box (Registered b) = Some b"
| "own_box _ = None"

fun in_section :: "attach_pc \<Rightarrow> bool" where
  "in_section Outside = False"
| "in_section (Boxed _) = False"
| "in_section _ = True"

text \<open>Boxes: the live ones are the stored one and those of the threads, each of one thread.\<close>

definition boxes_ok :: "sinks \<Rightarrow> bool" where
  "boxes_ok w \<longleftrightarrow>
     sk_live w = set_option (sk_stored w) \<union> {b. \<exists>t. own_box (sk_pc w t) = Some b} \<and>
     (\<forall>b \<in> sk_live w. 0 < b \<and> b < sk_next w) \<and> 0 < sk_next w \<and>
     (\<forall>t u b. own_box (sk_pc w t) = Some b \<longrightarrow> own_box (sk_pc w u) = Some b \<longrightarrow> t = u) \<and>
     (\<forall>t b. own_box (sk_pc w t) = Some b \<longrightarrow> sk_stored w \<noteq> Some b)"

definition lock_ok :: "sinks \<Rightarrow> bool" where
  "lock_ok w \<longleftrightarrow> (\<forall>t. in_section (sk_pc w t) \<longleftrightarrow> sk_lock w = Some t) \<and>
     (sk_dropped w \<longrightarrow> (\<forall>t. sk_pc w t = Outside) \<and> sk_native w = None)"

text \<open>Native side and owner agree, but for a thread between its registration and its store.\<close>

definition due_native :: "sinks \<Rightarrow> nat option" where
  "due_native w =
     (case sk_lock w of
        None \<Rightarrow> sk_stored w
      | Some t \<Rightarrow> (case sk_pc w t of Registered b \<Rightarrow> Some b | _ \<Rightarrow> sk_stored w))"

definition native_ok :: "sinks \<Rightarrow> bool" where
  "native_ok w \<longleftrightarrow>
     (\<forall>b. sk_running w = Some b \<longrightarrow> sk_native w = Some b) \<and>
     (sk_dropped w \<or> sk_native w = due_native w) \<and>
     (\<forall>t b. sk_pc w t = Stored b \<or> sk_pc w t = Swapped b \<longrightarrow> sk_stored w = Some b)"

text \<open>The totals: those of the stored box, but for a thread that has not swapped them yet.\<close>

definition totals_ok :: "sinks \<Rightarrow> bool" where
  "totals_ok w \<longleftrightarrow>
     (\<forall>b. vs_frames (sk_totals w b) = count_list (sk_calls w) b) \<and>
     (\<forall>b \<in> set (sk_calls w). 0 < b \<and> b < sk_next w) \<and>
     ((\<forall>t b. sk_pc w t \<noteq> Stored b) \<longrightarrow> \<not> sk_dropped w \<longrightarrow>
        sk_timings w = (case sk_stored w of None \<Rightarrow> 0 | Some b \<Rightarrow> b))"

definition sinks_inv :: "media_kind \<Rightarrow> sinks \<Rightarrow> bool" where
  "sinks_inv media w \<longleftrightarrow> boxes_ok w \<and> lock_ok w \<and> native_ok w \<and> (media = Video \<longrightarrow> totals_ok w)"

lemma sinks_inv_new: "sinks_inv media sinks_new"
  by (simp add: sinks_inv_def boxes_ok_def lock_ok_def native_ok_def due_native_def totals_ok_def sinks_new_def no_timings_def)

lemmas attach_ops = make_box_def take_lock_def register_sink_def store_box_def unlock_def at_pc_def Let_def

lemma in_section_lock: "lock_ok w \<Longrightarrow> in_section (sk_pc w t) \<Longrightarrow> sk_lock w = Some t"
  by (simp add: lock_ok_def)

lemma live_bounds: "boxes_ok w \<Longrightarrow> b \<in> sk_live w \<Longrightarrow> 0 < b \<and> b < sk_next w"
  by (simp add: boxes_ok_def)

lemma boxes_cong:
  assumes "boxes_ok w" "\<forall>u. own_box (sk_pc w' u) = own_box (sk_pc w u)"
    and "sk_live w' = sk_live w" "sk_stored w' = sk_stored w" "sk_next w' = sk_next w"
  shows "boxes_ok w'"
  using assms by (simp add: boxes_ok_def)

lemma boxes_make:
  assumes "boxes_ok w" "sk_pc w t = Outside"
  shows "boxes_ok (make_box format t w)"
proof -
  have fresh: "own_box (sk_pc w u) \<noteq> Some (sk_next w)" "sk_stored w \<noteq> Some (sk_next w)" for u
    using assms(1) by (force simp: boxes_ok_def)+
  show ?thesis
    using assms fresh unfolding boxes_ok_def attach_ops
    by (auto simp: less_Suc_eq) (metis option.distinct(1) own_box.simps(4))
qed

lemma boxes_store:
  assumes "boxes_ok w" "sk_pc w t = Registered b"
  shows "boxes_ok (store_box b t w)"
proof -
  have inj: "\<forall>t u b. own_box (sk_pc w t) = Some b \<longrightarrow> own_box (sk_pc w u) = Some b \<longrightarrow> t = u"
    and bounds: "\<forall>b \<in> sk_live w. 0 < b \<and> b < sk_next w" "0 < sk_next w"
    and live: "sk_live w = set_option (sk_stored w) \<union> {b. \<exists>t. own_box (sk_pc w t) = Some b}"
    and apart: "\<forall>t b. own_box (sk_pc w t) = Some b \<longrightarrow> sk_stored w \<noteq> Some b"
    using assms(1) unfolding boxes_ok_def by blast+
  have mine: "own_box (sk_pc w t) = Some b" using assms(2) by simp
  with inj have others: "own_box (sk_pc w u) = Some b \<longleftrightarrow> u = t" for u by metis
  let ?w = "store_box b t w"
  have owned: "own_box (sk_pc ?w u) = (if u = t then None else own_box (sk_pc w u))" for u
    by (simp add: store_box_def at_pc_def)
  have fields: "sk_live ?w = sk_live w - set_option (sk_stored w)" "sk_stored ?w = Some b" "sk_next ?w = sk_next w"
    by (simp_all add: store_box_def at_pc_def)
  have "{c. \<exists>u. own_box (sk_pc w u) = Some c} - set_option (sk_stored w) = {c. \<exists>u. own_box (sk_pc w u) = Some c}"
    using apart by auto
  moreover have "{c. \<exists>u. own_box (sk_pc w u) = Some c} = insert b {c. \<exists>u. own_box (sk_pc ?w u) = Some c}"
    using mine unfolding owned by (auto, metis option.inject)
  ultimately have "sk_live ?w = insert b {c. \<exists>u. own_box (sk_pc ?w u) = Some c}"
    unfolding fields live by blast
  moreover have "\<forall>c \<in> sk_live ?w. 0 < c \<and> c < sk_next ?w"
    using bounds(1) by (simp add: fields)
  moreover have "\<forall>u c. own_box (sk_pc ?w u) = Some c \<longrightarrow> c \<noteq> b"
    using others by (auto simp: owned)
  ultimately show ?thesis
    using inj bounds(2) unfolding boxes_ok_def fields by (simp add: owned) metis
qed

lemmas attach_cases = attach_sink_def attach_video_sink_def attach_audio_sink_def

lemma boxes_attach:
  assumes "boxes_ok w" "attach_sink media format t w = Some w'"
  shows "boxes_ok w'"
proof (cases "sk_pc w t")
  case Outside
  then show ?thesis using assms boxes_make by (auto simp: attach_cases split: if_splits)
next
  case (Registered b)
  then show ?thesis using assms boxes_store by (auto simp: attach_cases split: if_splits)
qed (use assms(2) in \<open>auto simp: attach_cases attach_ops intro!: boxes_cong [OF assms(1)] split: if_splits\<close>)

lemma lock_step:
  assumes "lock_ok w" "\<not> sk_dropped w" "\<not> sk_dropped w'"
    and "sk_pc w' = (sk_pc w)(t := pc)"
    and "sk_lock w' = (if in_section pc then Some t else if in_section (sk_pc w t) then None else sk_lock w)"
    and "in_section pc \<and> \<not> in_section (sk_pc w t) \<Longrightarrow> sk_lock w = None"
  shows "lock_ok w'"
proof -
  have held: "in_section (sk_pc w u) \<longleftrightarrow> sk_lock w = Some u" for u
    using assms(1) by (simp add: lock_ok_def)
  have "in_section (sk_pc w' u) \<longleftrightarrow> sk_lock w' = Some u" for u
    using held [of u] held [of t] assms(6) by (auto simp: assms(4,5))
  then show ?thesis using assms(3) by (simp add: lock_ok_def)
qed

lemma lock_attach:
  assumes "lock_ok w" "\<not> sk_dropped w" "attach_sink media format t w = Some w'"
  shows "lock_ok w'" "\<not> sk_dropped w'"
proof -
  have held: "in_section (sk_pc w t) \<longleftrightarrow> sk_lock w = Some t"
    using assms(1) by (simp add: lock_ok_def)
  show dropped: "\<not> sk_dropped w'"
    using assms(2,3) by (auto simp: attach_cases attach_ops split: if_splits attach_pc.splits)
  show "lock_ok w'"
    by (rule lock_step [OF assms(1,2) dropped, of t "sk_pc w' t"])
       (use assms(3) held in \<open>auto simp: attach_cases attach_ops split: if_splits attach_pc.splits\<close>)
qed

lemma due_native_cong:
  "sk_lock w' = sk_lock w \<Longrightarrow> sk_pc w' = sk_pc w \<Longrightarrow> sk_stored w' = sk_stored w \<Longrightarrow> due_native w' = due_native w"
  by (simp add: due_native_def split: option.split attach_pc.split)

lemma native_outside:
  assumes "native_ok w" "sk_lock w \<noteq> Some t" "sk_pc w' = (sk_pc w)(t := pc)" "\<not> in_section pc"
    and "sk_native w' = sk_native w" "sk_stored w' = sk_stored w" "sk_running w' = sk_running w"
    and "sk_lock w' = sk_lock w" "sk_dropped w' = sk_dropped w"
  shows "native_ok w'"
  using assms by (cases pc; cases "sk_lock w") (auto simp: native_ok_def due_native_def split: attach_pc.splits)

lemma native_inside:
  assumes "native_ok w" "\<And>u b. sk_pc w u = Stored b \<or> sk_pc w u = Swapped b \<Longrightarrow> u = t"
    and "sk_pc w' = (sk_pc w)(t := pc)" "sk_lock w' = (if in_section pc then Some t else None)"
    and "\<forall>b. sk_running w' = Some b \<longrightarrow> sk_native w' = Some b"
    and "sk_native w' = (case pc of Registered b \<Rightarrow> Some b | _ \<Rightarrow> sk_stored w')"
    and "\<forall>b. pc = Stored b \<or> pc = Swapped b \<longrightarrow> sk_stored w' = Some b"
  shows "native_ok w'"
  using assms by (auto simp: native_ok_def due_native_def split: attach_pc.splits)

lemma native_attach:
  assumes "lock_ok w" "native_ok w" "\<not> sk_dropped w" "attach_sink media format t w = Some w'"
  shows "native_ok w'"
proof -
  have held: "in_section (sk_pc w u) \<longleftrightarrow> sk_lock w = Some u" for u
    using assms(1) by (simp add: lock_ok_def)
  show ?thesis
  proof (cases "in_section (sk_pc w t) \<or> sk_lock w = None \<and> sk_pc w t \<noteq> Outside")
    case True
    have alone: "\<And>u b. sk_pc w u = Stored b \<or> sk_pc w u = Swapped b \<Longrightarrow> u = t"
      using held held [of t] True by (metis in_section.simps(5,6) option.distinct(1) option.inject)
    show ?thesis
      by (rule native_inside [OF assms(2) alone, where pc = "sk_pc w' t"])
         (use True held [of t] assms(2,3,4) in
           \<open>auto simp: attach_cases attach_ops native_ok_def due_native_def split: if_splits attach_pc.splits\<close>)
  next
    case False
    then show ?thesis
      using held [of t] assms(4)
      by (intro native_outside [OF assms(2), of t w' "sk_pc w' t"])
         (auto simp: attach_cases attach_ops split: if_splits attach_pc.splits)
  qed
qed

lemma totals_cong:
  assumes "totals_ok w" "sk_pc w' = (sk_pc w)(t := pc)" "\<forall>b. sk_pc w t \<noteq> Stored b"
    and "(\<exists>b. pc = Stored b) \<or> sk_stored w' = sk_stored w"
    and "sk_timings w' = sk_timings w" "sk_totals w' = sk_totals w" "sk_calls w' = sk_calls w"
    and "sk_next w' = sk_next w" "sk_dropped w' = sk_dropped w"
  shows "totals_ok w'"
proof -
  have "(\<forall>u b. sk_pc w' u \<noteq> Stored b) \<longrightarrow> (\<forall>u b. sk_pc w u \<noteq> Stored b) \<and> sk_stored w' = sk_stored w"
    using assms(2-4) by (metis fun_upd_apply)
  with assms show ?thesis unfolding totals_ok_def by auto
qed

lemma totals_attach:
  assumes "native_ok w" "totals_ok w" "\<not> sk_dropped w" and "attach_video_sink format t w = Some w'"
  shows "totals_ok w'"
proof (cases "sk_pc w t")
  case Outside
  have "count_list (sk_calls w) (sk_next w) = 0"
    using assms(2) by (auto simp: totals_ok_def count_list_0_iff)
  moreover have w': "w' = make_box format t w" using Outside assms(4) by (simp add: attach_video_sink_def)
  moreover have "(\<forall>u b. sk_pc w' u \<noteq> Stored b) \<longrightarrow> (\<forall>u b. sk_pc w u \<noteq> Stored b)"
    using Outside unfolding w' attach_ops by (simp add: fun_upd_apply) (metis attach_pc.distinct(7))
  ultimately show ?thesis using assms(2)
    unfolding totals_ok_def w' attach_ops by (auto simp: no_timings_def less_SucI)
next
  case (Stored b)
  moreover have "sk_stored w = Some b" using assms(1) Stored by (auto simp: native_ok_def)
  ultimately show ?thesis using assms(2,4) by (auto simp: totals_ok_def attach_video_sink_def attach_ops)
qed (use assms(4) in \<open>auto simp: attach_video_sink_def attach_ops intro!: totals_cong [OF assms(2)] split: if_splits\<close>)

lemma native_live:
  assumes "sinks_inv media w" "sk_native w = Some b"
  shows "b \<in> sk_live w"
proof -
  have "sk_stored w = Some b \<or> (\<exists>t. own_box (sk_pc w t) = Some b)"
    using assms unfolding sinks_inv_def native_ok_def due_native_def lock_ok_def
    by (auto split: option.splits attach_pc.splits) (metis own_box.simps(3))+
  then show ?thesis using assms(1) by (auto simp: sinks_inv_def boxes_ok_def)
qed

lemma frames_counted:
  "vs_frames (fst (snd (video_sink_tramp format totals q pixels width height ssrc ts convert_ns elapsed)))
     = vs_frames totals + 1"
  by (simp add: video_sink_tramp_def Let_def split: prod.split)

lemma sinks_inv_enter:
  assumes inv: "sinks_inv media w" and enter: "enter_sink media i w = Some w'"
  shows "sinks_inv media w'"
proof -
  obtain b where b: "sk_native w = Some b" "sk_running w = None"
    using enter by (auto simp: enter_sink_def split: option.splits)
  have bounds: "0 < b" "b < sk_next w"
    using native_live [OF inv b(1)] inv by (auto simp: sinks_inv_def dest: live_bounds)
  have fields: "sk_running w' = Some b" "sk_calls w' = b # sk_calls w" "sk_next w' = sk_next w"
    "sk_live w' = sk_live w" "sk_pc w' = sk_pc w" "sk_lock w' = sk_lock w" "sk_stored w' = sk_stored w"
    "sk_timings w' = sk_timings w" "sk_native w' = sk_native w" "sk_dropped w' = sk_dropped w"
    using enter b by (auto simp: enter_sink_def)
  have totals: "vs_frames (sk_totals w' c) = vs_frames (sk_totals w c) + (if c = b then 1 else 0)"
    if "media = Video" for c
    using enter b that by (auto simp: enter_sink_def frames_counted)
  have "boxes_ok w'" "lock_ok w'" "native_ok w'"
    using inv b by (simp_all add: sinks_inv_def boxes_ok_def lock_ok_def native_ok_def fields due_native_cong [of w' w]) blast
  moreover have "totals_ok w'" if "media = Video"
    using inv that bounds by (simp add: sinks_inv_def totals_ok_def fields totals)
  ultimately show ?thesis by (simp add: sinks_inv_def)
qed

lemma sinks_inv_step:
  assumes "sink_step media w w'" and inv: "sinks_inv media w"
  shows "sinks_inv media w'"
  using assms(1)
proof cases
  case (attaching format t)
  have parts: "boxes_ok w" "lock_ok w" "native_ok w" "media = Video \<longrightarrow> totals_ok w"
    using inv by (simp_all add: sinks_inv_def)
  have "totals_ok w'" if "media = Video"
    using totals_attach [OF parts(3) _ attaching(1)] attaching(2) that parts(4) by (simp add: attach_sink_def)
  then show ?thesis
    using boxes_attach [OF parts(1) attaching(2)] lock_attach(1) [OF parts(2) attaching]
      native_attach [OF parts(2,3) attaching] by (simp add: sinks_inv_def)
next
  case (entering i)
  then show ?thesis by (rule sinks_inv_enter [OF inv])
next
  case leaving
  then show ?thesis
    using inv due_native_cong [of "leave_sink w" w]
    by (simp add: leave_sink_def sinks_inv_def boxes_ok_def lock_ok_def native_ok_def totals_ok_def)
next
  case destroying
  have w': "w' = w\<lparr>sk_native := None, sk_dropped := True\<rparr>" "sk_running w = None"
    using destroying(3) by (simp_all add: destroy_native_track_def split: if_splits)
  have free: "sk_lock w \<noteq> Some t" for t
    using inv destroying(2) by (auto simp: sinks_inv_def lock_ok_def)
  show ?thesis
    using inv destroying(2) w'(2) free
    unfolding w'(1) sinks_inv_def boxes_ok_def lock_ok_def native_ok_def totals_ok_def by simp
next
  case dropping
  have pcs: "\<forall>t. sk_pc w t = Outside" "sk_native w = None"
    using inv dropping(2) by (simp_all add: sinks_inv_def lock_ok_def)
  show ?thesis
    using inv dropping(2) pcs
    unfolding dropping(1) drop_fields_def sinks_inv_def boxes_ok_def lock_ok_def native_ok_def totals_ok_def by simp
qed

lemma sinks_inv_reachable: "sinks_reachable media w \<Longrightarrow> sinks_inv media w"
  by (induction rule: sinks_reachable.induct) (auto intro: sinks_inv_new sinks_inv_step)

section \<open>No sink dangles\<close>

text \<open>C37: A sink is never called after it was freed. Whatever threads attach sinks to a track
  while libwebrtc delivers frames, and whenever the track is dropped, the address the native side
  holds and the one a delivery in progress reads are of a box that is allocated. When no thread is
  attaching, exactly the box the track owns is allocated, so replaced sinks do not leak; it is the
  one the native side calls; and a video track's timings count exactly the frames delivered to
  it. A dropped track leaves no box.\<close>
theorem sinks_never_dangle:
  assumes "sinks_reachable media w"
  shows "(\<forall>b. sk_running w = Some b \<or> sk_native w = Some b \<longrightarrow> b \<in> sk_live w)
    \<and> ((\<forall>t. sk_pc w t = Outside) \<longrightarrow>
         sk_live w = set_option (sk_stored w) \<and>
         (\<not> sk_dropped w \<longrightarrow> sk_native w = sk_stored w \<and>
            (media = Video \<longrightarrow> vs_frames (vt_sink_timings w) =
               (case sk_stored w of None \<Rightarrow> 0 | Some b \<Rightarrow> count_list (sk_calls w) b))))
    \<and> (sk_dropped w \<longrightarrow> sk_live (drop_fields w) = {})"
proof -
  have inv: "sinks_inv media w" by (rule sinks_inv_reachable [OF assms])
  have called: "sk_native w = Some b" if "sk_running w = Some b" for b
    using inv that by (simp add: sinks_inv_def native_ok_def)
  have quiet: "sk_live w = set_option (sk_stored w) \<and>
      (\<not> sk_dropped w \<longrightarrow> sk_native w = sk_stored w \<and>
         (media = Video \<longrightarrow> sk_timings w = (case sk_stored w of None \<Rightarrow> 0 | Some b \<Rightarrow> b)))"
    if "\<forall>t. sk_pc w t = Outside"
  proof -
    have "sk_lock w = None" using inv that by (auto simp: sinks_inv_def lock_ok_def)
    then show ?thesis using inv that by (simp add: sinks_inv_def boxes_ok_def native_ok_def due_native_def totals_ok_def) blast
  qed
  have frames: "vs_frames (sk_totals w b) = count_list (sk_calls w) b" "count_list (sk_calls w) 0 = 0"
    if "media = Video" for b
    using inv that by (auto simp: sinks_inv_def totals_ok_def count_list_0_iff)
  have "sk_live (drop_fields w) = {}" if "sk_dropped w"
  proof -
    have "\<forall>t. sk_pc w t = Outside" using inv that by (simp add: sinks_inv_def lock_ok_def)
    then show ?thesis using quiet by (simp add: drop_fields_def)
  qed
  then show ?thesis
    using called native_live [OF inv] quiet frames
    by (auto simp: vt_sink_timings_def split: option.split)
qed

lemma sinks_never_dangle_witness:
  "\<exists>w. sinks_reachable Video w \<and> sk_running w = Some 1 \<and> 1 \<in> sk_live w \<and> vs_frames (vt_sink_timings w) = 1"
proof -
  define w1 where "w1 = make_box Bgra 0 sinks_new"
  define w2 where "w2 = at_pc 0 (Holding 1) (w1\<lparr>sk_lock := Some 0\<rparr>)"
  define w3 where "w3 = at_pc 0 (Registered 1) (w2\<lparr>sk_native := Some 1\<rparr>)"
  define w4 where "w4 = store_box 1 0 w3"
  define w5 where "w5 = at_pc 0 (Swapped 1) (w4\<lparr>sk_timings := 1\<rparr>)"
  define w6 where "w6 = unlock 0 w5"
  note defs = w1_def w2_def w3_def w4_def w5_def w6_def attach_ops sinks_new_def
  have steps: "sink_step Video sinks_new w1" "sink_step Video w1 w2" "sink_step Video w2 w3" "sink_step Video w3 w4"
    "sink_step Video w4 w5" "sink_step Video w5 w6"
    by (rule sink_step.attaching [where t = 0 and format = Bgra];
        simp add: attach_sink_def attach_video_sink_def defs)+
  define i where "i = \<lparr>di_queue = [], di_pixels = [], di_width = 0, di_height = 0, di_ssrc = 0,
     di_timestamp = 0, di_convert_ns = 0, di_elapsed = 0\<rparr>"
  have w6: "sk_native w6 = Some 1" "sk_running w6 = None" "sk_calls w6 = []" "sk_stored w6 = Some 1"
    "\<not> sk_dropped w6" "sk_pc w6 t = Outside" for t
    by (simp_all add: defs)
  obtain w7 where w7: "enter_sink Video i w6 = Some w7"
    by (simp add: enter_sink_def w6)
  then have after: "sk_running w7 = Some 1" "sk_calls w7 = [1]" "sk_stored w7 = Some 1" "\<not> sk_dropped w7"
    "sk_pc w7 t = Outside" for t
    by (auto simp: enter_sink_def w6)
  have "sinks_reachable Video w6"
    using steps by (meson sinks_reachable.start sinks_reachable.step)
  then have r: "sinks_reachable Video w7"
    by (rule sinks_reachable.step) (rule sink_step.entering [OF w7])
  have "1 \<in> sk_live w7" "vs_frames (vt_sink_timings w7) = 1"
    using sinks_never_dangle [OF r] after by simp_all
  with r after(1) show ?thesis by blast
qed

end
