(* ===== verification/Encoder_Registry.thy ===== *)
theory Encoder_Registry
  imports Media
begin

text \<open>
  Per-track encoders (\<open>crates/reactor-webrtc/src/encoded.rs\<close>): the registry that routes each
  native encoder instance to the slot of a track, the encode and rate-control entry points, and the
  track that takes pre-encoded frames.

  A slot's queue, its feedback listeners and an inline callback are allocations with an identity;
  the world holds what they contain: the queued frames, the events delivered to each listener and
  the frames each inline callback was called with. A callback's answer is a function of its
  earlier calls and the frame (\<open>inline\<close>, the caller's code). The warnings printed to standard
  error and the \<open>f64\<close> frame rate, which is passed through as it is, are not modelled.
\<close>

section \<open>Frames\<close>

record encoded_video_frame =
  vd_data :: bytes
  vd_is_key_frame :: bool
  vd_width :: u32
  vd_height :: u32
  vd_rtp_timestamp :: u32

text \<open>A native raw frame: a null plane is None, otherwise the memory from its pointer on.\<close>

record native_raw_frame =
  nr_encoder_id :: nat
  nr_codec :: u32
  nr_y :: "bytes option"
  nr_y_stride :: int
  nr_u :: "bytes option"
  nr_u_stride :: int
  nr_v :: "bytes option"
  nr_v_stride :: int
  nr_width :: u32
  nr_height :: u32
  nr_rtp_timestamp :: u32
  nr_request_key_frame :: int

record raw_video_frame =
  rv_codec :: video_codec
  rv_y :: bytes
  rv_y_stride :: u32
  rv_u :: bytes
  rv_u_stride :: u32
  rv_v :: bytes
  rv_v_stride :: u32
  rv_width :: u32
  rv_height :: u32
  rv_rtp_timestamp :: u32
  rv_request_key_frame :: bool

definition plane :: "nat \<Rightarrow> bytes option \<Rightarrow> bytes" where
  "plane n p = (case p of None \<Rightarrow> [] | Some memory \<Rightarrow> take n memory)"

definition raw_view :: "native_raw_frame \<Rightarrow> raw_video_frame" where
  "raw_view r =
     (let y_len = nat (max (nr_y_stride r) 0) * unat (nr_height r);
          uv_len = nat (max (nr_u_stride r) 0) * ((unat (nr_height r) + 1) div 2)
      in \<lparr>rv_codec = (case codec_from_u32 (unat (nr_codec r)) of Some c \<Rightarrow> c | None \<Rightarrow> H264),
          rv_y = plane y_len (nr_y r), rv_y_stride = word_of_int (nr_y_stride r),
          rv_u = plane uv_len (nr_u r), rv_u_stride = word_of_int (nr_u_stride r),
          rv_v = plane uv_len (nr_v r), rv_v_stride = word_of_int (nr_v_stride r),
          rv_width = nr_width r, rv_height = nr_height r, rv_rtp_timestamp = nr_rtp_timestamp r,
          rv_request_key_frame = (nr_request_key_frame r \<noteq> 0)\<rparr>)"

section \<open>Feedback\<close>

datatype encoder_feedback = KeyFrameRequest | RateUpdate u32

record encoder_world =
  ew_queues :: "nat \<Rightarrow> encoded_video_frame list"
  ew_listening :: "nat \<Rightarrow> bool"
  ew_events :: "nat \<Rightarrow> encoder_feedback list"
  ew_calls :: "nat \<Rightarrow> raw_video_frame list"

definition fb_set :: "encoder_world \<Rightarrow> nat \<Rightarrow> encoder_world" where
  "fb_set w listeners = w\<lparr>ew_listening := (ew_listening w)(listeners := True)\<rparr>"

definition fb_fire :: "encoder_world \<Rightarrow> nat \<Rightarrow> encoder_feedback \<Rightarrow> encoder_world" where
  "fb_fire w listeners feedback =
     (if ew_listening w listeners
      then w\<lparr>ew_events := (ew_events w)(listeners := ew_events w listeners @ [feedback])\<rparr>
      else w)"

definition register_feedback_binding :: "(nat \<Rightarrow> nat option) \<Rightarrow> nat \<Rightarrow> nat \<Rightarrow> nat \<Rightarrow> nat option" where
  "register_feedback_binding b native_id listeners =
     (if native_id \<noteq> 0 then b(native_id := Some listeners) else b)"

definition deregister_feedback_binding :: "(nat \<Rightarrow> nat option) \<Rightarrow> nat \<Rightarrow> nat \<Rightarrow> nat option" where
  "deregister_feedback_binding b native_id = b(native_id := None)"

definition feedback_binding :: "(nat \<Rightarrow> nat option) \<Rightarrow> nat \<Rightarrow> nat option" where
  "feedback_binding b native_id = b native_id"

text \<open>\<open>VideoTrack::on_encoder_feedback\<close>; the long dash of its message is a hyphen here.\<close>

definition on_encoder_feedback ::
  "(nat \<Rightarrow> nat option) \<Rightarrow> track \<Rightarrow> encoder_world \<Rightarrow> unit result \<times> encoder_world" where
  "on_encoder_feedback b t w =
     (case guard_remote t of
        Inl e \<Rightarrow> (Inl e, w)
      | Inr _ \<Rightarrow>
          (case feedback_binding b (tk_native_id t) of
             None \<Rightarrow> (Inl (Webrtc (Text ''on_encoder_feedback is only valid on tracks created with                  TrackVideoEncoder::Inline - builtin-encoder tracks adapt internally'')), w)
           | Some listeners \<Rightarrow> (Inr (), fb_set w listeners)))"

section \<open>Slots\<close>

datatype backend_pref = AutoBackend | VideoToolbox | OpenH264

fun as_c_int :: "backend_pref \<Rightarrow> int" where
  "as_c_int AutoBackend = 0"
| "as_c_int VideoToolbox = 1"
| "as_c_int OpenH264 = 2"

datatype registry_slot =
    Custom nat nat \<comment> \<open>queue, listeners\<close>
  | Inline nat nat \<comment> \<open>callback, listeners\<close>
  | Builtin backend_pref

definition is_custom :: "registry_slot \<Rightarrow> bool" where
  "is_custom s = (case s of Builtin _ \<Rightarrow> False | _ \<Rightarrow> True)"

record reservation =
  rs_native_id :: nat
  rs_slot :: registry_slot

record encoder_registry =
  er_pending :: "reservation list"
  er_assigned :: "(nat \<times> reservation) list"

definition er_new :: encoder_registry where
  "er_new = \<lparr>er_pending = [], er_assigned = []\<rparr>"

definition reserve :: "encoder_registry \<Rightarrow> nat \<Rightarrow> registry_slot \<Rightarrow> encoder_registry" where
  "reserve r native_id slot = r\<lparr>er_pending := er_pending r @ [\<lparr>rs_native_id = native_id, rs_slot = slot\<rparr>]\<rparr>"

definition add_encoded_slot :: "encoder_registry \<Rightarrow> nat \<Rightarrow> nat \<Rightarrow> nat \<Rightarrow> encoder_registry" where
  "add_encoded_slot r native_id queue feedback = reserve r native_id (Custom queue feedback)"

definition add_raw_slot_with_backend :: "encoder_registry \<Rightarrow> nat \<Rightarrow> backend_pref \<Rightarrow> encoder_registry" where
  "add_raw_slot_with_backend r native_id backend = reserve r native_id (Builtin backend)"

definition add_raw_slot :: "encoder_registry \<Rightarrow> nat \<Rightarrow> encoder_registry" where
  "add_raw_slot r native_id = add_raw_slot_with_backend r native_id AutoBackend"

definition add_inline_slot :: "encoder_registry \<Rightarrow> nat \<Rightarrow> nat \<Rightarrow> nat \<Rightarrow> encoder_registry" where
  "add_inline_slot r native_id callback feedback = reserve r native_id (Inline callback feedback)"

definition retract_assigned :: "nat \<Rightarrow> reservation \<Rightarrow> reservation" where
  "retract_assigned native_id a =
     (if rs_native_id a = native_id \<and> is_custom (rs_slot a) then a\<lparr>rs_slot := Builtin AutoBackend\<rparr> else a)"

definition retract :: "encoder_registry \<Rightarrow> nat \<Rightarrow> encoder_registry" where
  "retract r native_id =
     r\<lparr>er_pending := filter (\<lambda>p. rs_native_id p \<noteq> native_id) (er_pending r),
       er_assigned := map (\<lambda>(e, a). (e, retract_assigned native_id a)) (er_assigned r)\<rparr>"

definition has_custom :: "encoder_registry \<Rightarrow> bool" where
  "has_custom r =
     (list_ex (\<lambda>p. is_custom (rs_slot p)) (er_pending r) \<or>
      list_ex (\<lambda>(_, a). is_custom (rs_slot a)) (er_assigned r))"

definition use_builtin_for :: "encoder_registry \<Rightarrow> nat \<Rightarrow> bool \<times> encoder_registry" where
  "use_builtin_for r encoder_id =
     (case map_of (er_assigned r) encoder_id of
        Some a \<Rightarrow> (\<not> is_custom (rs_slot a), r)
      | None \<Rightarrow>
          (case er_pending r of
             [] \<Rightarrow> (True, r)
           | p # rest \<Rightarrow>
               (\<not> is_custom (rs_slot p),
                r\<lparr>er_pending := rest, er_assigned := (encoder_id, p) # er_assigned r\<rparr>)))"

text \<open>The entry \<open>encode_for\<close> finds or makes.\<close>

definition bind_encoder :: "encoder_registry \<Rightarrow> nat \<Rightarrow> reservation \<times> encoder_registry" where
  "bind_encoder r encoder_id =
     (case map_of (er_assigned r) encoder_id of
        Some a \<Rightarrow> (a, r)
      | None \<Rightarrow>
          (case er_pending r of
             [] \<Rightarrow> (let a = \<lparr>rs_native_id = 0, rs_slot = Builtin AutoBackend\<rparr>
                   in (a, r\<lparr>er_assigned := (encoder_id, a) # er_assigned r\<rparr>))
           | p # rest \<Rightarrow> (p, r\<lparr>er_pending := rest, er_assigned := (encoder_id, p) # er_assigned r\<rparr>)))"

type_synonym inline_code = "nat \<Rightarrow> raw_video_frame list \<Rightarrow> raw_video_frame \<Rightarrow> encoded_video_frame option"

definition encode_for ::
  "inline_code \<Rightarrow> encoder_registry \<Rightarrow> encoder_world \<Rightarrow> nat \<Rightarrow> raw_video_frame
     \<Rightarrow> encoded_video_frame option \<times> encoder_registry \<times> encoder_world" where
  "encode_for inline r w encoder_id raw =
     (let (a, r') = bind_encoder r encoder_id in
      case rs_slot a of
        Custom queue feedback \<Rightarrow>
          (let w1 = (if rv_request_key_frame raw then fb_fire w feedback KeyFrameRequest else w) in
           case ew_queues w1 queue of
             [] \<Rightarrow> (None, r', w1)
           | f # rest \<Rightarrow> (Some f, r', w1\<lparr>ew_queues := (ew_queues w1)(queue := rest)\<rparr>))
      | Inline callback _ \<Rightarrow>
          (inline callback (ew_calls w callback) raw, r',
           w\<lparr>ew_calls := (ew_calls w)(callback := ew_calls w callback @ [raw])\<rparr>)
      | Builtin _ \<Rightarrow> (None, r', w))"

definition rate_update :: "encoder_registry \<Rightarrow> encoder_world \<Rightarrow> nat \<Rightarrow> u32 \<Rightarrow> encoder_world" where
  "rate_update r w encoder_id bitrate_bps =
     (case map_of (er_assigned r) encoder_id of
        None \<Rightarrow> w
      | Some a \<Rightarrow>
          (case rs_slot a of
             Custom _ feedback \<Rightarrow> fb_fire w feedback (RateUpdate bitrate_bps)
           | Inline _ feedback \<Rightarrow> fb_fire w feedback (RateUpdate bitrate_bps)
           | Builtin _ \<Rightarrow> w))"

definition backend_for :: "encoder_registry \<Rightarrow> nat \<Rightarrow> backend_pref" where
  "backend_for r encoder_id =
     (case map_of (er_assigned r) encoder_id of
        Some a \<Rightarrow> (case rs_slot a of Builtin pref \<Rightarrow> pref | _ \<Rightarrow> AutoBackend)
      | None \<Rightarrow> AutoBackend)"

section \<open>What the native side calls\<close>

record encoded_output =
  eo_data :: bytes
  eo_len :: nat
  eo_is_key_frame :: int
  eo_width :: u32
  eo_height :: u32
  eo_rtp_timestamp :: u32

definition fill_output :: "encoded_video_frame \<Rightarrow> encoded_output" where
  "fill_output f =
     \<lparr>eo_data = vd_data f, eo_len = length (vd_data f), eo_is_key_frame = (if vd_is_key_frame f then 1 else 0),
      eo_width = vd_width f, eo_height = vd_height f, eo_rtp_timestamp = vd_rtp_timestamp f\<rparr>"

text \<open>The result code, with what was written to the output; a null frame is None.\<close>

definition registry_encode_tramp ::
  "inline_code \<Rightarrow> encoder_registry \<Rightarrow> encoder_world \<Rightarrow> native_raw_frame option
     \<Rightarrow> int \<times> encoded_output option \<times> encoder_registry \<times> encoder_world" where
  "registry_encode_tramp inline r w raw =
     (case raw of
        None \<Rightarrow> (1, None, r, w)
      | Some n \<Rightarrow>
          (case encode_for inline r w (nr_encoder_id n) (raw_view n) of
             (None, r', w') \<Rightarrow> (1, None, r', w')
           | (Some f, r', w') \<Rightarrow> (0, Some (fill_output f), r', w')))"

definition registry_use_builtin_tramp :: "encoder_registry \<Rightarrow> nat \<Rightarrow> int \<times> encoder_registry" where
  "registry_use_builtin_tramp r encoder_id =
     (case use_builtin_for r encoder_id of (b, r') \<Rightarrow> (if b then 1 else 0, r'))"

definition registry_has_custom_tramp :: "encoder_registry \<Rightarrow> int" where
  "registry_has_custom_tramp r = (if has_custom r then 1 else 0)"

definition registry_backend_for_tramp :: "encoder_registry \<Rightarrow> nat \<Rightarrow> int" where
  "registry_backend_for_tramp r encoder_id = as_c_int (backend_for r encoder_id)"

section \<open>Pre-encoded tracks\<close>

record encoded_video_track =
  et_track :: track
  et_queue :: nat
  et_dummy :: bytes
  et_width :: u32
  et_height :: u32
  et_fifo :: fifo_meta
  et_feedback :: nat

text \<open>A track that takes encoded frames, with the registrations it replaces.\<close>

definition evt_new ::
  "registries \<Rightarrow> track \<Rightarrow> nat \<Rightarrow> nat \<Rightarrow> nat \<Rightarrow> u32 \<Rightarrow> u32 \<Rightarrow> encoded_video_track \<times> registries" where
  "evt_new rg t queue feedback fifo width height =
     (\<lparr>et_track = t, et_queue = queue, et_dummy = replicate (unat (width * height * 4)) 0,
       et_width = width, et_height = height, et_fifo = [], et_feedback = feedback\<rparr>,
      rg\<lparr>rg_send := register (rg_send rg) (tk_native_id t) fifo,
         rg_feedback := register_feedback_binding (rg_feedback rg) (tk_native_id t) feedback\<rparr>)"

definition enqueue_frame :: "encoder_world \<Rightarrow> nat \<Rightarrow> encoded_video_frame \<Rightarrow> encoder_world" where
  "enqueue_frame w queue f = w\<lparr>ew_queues := (ew_queues w)(queue := ew_queues w queue @ [f])\<rparr>"

definition evt_push_frame ::
  "encoded_video_track \<Rightarrow> encoder_world \<Rightarrow> int \<Rightarrow> encoded_video_frame
     \<Rightarrow> unit result \<times> encoded_video_track \<times> encoder_world" where
  "evt_push_frame et w now f =
     (case vt_push_frame (et_track et) now (vf_new (et_dummy et) (et_width et) (et_height et)) of
        (res, t') \<Rightarrow> (res, et\<lparr>et_track := t'\<rparr>, enqueue_frame w (et_queue et) f))"

definition evt_push_frame_with_metadata ::
  "encoded_video_track \<Rightarrow> encoder_world \<Rightarrow> int \<Rightarrow> encoded_video_frame \<Rightarrow> bytes
     \<Rightarrow> unit result \<times> encoded_video_track \<times> encoder_world" where
  "evt_push_frame_with_metadata et w now f user_data =
     (let (frame_id, t1) = next_frame_id (et_track et);
          meta = \<lparr>md_frame_id = frame_id, md_capture_time_us = word_of_int (max now 0), md_user_data = user_data\<rparr>;
          fifo = (if tk_metadata_enabled t1 then et_fifo et @ [meta] else et_fifo et)
      in case vt_push_frame t1 now (vf_new (et_dummy et) (et_width et) (et_height et)) of
           (res, t2) \<Rightarrow> (res, et\<lparr>et_track := t2, et_fifo := fifo\<rparr>, enqueue_frame w (et_queue et) f))"

end
