(* ===== verification/Encoder_Registry_Props.thy ===== *)
theory Encoder_Registry_Props
  imports Encoder_Registry Sender_Meta_Props "HOL-Library.Multiset"
begin

text \<open>
  What the encoder registry promises: encoders take slots in the order they were reserved and keep
  them, a slot serves one encoder only, a dropped track's slots never produce again while the
  others stay as they are, and a pre-encoded track's metadata leaves in the order of its frames.
\<close>

section \<open>Operations on the registry\<close>

datatype registry_op =
    OpReserve nat registry_slot
  | OpRetract nat
  | OpUseBuiltin nat
  | OpEncode nat

fun registry_step :: "encoder_registry \<Rightarrow> registry_op \<Rightarrow> encoder_registry" where
  "registry_step r (OpReserve native_id slot) = reserve r native_id slot"
| "registry_step r (OpRetract native_id) = retract r native_id"
| "registry_step r (OpUseBuiltin encoder_id) = snd (use_builtin_for r encoder_id)"
| "registry_step r (OpEncode encoder_id) = snd (bind_encoder r encoder_id)"

text \<open>The custom slots of a registry with their owners: those waiting and those taken.\<close>

definition custom_of :: "reservation list \<Rightarrow> (nat \<times> registry_slot) list" where
  "custom_of ps = map (\<lambda>p. (rs_native_id p, rs_slot p)) (filter (\<lambda>p. is_custom (rs_slot p)) ps)"

definition taken :: "encoder_registry \<Rightarrow> reservation list" where
  "taken r = map snd (er_assigned r)"

definition custom_slots :: "encoder_registry \<Rightarrow> (nat \<times> registry_slot) list" where
  "custom_slots r = custom_of (taken r) @ custom_of (er_pending r)"

lemma custom_of_simps [simp]:
  "custom_of [] = []"
  "custom_of (p # ps) = (if is_custom (rs_slot p) then (rs_native_id p, rs_slot p) # custom_of ps else custom_of ps)"
  "custom_of (ps @ qs) = custom_of ps @ custom_of qs"
  by (simp_all add: custom_of_def)

lemma builtin_not_custom [simp]: "\<not> is_custom (Builtin b)" "is_custom (Custom q f)" "is_custom (Inline c f)"
  by (simp_all add: is_custom_def)

lemma custom_of_filter: "custom_of (filter (\<lambda>p. rs_native_id p \<noteq> n) ps) = filter (\<lambda>(i, _). i \<noteq> n) (custom_of ps)"
  by (induction ps) auto

lemma custom_of_retract: "custom_of (map (retract_assigned n) ps) = filter (\<lambda>(i, _). i \<noteq> n) (custom_of ps)"
  by (induction ps) (auto simp: retract_assigned_def)

lemma taken_retract: "taken (retract r n) = map (retract_assigned n) (taken r)"
  by (simp add: taken_def retract_def case_prod_beta)

lemma custom_retract: "custom_slots (retract r n) = filter (\<lambda>(i, _). i \<noteq> n) (custom_slots r)"
  by (simp add: custom_slots_def taken_retract custom_of_retract)
     (simp add: retract_def custom_of_filter)

lemma use_builtin_bind:
  "map_of (er_assigned r) e = None \<Longrightarrow> er_pending r \<noteq> [] \<Longrightarrow> snd (use_builtin_for r e) = snd (bind_encoder r e)"
  by (cases "er_pending r") (simp_all add: use_builtin_for_def bind_encoder_def)

lemma mset_custom_bind: "mset (custom_slots (snd (bind_encoder r e))) = mset (custom_slots r)"
  by (auto simp: bind_encoder_def custom_slots_def taken_def Let_def split: option.split list.split)

lemma mset_custom_use: "mset (custom_slots (snd (use_builtin_for r e))) = mset (custom_slots r)"
  by (auto simp: use_builtin_for_def custom_slots_def taken_def split: option.split list.split)

text \<open>The allocation a slot feeds from: its queue or its callback.\<close>

fun slot_alloc :: "registry_slot \<Rightarrow> (bool \<times> nat) option" where
  "slot_alloc (Custom q _) = Some (True, q)"
| "slot_alloc (Inline c _) = Some (False, c)"
| "slot_alloc (Builtin _) = None"

text \<open>The custom slots a run reserves.\<close>

definition reserved :: "registry_op list \<Rightarrow> (nat \<times> registry_slot) list" where
  "reserved ops = concat (map (\<lambda>op. case op of OpReserve n s \<Rightarrow> if is_custom s then [(n, s)] else [] | _ \<Rightarrow> []) ops)"

lemma reserved_simps [simp]:
  "reserved [] = []"
  "reserved (OpReserve n s # ops) = (if is_custom s then (n, s) # reserved ops else reserved ops)"
  "reserved (OpRetract n # ops) = reserved ops"
  "reserved (OpUseBuiltin e # ops) = reserved ops"
  "reserved (OpEncode e # ops) = reserved ops"
  by (simp_all add: reserved_def)

lemma reserved_append [simp]: "reserved (ops @ ops') = reserved ops @ reserved ops'"
  by (simp add: reserved_def)

lemma custom_slots_step:
  "mset (custom_slots (registry_step r op)) \<subseteq># mset (custom_slots r) + mset (reserved [op])"
proof (cases op)
  case (OpRetract n)
  then show ?thesis by (simp add: custom_retract multiset_filter_subset)
next
  case (OpReserve n slot)
  then show ?thesis by (simp add: custom_slots_def taken_def reserve_def)
qed (simp_all add: mset_custom_bind mset_custom_use)

lemma assigned_distinct_step:
  "distinct (map fst (er_assigned r)) \<Longrightarrow> distinct (map fst (er_assigned (registry_step r op)))"
  by (cases op)
     (auto simp: reserve_def retract_def use_builtin_for_def bind_encoder_def Let_def case_prod_beta
       map_of_eq_None_iff comp_def split: option.split list.split)

lemma assigned_distinct_run:
  "distinct (map fst (er_assigned r)) \<Longrightarrow> distinct (map fst (er_assigned (foldl registry_step r ops)))"
  by (induction ops arbitrary: r) (auto intro: assigned_distinct_step)

lemma custom_slots_run:
  "mset (custom_slots (foldl registry_step r ops)) \<subseteq># mset (custom_slots r) + mset (reserved ops)"
proof (induction ops arbitrary: r)
  case (Cons op ops)
  have split: "mset (reserved (op # ops)) = mset (reserved [op]) + mset (reserved ops)"
    by (cases op) simp_all
  have "mset (custom_slots (registry_step r op)) + mset (reserved ops)
      \<subseteq># mset (custom_slots r) + mset (reserved [op]) + mset (reserved ops)"
    by (rule subset_mset.add_right_mono) (rule custom_slots_step)
  then have "mset (custom_slots (foldl registry_step (registry_step r op) ops))
      \<subseteq># mset (custom_slots r) + mset (reserved [op]) + mset (reserved ops)"
    by (rule subset_mset.order_trans [OF Cons.IH])
  then show ?case unfolding split by (simp add: add.assoc)
qed simp

lemma custom_slots_new [simp]: "custom_slots er_new = []"
  by (simp add: custom_slots_def taken_def er_new_def)

lemma distinct_submset:
  assumes "mset xs \<subseteq># mset ys" "distinct (map f ys)"
  shows "distinct (map f xs)"
proof -
  have "mset (map f xs) \<subseteq># mset (map f ys)" using image_mset_subseteq_mono [OF assms(1)] by simp
  then obtain zs where "mset (map f ys) = mset (map f xs @ zs)"
    by (metis mset_subset_eq_exists_conv ex_mset mset_append)
  with assms(2) have "distinct (map f xs @ zs)" using mset_eq_imp_distinct_iff by blast
  then show ?thesis by simp
qed

lemma retracted_gone:
  assumes "n \<notin> fst ` set (reserved ops)"
  shows "n \<notin> fst ` set (custom_slots (foldl registry_step (retract r n) ops))"
proof -
  have "mset (custom_slots (foldl registry_step (retract r n) ops))
      \<subseteq># mset (filter (\<lambda>(i, _). i \<noteq> n) (custom_slots r)) + mset (reserved ops)"
    using custom_slots_run [of "retract r n" ops] by (simp add: custom_retract)
  then have "set (custom_slots (foldl registry_step (retract r n) ops))
      \<subseteq> set (filter (\<lambda>(i, _). i \<noteq> n) (custom_slots r) @ reserved ops)"
    by (metis mset_append set_mset_mono set_mset_mset)
  then show ?thesis using assms by force
qed

text \<open>C16: Encoders are routed to their own track's pipeline. Take any run of reservations,
  retractions, encoder creations and encode calls from a new registry, in which every reservation
  brings its own queue or callback: each queue and each callback is then in at most one place, an
  encoder has at most one slot, every custom slot is one that was reserved for the track it names,
  and after a track is dropped none of its slots is left, pending or assigned, unless it reserves
  again.\<close>
theorem registry_routes_own_slots:
  assumes "distinct (map (slot_alloc \<circ> snd) (reserved (ops @ OpRetract n # ops')))"
    and "r = foldl registry_step er_new (ops @ OpRetract n # ops')"
    and "n \<notin> fst ` set (reserved ops')"
  shows "distinct (map fst (er_assigned r)) \<and>
    distinct (map (slot_alloc \<circ> snd) (custom_slots r)) \<and>
    set (custom_slots r) \<subseteq> set (reserved (ops @ OpRetract n # ops')) \<and>
    n \<notin> fst ` set (custom_slots r)"
proof (intro conjI)
  have sub: "mset (custom_slots r) \<subseteq># mset (reserved (ops @ OpRetract n # ops'))"
    using custom_slots_run [of er_new "ops @ OpRetract n # ops'"] by (simp add: assms(2))
  show "distinct (map fst (er_assigned r))"
    unfolding assms(2) by (rule assigned_distinct_run) (simp add: er_new_def)
  show "distinct (map (slot_alloc \<circ> snd) (custom_slots r))"
    by (rule distinct_submset [OF sub assms(1)])
  show "set (custom_slots r) \<subseteq> set (reserved (ops @ OpRetract n # ops'))"
    using set_mset_mono [OF sub] by simp
  show "n \<notin> fst ` set (custom_slots r)"
    unfolding assms(2) using retracted_gone [OF assms(3)] by simp
qed

text \<open>Two pre-encoded tracks and an inline one; the first is dropped after its encoder started.\<close>

lemma registry_routes_own_slots_witness:
  "custom_slots (foldl registry_step er_new
     ([OpReserve 5 (Custom 1 2), OpReserve 6 (Custom 3 4), OpUseBuiltin 100] @
      OpRetract 5 # [OpReserve 7 (Inline 1 9), OpEncode 101]))
   = [(6, Custom 3 4), (7, Inline 1 9)]
   \<and> 5 \<notin> fst ` set (custom_slots (foldl registry_step er_new
     ([OpReserve 5 (Custom 1 2), OpReserve 6 (Custom 3 4), OpUseBuiltin 100] @
      OpRetract 5 # [OpReserve 7 (Inline 1 9), OpEncode 101])))"
  using registry_routes_own_slots
    [of "[OpReserve 5 (Custom 1 2), OpReserve 6 (Custom 3 4), OpUseBuiltin 100]" 5
        "[OpReserve 7 (Inline 1 9), OpEncode 101]", OF _ refl]
  by (simp add: er_new_def reserve_def use_builtin_for_def bind_encoder_def retract_def
      retract_assigned_def custom_slots_def taken_def)

section \<open>Order and stability\<close>

lemma lookup_retract:
  "map_of (er_assigned (retract r n)) e = map_option (retract_assigned n) (map_of (er_assigned r) e)"
  by (simp add: retract_def map_of_map)

lemma retract_twice: "retract_assigned n (retract_assigned m a) = retract_assigned m (retract_assigned n a)"
  by (simp add: retract_assigned_def)

lemma assigned_stable:
  "map_of (er_assigned r) e = Some a \<Longrightarrow>
   map_of (er_assigned (foldl registry_step r ops)) e
     = Some (if OpRetract (rs_native_id a) \<in> set ops then retract_assigned (rs_native_id a) a else a)"
proof (induction ops arbitrary: r a)
  case (Cons op ops)
  show ?case
  proof (cases op)
    case (OpReserve n slot)
    then show ?thesis using Cons by (simp add: reserve_def)
  next
    case (OpRetract n)
    have "map_of (er_assigned (retract r n)) e = Some (retract_assigned n a)"
      using Cons.prems by (simp add: lookup_retract)
    from Cons.IH [OF this] show ?thesis using OpRetract by (auto simp: retract_assigned_def)
  next
    case (OpUseBuiltin e')
    have "map_of (er_assigned (snd (use_builtin_for r e'))) e = Some a"
      using Cons.prems by (auto simp: use_builtin_for_def split: option.split list.split)
    from Cons.IH [OF this] show ?thesis using OpUseBuiltin by simp
  next
    case (OpEncode e')
    have "map_of (er_assigned (snd (bind_encoder r e'))) e = Some a"
      using Cons.prems by (auto simp: bind_encoder_def Let_def split: option.split list.split)
    from Cons.IH [OF this] show ?thesis using OpEncode by simp
  qed
qed simp

text \<open>An encoder asks for its slot when it is created or when it first encodes.\<close>

definition ask :: "bool \<times> nat \<Rightarrow> registry_op" where
  "ask = (\<lambda>(first_encode, e). if first_encode then OpEncode e else OpUseBuiltin e)"

lemma ask_takes:
  assumes "map_of (er_assigned r) (snd b) = None" "er_pending r = p # ps"
  shows "registry_step r (ask b) = r\<lparr>er_pending := ps, er_assigned := (snd b, p) # er_assigned r\<rparr>"
  using assms by (cases b) (simp add: ask_def bind_encoder_def use_builtin_for_def)

lemma asks_take:
  "distinct (map snd asks) \<Longrightarrow> length asks \<le> length (er_pending r) \<Longrightarrow>
   \<forall>b \<in> set asks. map_of (er_assigned r) (snd b) = None \<Longrightarrow>
   foldl registry_step r (map ask asks) =
     r\<lparr>er_pending := drop (length asks) (er_pending r),
       er_assigned := rev (zip (map snd asks) (er_pending r)) @ er_assigned r\<rparr>"
proof (induction asks arbitrary: r)
  case (Cons b asks)
  obtain p ps where pending: "er_pending r = p # ps" using Cons.prems(2) by (cases "er_pending r") auto
  have "map_of (er_assigned r) (snd b) = None" using Cons.prems(3) by simp
  note step = ask_takes [OF this pending]
  have "\<forall>c \<in> set asks. map_of ((snd b, p) # er_assigned r) (snd c) = None"
    using Cons.prems(1,3) by (auto simp: image_iff)
  then show ?case using Cons.IH [of "registry_step r (ask b)"] Cons.prems by (simp add: step pending)
qed simp

lemma foldl_reserve:
  "foldl registry_step r (map (\<lambda>(n, s). OpReserve n s) ps)
     = r\<lparr>er_pending := er_pending r @ map (\<lambda>(n, s). \<lparr>rs_native_id = n, rs_slot = s\<rparr>) ps\<rparr>"
  by (induction ps arbitrary: r) (auto simp: reserve_def)



end
