(* ===== verification/Encoded_Track.thy ===== *)
theory Encoded_Track
  imports Encoder_Registry_Props Media_Props
begin

text \<open>
  A pre-encoded track from its pushes to the frames its encoder hands out, with the metadata the
  embed step takes for each (\<open>EncodedVideoTrack\<close> in \<open>crates/reactor-webrtc/src/encoded.rs\<close>,
  with the registry of the same file and the step of \<open>sender_meta.rs\<close>).
\<close>

section \<open>Pushes\<close>

datatype encoded_push = PushPlain int encoded_video_frame | PushMeta int encoded_video_frame bytes

fun evt_step :: "encoded_video_track \<times> encoder_world \<Rightarrow> encoded_push \<Rightarrow> encoded_video_track \<times> encoder_world" where
  "evt_step (et, w) (PushPlain now f) = snd (evt_push_frame et w now f)"
| "evt_step (et, w) (PushMeta now f user_data) = snd (evt_push_frame_with_metadata et w now f user_data)"

fun pushed_frame :: "encoded_push \<Rightarrow> encoded_video_frame" where
  "pushed_frame (PushPlain now f) = f"
| "pushed_frame (PushMeta now f user_data) = f"

text \<open>The metadata of each push, with the frame id its place among the pushes with metadata
  gives it.\<close>

fun own_meta :: "nat \<Rightarrow> encoded_push list \<Rightarrow> frame_metadata option list" where
  "own_meta n [] = []"
| "own_meta n (PushPlain now f # ps) = None # own_meta n ps"
| "own_meta n (PushMeta now f user_data # ps) =
     Some \<lparr>md_frame_id = word_of_nat (Suc n), md_capture_time_us = word_of_int (max now 0),
           md_user_data = user_data\<rparr> # own_meta (Suc n) ps"

text \<open>The native encoder is woken \<open>n\<close> times: each time it asks the registry for a frame, and the
  frame goes through the embed step, which takes from the track's queue of metadata.\<close>

fun wake ::
  "inline_code \<Rightarrow> nat \<Rightarrow> (nat \<Rightarrow> raw_video_frame) \<Rightarrow> nat \<Rightarrow> encoder_registry \<Rightarrow> encoder_world \<Rightarrow> fifo_meta
     \<Rightarrow> (encoded_video_frame \<times> frame_metadata option) list" where
  "wake inline e raws 0 r w fifo = []"
| "wake inline e raws (Suc n) r w fifo =
     (case encode_for inline r w e (raws n) of
        (None, r', w') \<Rightarrow> wake inline e raws n r' w' fifo
      | (Some f, r', w') \<Rightarrow> (case fifo_take fifo of (m, fifo') \<Rightarrow> (f, m) # wake inline e raws n r' w' fifo'))"

lemma checked_keeps:
  "tk_metadata_enabled (snd (vt_push_frame t now f)) = tk_metadata_enabled t"
  "tk_frame_counter (snd (vt_push_frame t now f)) = tk_frame_counter t"
  by (simp_all add: vt_push_frame_def checked_def push_unmarked_def push_video_frame_now_def
      push_video_frame_ts_def push_pixels_ts_def native_push_def
      split: sum.split pixel_format.split option.split)

lemma frame_id_next:
  assumes "n < 2 ^ 64 - 1" "tk_frame_counter t = word_of_nat n"
  shows "fst (next_frame_id t) = word_of_nat (Suc n)" "tk_frame_counter (snd (next_frame_id t)) = word_of_nat (Suc n)"
    "tk_metadata_enabled (snd (next_frame_id t)) = tk_metadata_enabled t"
  using counter_step [OF assms(1)] by (simp_all add: next_frame_id_def assms(2) Let_def add.commute)

definition somes :: "'a option list \<Rightarrow> 'a list" where
  "somes xs = map the (filter (\<lambda>x. x \<noteq> None) xs)"

lemma somes_simps [simp]: "somes [] = []" "somes (None # xs) = somes xs" "somes (Some x # xs) = x # somes xs"
  by (simp_all add: somes_def)

lemma somes_shorter: "length (somes xs) \<le> length xs"
  by (simp add: somes_def)

lemma length_own_meta [simp]: "length (own_meta n ps) = length ps"
  by (induction n ps rule: own_meta.induct) simp_all

lemma evt_pushes:
  assumes "tk_metadata_enabled (et_track et)" "tk_frame_counter (et_track et) = word_of_nat n"
    and "n + length ps < 2 ^ 64"
  shows "et_fifo (fst (foldl evt_step (et, w) ps)) = et_fifo et @ somes (own_meta n ps) \<and>
    et_queue (fst (foldl evt_step (et, w) ps)) = et_queue et \<and>
    ew_queues (snd (foldl evt_step (et, w) ps)) (et_queue et) = ew_queues w (et_queue et) @ map pushed_frame ps"
  using assms
proof (induction ps arbitrary: et w n)
  case (Cons p ps)
  obtain et' w' where step: "evt_step (et, w) p = (et', w')" by fastforce
  show ?case
  proof (cases p)
    case (PushPlain now f)
    have "tk_metadata_enabled (et_track et')" "tk_frame_counter (et_track et') = word_of_nat n"
      "et_fifo et' = et_fifo et" "et_queue et' = et_queue et"
      "ew_queues w' (et_queue et) = ew_queues w (et_queue et) @ [f]"
      using step Cons.prems
      by (auto simp: PushPlain evt_push_frame_def case_prod_beta enqueue_frame_def checked_keeps)
    with Cons.IH [of et' n w'] Cons.prems(3) show ?thesis unfolding foldl_Cons step by (simp add: PushPlain)
  next
    case (PushMeta now f user_data)
    have small: "n < 2 ^ 64 - 1" using Cons.prems(3) by simp
    note ids = frame_id_next [OF small Cons.prems(2)]
    have "tk_metadata_enabled (et_track et')" "tk_frame_counter (et_track et') = word_of_nat (Suc n)"
      "et_fifo et' = et_fifo et @ [\<lparr>md_frame_id = word_of_nat (Suc n),
         md_capture_time_us = word_of_int (max now 0), md_user_data = user_data\<rparr>]"
      "et_queue et' = et_queue et"
      "ew_queues w' (et_queue et) = ew_queues w (et_queue et) @ [f]"
      using step ids Cons.prems(1)
      by (auto simp: PushMeta evt_push_frame_with_metadata_def case_prod_beta Let_def enqueue_frame_def checked_keeps)
    with Cons.IH [of et' "Suc n" w'] Cons.prems(3) show ?thesis unfolding foldl_Cons step by (simp add: PushMeta)
  qed
qed simp

lemma encode_custom:
  assumes "map_of (er_assigned r) e = Some a" "rs_slot a = Custom queue feedback" "ew_queues w queue = f # rest"
  shows "\<exists>w'. encode_for inline r w e raw = (Some f, r, w') \<and> ew_queues w' queue = rest"
  using assms by (auto simp: encode_for_def bind_encoder_def fb_fire_def Let_def)

lemma wake_all:
  assumes "map_of (er_assigned r) e = Some a" "rs_slot a = Custom queue feedback"
  shows "ew_queues w queue = fs \<Longrightarrow> length fifo \<le> length fs \<Longrightarrow>
    wake inline e raws (length fs) r w fifo
      = zip fs (map Some fifo @ replicate (length fs - length fifo) None)"
proof (induction fs arbitrary: w fifo)
  case (Cons f fs)
  obtain w' where enc: "encode_for inline r w e (raws (length fs)) = (Some f, r, w')" "ew_queues w' queue = fs"
    using encode_custom [OF assms Cons.prems(1)] by blast
  show ?case
  proof (cases fifo)
    case Nil
    then show ?thesis using Cons.IH [OF enc(2), of "[]"] by (simp add: enc fifo_take_def)
  next
    case (Cons m ms)
    then show ?thesis using Cons.IH [OF enc(2), of ms] Cons.prems(2) by (simp add: enc fifo_take_def)
  qed
qed simp

text \<open>The pushes with metadata come first.\<close>

fun meta_first :: "encoded_push list \<Rightarrow> bool" where
  "meta_first [] = True"
| "meta_first (PushMeta now f user_data # ps) = meta_first ps"
| "meta_first (PushPlain now f # ps) = list_all (\<lambda>p. case p of PushPlain _ _ \<Rightarrow> True | PushMeta _ _ _ \<Rightarrow> False) ps"

lemma own_meta_plain:
  "list_all (\<lambda>p. case p of PushPlain _ _ \<Rightarrow> True | PushMeta _ _ _ \<Rightarrow> False) ps \<longleftrightarrow>
     own_meta n ps = replicate (length ps) None"
  by (induction n ps rule: own_meta.induct) auto

lemma somes_plain: "own_meta n ps = replicate (length ps) None \<Longrightarrow> somes (own_meta n ps) = []"
  by (simp add: somes_def)

lemma somes_none: "somes xs = [] \<longleftrightarrow> xs = replicate (length xs) None"
  by (induction xs) (auto simp: somes_def split: option.splits)

lemma own_meta_first:
  "own_meta n ps = map Some (somes (own_meta n ps)) @ replicate (length ps - length (somes (own_meta n ps))) None
     \<longleftrightarrow> meta_first ps"
proof (induction n ps rule: own_meta.induct)
  case (2 n now f ps)
  show ?case
  proof (cases "somes (own_meta n ps)")
    case Nil
    then have plain: "own_meta n ps = replicate (length ps) None" using somes_none [of "own_meta n ps"] by simp
    then have "meta_first (PushPlain now f # ps)" using own_meta_plain [of ps n] by simp
    then show ?thesis using Nil plain by simp
  next
    case (Cons m ms)
    then have "own_meta n ps \<noteq> replicate (length ps) None" using somes_plain by force
    then have "\<not> meta_first (PushPlain now f # ps)" using own_meta_plain [of ps n] by simp
    then show ?thesis using Cons by simp
  qed
next
  case (3 n now f user_data ps)
  then show ?case by simp
qed simp


text \<open>A plain push, then one with metadata, on a fresh track of a registry with its one slot taken.\<close>

definition sample_encoded :: "nat \<Rightarrow> encoded_video_frame" where
  "sample_encoded n = \<lparr>vd_data = [word_of_nat n], vd_is_key_frame = True, vd_width = 0, vd_height = 0,
     vd_rtp_timestamp = 0\<rparr>"

definition sample_evt :: encoded_video_track where
  "sample_evt = fst (evt_new \<lparr>rg_send = (\<lambda>_. None), rg_recv = (\<lambda>_. None), rg_allowed = (\<lambda>_. None),
     rg_feedback = (\<lambda>_. None)\<rparr> sample_track 7 8 9 1 1)"

definition idle_world :: encoder_world where
  "idle_world = \<lparr>ew_queues = (\<lambda>_. []), ew_listening = (\<lambda>_. False), ew_events = (\<lambda>_. []), ew_calls = (\<lambda>_. [])\<rparr>"


end
