(* ===== verification/Rtc_Config.thy ===== *)
theory Rtc_Config
  imports Dc_Negotiation
begin

text \<open>
  The settings a caller gives (\<open>crates/reactor-webrtc/src/config.rs\<close>, \<open>playout.rs\<close>,
  \<open>sctp_tuning.rs\<close> and the processing chain of \<open>lib.rs\<close>), their checks, and the form the
  native side reads them in. A C string is the bytes up to its terminating NUL, so it is a string
  without one. A duration is a number of nanoseconds.
\<close>

section \<open>C strings\<close>

definition NUL :: char where "NUL = CHR 0x00"

definition cstring :: "string \<Rightarrow> string option" where
  "cstring s = (if NUL \<in> set s then None else Some s)"

lemma cstring_Some [simp]: "cstring s = Some c \<longleftrightarrow> NUL \<notin> set s \<and> c = s"
  by (auto simp: cstring_def)

section \<open>Peer-connection configuration\<close>

record ice_server =
  is_urls :: "string list"
  is_username :: string
  is_password :: string

datatype continual_gathering_policy = GatherOnce | GatherContinually

fun gathering_to_wire :: "continual_gathering_policy \<Rightarrow> int" where
  "gathering_to_wire GatherOnce = 0"
| "gathering_to_wire GatherContinually = 1"

datatype bundle_policy = Balanced | MaxBundle | MaxCompat

fun bundle_to_wire :: "bundle_policy \<Rightarrow> int" where
  "bundle_to_wire Balanced = 0"
| "bundle_to_wire MaxBundle = 1"
| "bundle_to_wire MaxCompat = 2"

datatype tcp_candidate_policy = TcpDisabled | TcpEnabled

fun tcp_to_wire :: "tcp_candidate_policy \<Rightarrow> int" where
  "tcp_to_wire TcpDisabled = 0"
| "tcp_to_wire TcpEnabled = 1"

datatype ice_transports_type = AllTransports | RelayOnly | NoHost | NoTransports

fun transports_to_wire :: "ice_transports_type \<Rightarrow> int" where
  "transports_to_wire AllTransports = 0"
| "transports_to_wire RelayOnly = 1"
| "transports_to_wire NoHost = 2"
| "transports_to_wire NoTransports = 3"

record rtc_configuration =
  rc_ice_servers :: "ice_server list"
  rc_continual_gathering_policy :: continual_gathering_policy
  rc_ice_transport_type :: ice_transports_type
  rc_min_port :: "u16 option"
  rc_max_port :: "u16 option"
  rc_bundle_policy :: bundle_policy
  rc_ice_connection_receiving_timeout_ms :: "int option"
  rc_ice_check_interval_strong_connectivity_ms :: "int option"
  rc_tcp_candidate_policy :: tcp_candidate_policy
  rc_frame_metadata :: bool
  rc_sctp_snap :: bool
  rc_dc_chunking :: bool

definition rtc_configuration_default :: rtc_configuration where
  "rtc_configuration_default =
     \<lparr>rc_ice_servers = [], rc_continual_gathering_policy = GatherOnce,
      rc_ice_transport_type = AllTransports, rc_min_port = None, rc_max_port = None,
      rc_bundle_policy = Balanced, rc_ice_connection_receiving_timeout_ms = None,
      rc_ice_check_interval_strong_connectivity_ms = None, rc_tcp_candidate_policy = TcpDisabled,
      rc_frame_metadata = True, rc_sctp_snap = False, rc_dc_chunking = True\<rparr>"

text \<open>What the glue reads: the strings and the integers of \<open>ReactorRtcConfig\<close>.\<close>

record native_config =
  nc_servers :: "(string list \<times> string \<times> string) list"
  nc_ice_transport_type :: int
  nc_continual_gathering_policy :: int
  nc_min_port :: int
  nc_max_port :: int
  nc_bundle_policy :: int
  nc_ice_connection_receiving_timeout_ms :: int
  nc_ice_check_interval_strong_connectivity_ms :: int
  nc_tcp_candidate_policy :: int
  nc_sctp_snap :: int

definition nul_error :: "string \<Rightarrow> error" where
  "nul_error field = Webrtc (Fmt ''ICE server {field} contains a NUL byte'' [AStr field])"

definition cstring_or :: "error \<Rightarrow> string \<Rightarrow> string result" where
  "cstring_or e s = (case cstring s of None \<Rightarrow> Inl e | Some c \<Rightarrow> Inr c)"

fun marshal_urls :: "string list \<Rightarrow> string list result" where
  "marshal_urls [] = Inr []"
| "marshal_urls (url # urls) =
     res_bind (cstring_or (nul_error ''URL'') url) (\<lambda>c.
     res_bind (marshal_urls urls) (\<lambda>cs. Inr (c # cs)))"

fun marshal_servers :: "ice_server list \<Rightarrow> (string list \<times> string \<times> string) list result" where
  "marshal_servers [] = Inr []"
| "marshal_servers (server # servers) =
     res_bind (marshal_urls (is_urls server)) (\<lambda>entry.
     res_bind (cstring_or (nul_error ''username'') (is_username server)) (\<lambda>username.
     res_bind (cstring_or (nul_error ''password'') (is_password server)) (\<lambda>password.
     res_bind (marshal_servers servers) (\<lambda>rest. Inr ((entry, username, password) # rest)))))"

definition port_range :: "u16 option \<Rightarrow> u16 option \<Rightarrow> (int \<times> int) result" where
  "port_range min_port max_port =
     (case (min_port, max_port) of
        (None, None) \<Rightarrow> Inr (0, 0)
      | (Some lo, Some hi) \<Rightarrow>
          if lo \<le> hi then Inr (int (unat lo), int (unat hi))
          else Inl (Webrtc (Fmt ''min_port ({lo}) must be <= max_port ({hi})''
                 [ANat (unat lo), ANat (unat hi)]))
      | _ \<Rightarrow> Inl (Webrtc (Text ''port range requires both min_port and max_port'')))"

definition to_native :: "rtc_configuration \<Rightarrow> native_config result" where
  "to_native c =
     res_bind (marshal_servers (rc_ice_servers c)) (\<lambda>servers.
     res_bind (port_range (rc_min_port c) (rc_max_port c)) (\<lambda>(min_port, max_port).
     Inr \<lparr>nc_servers = servers,
          nc_ice_transport_type = transports_to_wire (rc_ice_transport_type c),
          nc_continual_gathering_policy = gathering_to_wire (rc_continual_gathering_policy c),
          nc_min_port = min_port, nc_max_port = max_port,
          nc_bundle_policy = bundle_to_wire (rc_bundle_policy c),
          nc_ice_connection_receiving_timeout_ms =
            (case rc_ice_connection_receiving_timeout_ms c of None \<Rightarrow> - 1 | Some v \<Rightarrow> v),
          nc_ice_check_interval_strong_connectivity_ms =
            (case rc_ice_check_interval_strong_connectivity_ms c of None \<Rightarrow> - 1 | Some v \<Rightarrow> v),
          nc_tcp_candidate_policy = tcp_to_wire (rc_tcp_candidate_policy c),
          nc_sctp_snap = (if rc_sctp_snap c then 1 else 0)\<rparr>))"

section \<open>Playout delay\<close>

record playout_delay =
  pd_min :: nat
  pd_max :: nat

definition PD_IMMEDIATE :: playout_delay where "PD_IMMEDIATE = \<lparr>pd_min = 0, pd_max = 0\<rparr>"

definition from_millis :: "nat \<Rightarrow> nat" where "from_millis ms = ms * 1000000"
definition as_millis :: "nat \<Rightarrow> nat" where "as_millis ns = ns div 1000000"

definition PD_MAX :: nat where "PD_MAX = from_millis 40950"

definition pd_validate :: "playout_delay \<Rightarrow> (int \<times> int) result" where
  "pd_validate d =
     (if pd_min d > pd_max d
      then Inl (Webrtc (Fmt ''playout delay: min {:?} is larger than max {:?}''
             [ANat (pd_min d), ANat (pd_max d)]))
      else if pd_max d > PD_MAX
      then Inl (Webrtc (Fmt ''playout delay: max {:?} is larger than the extension's {:?}''
             [ANat (pd_max d), ANat PD_MAX]))
      else Inr (int (as_millis (pd_min d)), int (as_millis (pd_max d))))"

section \<open>SCTP tuning\<close>

record sctp_tuning =
  st_initial_cwnd_mtus :: "nat option"
  st_min_cwnd_mtus :: "nat option"
  st_rto_initial_ms :: "nat option"
  st_rto_min_ms :: "nat option"
  st_delayed_ack_max_ms :: "nat option"
  st_immediate_sack_under_cwnd_mtus :: "nat option"

definition sctp_tuning_default :: sctp_tuning where
  "sctp_tuning_default =
     \<lparr>st_initial_cwnd_mtus = None, st_min_cwnd_mtus = None, st_rto_initial_ms = None,
      st_rto_min_ms = None, st_delayed_ack_max_ms = None, st_immediate_sack_under_cwnd_mtus = None\<rparr>"

definition low_latency :: sctp_tuning where
  "low_latency =
     \<lparr>st_initial_cwnd_mtus = Some 200, st_min_cwnd_mtus = Some 100, st_rto_initial_ms = None,
      st_rto_min_ms = None, st_delayed_ack_max_ms = Some 20,
      st_immediate_sack_under_cwnd_mtus = Some 1000\<rparr>"

definition MAX_MTUS :: nat where "MAX_MTUS = 100000"
definition MAX_MS :: nat where "MAX_MS = 60000"

definition tuning_check :: "string \<Rightarrow> nat option \<Rightarrow> nat \<Rightarrow> unit result" where
  "tuning_check name value limit =
     (case value of
        None \<Rightarrow> Inr ()
      | Some v \<Rightarrow>
          if v = 0 \<or> v > limit
          then Inl (Webrtc (Fmt ''sctp tuning: {name} {v} must be between 1 and {max}''
                 [AStr name, ANat v, ANat limit]))
          else Inr ())"

definition st_validate :: "sctp_tuning \<Rightarrow> unit result" where
  "st_validate t =
     res_bind (tuning_check ''initial_cwnd_mtus'' (st_initial_cwnd_mtus t) MAX_MTUS) (\<lambda>_.
     res_bind (tuning_check ''min_cwnd_mtus'' (st_min_cwnd_mtus t) MAX_MTUS) (\<lambda>_.
     res_bind (tuning_check ''rto_initial_ms'' (st_rto_initial_ms t) MAX_MS) (\<lambda>_.
     res_bind (tuning_check ''rto_min_ms'' (st_rto_min_ms t) MAX_MS) (\<lambda>_.
     res_bind (tuning_check ''delayed_ack_max_ms'' (st_delayed_ack_max_ms t) MAX_MS) (\<lambda>_.
     res_bind (tuning_check ''immediate_sack_under_cwnd_mtus''
                 (st_immediate_sack_under_cwnd_mtus t) MAX_MTUS) (\<lambda>_. Inr ()))))))"

section \<open>Audio processing\<close>

record apm_config =
  ap_echo_canceller :: bool
  ap_noise_suppression :: bool
  ap_agc :: bool
  ap_high_pass_filter :: bool

definition apm_default :: apm_config where
  "apm_default = \<lparr>ap_echo_canceller = False, ap_noise_suppression = False, ap_agc = False,
                  ap_high_pass_filter = False\<rparr>"

definition to_flags :: "apm_config \<Rightarrow> u32" where
  "to_flags c =
     (let f = 0;
          f = (if ap_echo_canceller c then f OR 0x01 else f);
          f = (if ap_noise_suppression c then f OR 0x02 else f);
          f = (if ap_agc c then f OR 0x04 else f)
      in if ap_high_pass_filter c then f OR 0x08 else f)"

section \<open>What the native side is given\<close>

lemma marshal_urls_ok: "marshal_urls urls = Inr cs \<longleftrightarrow> (\<forall>u \<in> set urls. NUL \<notin> set u) \<and> cs = urls"
  by (induction urls arbitrary: cs)
     (auto simp: res_bind_eq_Inr cstring_or_def cstring_def split: option.splits if_splits)

lemma marshal_servers_ok:
  "marshal_servers servers = Inr out \<longleftrightarrow>
     (\<forall>s \<in> set servers. (\<forall>u \<in> set (is_urls s). NUL \<notin> set u) \<and> NUL \<notin> set (is_username s) \<and> NUL \<notin> set (is_password s))
     \<and> out = map (\<lambda>s. (is_urls s, is_username s, is_password s)) servers"
  by (induction servers arbitrary: out)
     (auto simp: res_bind_eq_Inr marshal_urls_ok cstring_or_def cstring_def split: option.splits if_splits)

text \<open>The strings of a configuration, in the order they are converted.\<close>

definition config_strings :: "rtc_configuration \<Rightarrow> (string \<times> string) list" where
  "config_strings c =
     concat (map (\<lambda>s. map (\<lambda>u. (''URL'', u)) (is_urls s) @
                      [(''username'', is_username s), (''password'', is_password s)]) (rc_ice_servers c))"

definition ports_ok :: "rtc_configuration \<Rightarrow> bool" where
  "ports_ok c =
     (case (rc_min_port c, rc_max_port c) of
        (None, None) \<Rightarrow> True | (Some lo, Some hi) \<Rightarrow> lo \<le> hi | _ \<Rightarrow> False)"

fun first_nul :: "(string \<times> string) list \<Rightarrow> string option" where
  "first_nul [] = None"
| "first_nul ((field, s) # rest) = (if NUL \<in> set s then Some field else first_nul rest)"

lemma first_nul_append:
  "first_nul (xs @ ys) = (case first_nul xs of None \<Rightarrow> first_nul ys | Some f \<Rightarrow> Some f)"
  by (induction xs rule: first_nul.induct) auto

lemma marshal_urls_cases:
  "marshal_urls urls = (case first_nul (map (\<lambda>u. (''URL'', u)) urls) of
     None \<Rightarrow> Inr urls | Some f \<Rightarrow> Inl (nul_error f))"
  by (induction urls) (auto simp: cstring_or_def cstring_def split: option.splits)

lemma marshal_servers_cases:
  "marshal_servers servers =
    (case first_nul (concat (map (\<lambda>s. map (\<lambda>u. (''URL'', u)) (is_urls s) @
                      [(''username'', is_username s), (''password'', is_password s)]) servers)) of
       None \<Rightarrow> Inr (map (\<lambda>s. (is_urls s, is_username s, is_password s)) servers)
     | Some f \<Rightarrow> Inl (nul_error f))"
proof (induction servers)
  case (Cons s servers)
  show ?case
    by (cases "first_nul (map (\<lambda>u. (''URL'', u)) (is_urls s))")
       (auto simp: Cons.IH marshal_urls_cases first_nul_append cstring_or_def cstring_def split: option.splits)
qed simp

lemma wire_codes:
  "[AllTransports, RelayOnly, NoHost, NoTransports] ! nat (transports_to_wire t) = t"
  "[GatherOnce, GatherContinually] ! nat (gathering_to_wire g) = g"
  "[Balanced, MaxBundle, MaxCompat] ! nat (bundle_to_wire b) = b"
  "[TcpDisabled, TcpEnabled] ! nat (tcp_to_wire p) = p"
proof -
  show "[AllTransports, RelayOnly, NoHost, NoTransports] ! nat (transports_to_wire t) = t" by (cases t) simp_all
  show "[GatherOnce, GatherContinually] ! nat (gathering_to_wire g) = g" by (cases g) simp_all
  show "[Balanced, MaxBundle, MaxCompat] ! nat (bundle_to_wire b) = b" by (cases b) simp_all
  show "[TcpDisabled, TcpEnabled] ! nat (tcp_to_wire p) = p" by (cases p) simp_all
qed

text \<open>The native configuration is the caller's, or an error. The conversion stops at the first
  string with a NUL byte, naming its field, then at a port range that is half open or reversed;
  otherwise the glue reads exactly the caller's servers in order, with ports from 0 to 65535 in
  order, and codes from which every policy, both ports, both timers and the SNAP flag can be read
  back, but that a range from 0 to 0 and a timer of -1 read as unset.\<close>
theorem native_config_faithful:
  "case to_native c of
     Inl e \<Rightarrow>
       (case first_nul (config_strings c) of
          Some field \<Rightarrow> e = nul_error field
        | None \<Rightarrow> \<not> ports_ok c \<and> Inl e = port_range (rc_min_port c) (rc_max_port c))
   | Inr n \<Rightarrow>
       first_nul (config_strings c) = None \<and> ports_ok c \<and>
       map (\<lambda>(urls, username, password).
              \<lparr>is_urls = urls, is_username = username, is_password = password\<rparr>) (nc_servers n) = rc_ice_servers c \<and>
       0 \<le> nc_min_port n \<and> nc_min_port n \<le> nc_max_port n \<and> nc_max_port n \<le> 65535 \<and>
       (if (nc_min_port n, nc_max_port n) = (0, 0)
        then (rc_min_port c, rc_max_port c) \<in> {(None, None), (Some 0, Some 0)}
        else (rc_min_port c, rc_max_port c)
               = (Some (word_of_int (nc_min_port n)), Some (word_of_int (nc_max_port n)))) \<and>
       (rc_ice_transport_type c, rc_continual_gathering_policy c, rc_bundle_policy c, rc_tcp_candidate_policy c, rc_sctp_snap c)
         = ([AllTransports, RelayOnly, NoHost, NoTransports] ! nat (nc_ice_transport_type n),
            [GatherOnce, GatherContinually] ! nat (nc_continual_gathering_policy n),
            [Balanced, MaxBundle, MaxCompat] ! nat (nc_bundle_policy n),
            [TcpDisabled, TcpEnabled] ! nat (nc_tcp_candidate_policy n), nc_sctp_snap n = 1) \<and>
       (case rc_ice_connection_receiving_timeout_ms c of
          None \<Rightarrow> nc_ice_connection_receiving_timeout_ms n = - 1
        | Some v \<Rightarrow> nc_ice_connection_receiving_timeout_ms n = v) \<and>
       (case rc_ice_check_interval_strong_connectivity_ms c of
          None \<Rightarrow> nc_ice_check_interval_strong_connectivity_ms n = - 1
        | Some v \<Rightarrow> nc_ice_check_interval_strong_connectivity_ms n = v)"
proof (cases "first_nul (config_strings c)")
  case (Some field)
  then have "marshal_servers (rc_ice_servers c) = Inl (nul_error field)"
    by (simp add: marshal_servers_cases config_strings_def)
  then show ?thesis using Some by (simp add: to_native_def)
next
  case None
  then have servers: "marshal_servers (rc_ice_servers c)
      = Inr (map (\<lambda>s. (is_urls s, is_username s, is_password s)) (rc_ice_servers c))"
    by (simp add: marshal_servers_cases config_strings_def)
  show ?thesis
  proof (cases "port_range (rc_min_port c) (rc_max_port c)")
    case (Inl e)
    then have "\<not> ports_ok c"
      by (auto simp: port_range_def ports_ok_def split: option.splits if_splits)
    then show ?thesis using None Inl servers by (simp add: to_native_def)
  next
    case (Inr p)
    obtain lo hi where p: "p = (lo, hi)" by (cases p)
    have ports: "ports_ok c" "0 \<le> lo" "lo \<le> hi" "hi \<le> 65535"
      "if (lo, hi) = (0, 0) then (rc_min_port c, rc_max_port c) \<in> {(None, None), (Some 0, Some 0)}
       else (rc_min_port c, rc_max_port c) = (Some (word_of_int lo), Some (word_of_int hi))"
      using Inr unsigned_less [of "the (rc_max_port c)", where 'a = int]
      by (auto simp: p port_range_def ports_ok_def word_le_def unsigned_eq_0_iff split: option.splits if_splits)
    have records: "map ((\<lambda>(urls, username, password).
        \<lparr>is_urls = urls, is_username = username, is_password = password\<rparr>) \<circ>
          (\<lambda>s. (is_urls s, is_username s, is_password s))) (rc_ice_servers c) = rc_ice_servers c"
      by (intro map_idI) simp
    show ?thesis
      unfolding to_native_def servers Inr p res_bind_simps prod.case sum.case native_config.simps map_map wire_codes
      using None ports records by (auto split: option.split if_splits)
  qed
qed

section \<open>Which settings are accepted\<close>

definition tuning_ok :: "nat option \<Rightarrow> nat \<Rightarrow> bool" where
  "tuning_ok value limit = (case value of None \<Rightarrow> True | Some v \<Rightarrow> 1 \<le> v \<and> v \<le> limit)"

definition st_ok :: "sctp_tuning \<Rightarrow> bool" where
  "st_ok t \<longleftrightarrow>
     tuning_ok (st_initial_cwnd_mtus t) MAX_MTUS \<and> tuning_ok (st_min_cwnd_mtus t) MAX_MTUS \<and>
     tuning_ok (st_rto_initial_ms t) MAX_MS \<and> tuning_ok (st_rto_min_ms t) MAX_MS \<and>
     tuning_ok (st_delayed_ack_max_ms t) MAX_MS \<and> tuning_ok (st_immediate_sack_under_cwnd_mtus t) MAX_MTUS"

lemma tuning_check_ok: "tuning_check name value limit = Inr u \<longleftrightarrow> tuning_ok value limit"
  by (auto simp: tuning_check_def tuning_ok_def split: option.split)

lemma st_validate_ok: "st_validate t = Inr u \<longleftrightarrow> st_ok t"
  by (auto simp: st_validate_def res_bind_eq_Inr tuning_check_ok st_ok_def)

lemma low_latency_ok: "st_ok low_latency" "st_ok sctp_tuning_default"
  by (simp_all add: st_ok_def low_latency_def sctp_tuning_default_def tuning_ok_def MAX_MTUS_def MAX_MS_def)

lemma pd_validate_ok:
  "pd_validate d = Inr (lo, hi) \<longleftrightarrow>
     pd_min d \<le> pd_max d \<and> pd_max d \<le> PD_MAX \<and> lo = int (as_millis (pd_min d)) \<and> hi = int (as_millis (pd_max d))"
  by (auto simp: pd_validate_def)

lemma pd_validate_range:
  assumes "pd_validate d = Inr (lo, hi)"
  shows "0 \<le> lo" "lo \<le> hi" "hi \<le> 40950"
proof -
  have le: "pd_min d \<le> pd_max d" "pd_max d \<le> 40950 * 1000000"
    using assms by (simp_all add: pd_validate_ok PD_MAX_def from_millis_def)
  then have "as_millis (pd_max d) \<le> 40950" by (simp add: as_millis_def)
  moreover have "as_millis (pd_min d) \<le> as_millis (pd_max d)" using le(1) by (simp add: as_millis_def div_le_mono)
  ultimately show "0 \<le> lo" "lo \<le> hi" "hi \<le> 40950" using assms by (simp_all add: pd_validate_ok)
qed

text \<open>The four stages of the processing chain are the four low bits of the flags.\<close>

lemma to_flags_bits:
  "bit (to_flags c) k \<longleftrightarrow>
     k = 0 \<and> ap_echo_canceller c \<or> k = 1 \<and> ap_noise_suppression c \<or> k = 2 \<and> ap_agc c \<or> k = 3 \<and> ap_high_pass_filter c"
proof -
  have pow: "bit ((2 :: u32) ^ n) k \<longleftrightarrow> k = n" if "n < 32" for n
    using that by (auto simp: bit_exp_iff)
  have "bit (1 :: u32) k \<longleftrightarrow> k = 0" "bit (2 :: u32) k \<longleftrightarrow> k = 1" "bit (4 :: u32) k \<longleftrightarrow> k = 2" "bit (8 :: u32) k \<longleftrightarrow> k = 3"
    using pow [of 0] pow [of 1] pow [of 2] pow [of 3] by simp_all
  then show ?thesis by (auto simp: to_flags_def Let_def bit_simps)
qed

end
