(* ===== verification/Factory.thy ===== *)
theory Factory
  imports Rtc_Config Encoder_Registry
begin

text \<open>
  Building a factory and creating its tracks (\<open>crates/reactor-webrtc/src/builder.rs\<close> and
  \<open>lib.rs\<close>). The native factory is what \<open>create\<close> makes of the options: a handle, or null
  with a reason. A native track is what \<open>native_track\<close> makes of an id: its identity, or null. The build
  has the \<open>openh264\<close> feature; \<open>apple\<close> is \<open>HAVE_VIDEO_TOOLBOX\<close>.
\<close>

section \<open>The builder\<close>

datatype adm_mode = SyntheticAdm | PlatformAdm

record factory_builder =
  pb_adm :: adm_mode
  pb_apm :: apm_config
  pb_metadata :: bool
  pb_dtls_in_stun :: bool
  pb_dc_chunking :: "dc_chunking option"
  pb_dc_callbacks_on_network_thread :: bool
  pb_sctp_tuning :: "sctp_tuning option"
  pb_send_playout_delay :: "playout_delay option"
  pb_receive_playout_delay :: "playout_delay option"
  pb_sender_transform_hold :: "nat option"
  pb_openh264 :: "string option"

definition pb_new :: factory_builder where
  "pb_new =
     \<lparr>pb_adm = SyntheticAdm, pb_apm = apm_default, pb_metadata = True, pb_dtls_in_stun = False,
      pb_dc_chunking = None, pb_dc_callbacks_on_network_thread = False, pb_sctp_tuning = None,
      pb_send_playout_delay = None, pb_receive_playout_delay = None, pb_sender_transform_hold = None,
      pb_openh264 = None\<rparr>"

definition with_adm :: "factory_builder \<Rightarrow> adm_mode \<Rightarrow> factory_builder" where
  "with_adm b mode = b\<lparr>pb_adm := mode\<rparr>"

definition with_synthetic_adm :: "factory_builder \<Rightarrow> factory_builder" where
  "with_synthetic_adm b = with_adm b SyntheticAdm"

definition with_platform_adm :: "factory_builder \<Rightarrow> factory_builder" where
  "with_platform_adm b =
     b\<lparr>pb_adm := PlatformAdm,
       pb_apm := \<lparr>ap_echo_canceller = True, ap_noise_suppression = True, ap_agc = True,
                  ap_high_pass_filter = True\<rparr>\<rparr>"

definition with_apm :: "factory_builder \<Rightarrow> apm_config \<Rightarrow> factory_builder" where
  "with_apm b apm = b\<lparr>pb_apm := apm\<rparr>"

definition with_metadata :: "factory_builder \<Rightarrow> bool \<Rightarrow> factory_builder" where
  "with_metadata b enabled = b\<lparr>pb_metadata := enabled\<rparr>"

definition with_dtls_in_stun :: "factory_builder \<Rightarrow> bool \<Rightarrow> factory_builder" where
  "with_dtls_in_stun b enabled = b\<lparr>pb_dtls_in_stun := enabled\<rparr>"

definition with_sender_transform_hold_for_testing :: "factory_builder \<Rightarrow> nat \<Rightarrow> factory_builder" where
  "with_sender_transform_hold_for_testing b hold = b\<lparr>pb_sender_transform_hold := Some hold\<rparr>"

definition with_dc_chunking_settings :: "factory_builder \<Rightarrow> dc_chunking \<Rightarrow> factory_builder" where
  "with_dc_chunking_settings b settings = b\<lparr>pb_dc_chunking := Some settings\<rparr>"

definition with_dc_callbacks_on_network_thread :: "factory_builder \<Rightarrow> bool \<Rightarrow> factory_builder" where
  "with_dc_callbacks_on_network_thread b enabled = b\<lparr>pb_dc_callbacks_on_network_thread := enabled\<rparr>"

definition with_sctp_tuning :: "factory_builder \<Rightarrow> sctp_tuning \<Rightarrow> factory_builder" where
  "with_sctp_tuning b tuning = b\<lparr>pb_sctp_tuning := Some tuning\<rparr>"

definition with_send_playout_delay :: "factory_builder \<Rightarrow> playout_delay \<Rightarrow> factory_builder" where
  "with_send_playout_delay b delay = b\<lparr>pb_send_playout_delay := Some delay\<rparr>"

definition with_receive_playout_delay :: "factory_builder \<Rightarrow> playout_delay \<Rightarrow> factory_builder" where
  "with_receive_playout_delay b delay = b\<lparr>pb_receive_playout_delay := Some delay\<rparr>"

definition with_openh264 :: "factory_builder \<Rightarrow> string \<Rightarrow> factory_builder" where
  "with_openh264 b lib_path = b\<lparr>pb_openh264 := Some lib_path\<rparr>"

section \<open>The options the glue reads\<close>

record factory_options =
  fo_use_platform_adm :: int
  fo_apm_flags :: u32
  fo_dtls_in_stun :: int
  fo_sctp_max_burst :: int
  fo_sctp_initial_cwnd_mtus :: int
  fo_sctp_min_cwnd_mtus :: int
  fo_sctp_rto_initial_ms :: int
  fo_sctp_rto_min_ms :: int
  fo_sctp_delayed_ack_max_ms :: int
  fo_sctp_immediate_sack_under_cwnd_mtus :: int
  fo_send_playout_delay_set :: int
  fo_send_playout_delay_min_ms :: int
  fo_send_playout_delay_max_ms :: int
  fo_recv_playout_delay_set :: int
  fo_recv_playout_delay_min_ms :: int
  fo_recv_playout_delay_max_ms :: int
  fo_sender_transform_hold_ms :: int
  fo_openh264_lib_path :: "string option"
  fo_encoder_registry :: bool \<comment> \<open>the registry state and all its trampolines, installed together\<close>

definition st_apply :: "sctp_tuning \<Rightarrow> factory_options \<Rightarrow> factory_options" where
  "st_apply t opts =
     (let v = (\<lambda>x. case x of None \<Rightarrow> 0 | Some x \<Rightarrow> int x) in
      opts\<lparr>fo_sctp_initial_cwnd_mtus := v (st_initial_cwnd_mtus t),
           fo_sctp_min_cwnd_mtus := v (st_min_cwnd_mtus t),
           fo_sctp_rto_initial_ms := v (st_rto_initial_ms t),
           fo_sctp_rto_min_ms := v (st_rto_min_ms t),
           fo_sctp_delayed_ack_max_ms := v (st_delayed_ack_max_ms t),
           fo_sctp_immediate_sack_under_cwnd_mtus := v (st_immediate_sack_under_cwnd_mtus t)\<rparr>)"

definition install_into :: "factory_options \<Rightarrow> factory_options" where
  "install_into opts = opts\<lparr>fo_encoder_registry := True\<rparr>"

text \<open>\<open>Option::transpose\<close> after a check.\<close>

definition check_opt :: "('a \<Rightarrow> 'b result) \<Rightarrow> 'a option \<Rightarrow> 'b option result" where
  "check_opt check x =
     (case x of None \<Rightarrow> Inr None | Some a \<Rightarrow> (case check a of Inl e \<Rightarrow> Inl e | Inr b \<Rightarrow> Inr (Some b)))"

definition builder_options ::
  "factory_builder \<Rightarrow> (int \<times> int) option \<Rightarrow> (int \<times> int) option \<Rightarrow> string option \<Rightarrow> factory_options" where
  "builder_options b send_playout recv_playout openh264_c =
     (let opts =
        \<lparr>fo_use_platform_adm = (if pb_adm b = PlatformAdm then 1 else 0),
         fo_apm_flags = to_flags (pb_apm b),
         fo_dtls_in_stun = (if pb_dtls_in_stun b then 1 else 0),
         fo_sctp_max_burst = (case pb_dc_chunking b of None \<Rightarrow> 0 | Some c \<Rightarrow> int (dk_max_burst c)),
         fo_sctp_initial_cwnd_mtus = 0, fo_sctp_min_cwnd_mtus = 0, fo_sctp_rto_initial_ms = 0,
         fo_sctp_rto_min_ms = 0, fo_sctp_delayed_ack_max_ms = 0,
         fo_sctp_immediate_sack_under_cwnd_mtus = 0,
         fo_send_playout_delay_set = (if send_playout = None then 0 else 1),
         fo_send_playout_delay_min_ms = (case send_playout of None \<Rightarrow> 0 | Some (lo, _) \<Rightarrow> lo),
         fo_send_playout_delay_max_ms = (case send_playout of None \<Rightarrow> 0 | Some (_, hi) \<Rightarrow> hi),
         fo_recv_playout_delay_set = (if recv_playout = None then 0 else 1),
         fo_recv_playout_delay_min_ms = (case recv_playout of None \<Rightarrow> 0 | Some (lo, _) \<Rightarrow> lo),
         fo_recv_playout_delay_max_ms = (case recv_playout of None \<Rightarrow> 0 | Some (_, hi) \<Rightarrow> hi),
         fo_sender_transform_hold_ms =
           (case pb_sender_transform_hold b of None \<Rightarrow> 0 | Some d \<Rightarrow> int (min (as_millis d) i32_max)),
         fo_openh264_lib_path = openh264_c,
         fo_encoder_registry = False\<rparr>
      in install_into (case pb_sctp_tuning b of None \<Rightarrow> opts | Some t \<Rightarrow> st_apply t opts))"

section \<open>The factory\<close>

record factory =
  pf_handle :: nat
  pf_dc_callbacks_on_network_thread :: bool
  pf_metadata_enabled :: bool
  pf_dc_chunking :: "dc_chunking option"
  pf_registry :: encoder_registry
  pf_openh264_registered :: bool

definition native_failure :: "string \<Rightarrow> string \<Rightarrow> string \<Rightarrow> error" where
  "native_failure generic prefix reason =
     Webrtc (if reason = '''' then Text generic else Fmt prefix [AStr reason])"

definition create_from_options ::
  "(factory_options \<Rightarrow> string + nat) \<Rightarrow> factory_options \<Rightarrow> bool \<Rightarrow> dc_chunking option \<Rightarrow> bool \<Rightarrow> encoder_registry
     \<Rightarrow> bool \<Rightarrow> factory result" where
  "create_from_options create opts metadata_enabled chunking network_thread registry openh264_registered =
     (case create opts of
        Inl reason \<Rightarrow>
          Inl (native_failure ''factory creation returned null'' ''factory creation failed: {reason}'' reason)
      | Inr raw \<Rightarrow>
          Inr \<lparr>pf_handle = raw, pf_dc_callbacks_on_network_thread = network_thread,
               pf_metadata_enabled = metadata_enabled, pf_dc_chunking = chunking,
               pf_registry = registry, pf_openh264_registered = openh264_registered\<rparr>)"

definition openh264_error :: error where
  "openh264_error = Webrtc (Text ''openh264 lib_path contains a NUL byte'')"

definition build :: "(factory_options \<Rightarrow> string + nat) \<Rightarrow> factory_builder \<Rightarrow> factory result" where
  "build create b =
     res_bind (check_opt dk_validate (pb_dc_chunking b)) (\<lambda>_.
     res_bind (check_opt st_validate (pb_sctp_tuning b)) (\<lambda>_.
     res_bind (check_opt pd_validate (pb_send_playout_delay b)) (\<lambda>send_playout.
     res_bind (check_opt pd_validate (pb_receive_playout_delay b)) (\<lambda>recv_playout.
     res_bind (check_opt (cstring_or openh264_error) (pb_openh264 b)) (\<lambda>openh264_c.
     create_from_options create (builder_options b send_playout recv_playout openh264_c) (pb_metadata b)
       (pb_dc_chunking b) (pb_dc_callbacks_on_network_thread b) er_new (pb_openh264 b \<noteq> None))))))"

section \<open>Tracks\<close>

text \<open>The process: its registries, and the next identity of a Rust allocation.\<close>

record process =
  pr_registries :: registries
  pr_next :: nat

definition proc_alloc :: "process \<Rightarrow> nat \<times> process" where
  "proc_alloc p = (pr_next p, p\<lparr>pr_next := pr_next p + 1\<rparr>)"

datatype h264_backend = BackendVideoToolbox | BackendOpenH264

datatype track_encoder = PreEncoded u32 u32 | InlineEncoder nat

record video_track_options =
  vo_encoder :: "track_encoder option"
  vo_h264_backend :: "h264_backend option"
  vo_frame_metadata :: "bool option"

definition video_track_options_default :: video_track_options where
  "video_track_options_default = \<lparr>vo_encoder = None, vo_h264_backend = None, vo_frame_metadata = None\<rparr>"

datatype local_video_track = RawTrack track | EncodedTrack encoded_video_track

fun lt_track :: "local_video_track \<Rightarrow> track" where
  "lt_track (RawTrack t) = t"
| "lt_track (EncodedTrack e) = et_track e"

definition h264_backend_pref :: "bool \<Rightarrow> factory \<Rightarrow> h264_backend option \<Rightarrow> backend_pref result" where
  "h264_backend_pref apple f backend =
     (case backend of
        None \<Rightarrow> Inr AutoBackend
      | Some BackendVideoToolbox \<Rightarrow>
          if \<not> apple then Inl (Webrtc (Text ''H264Backend::VideoToolbox is only available on Apple platforms''))
          else Inr VideoToolbox
      | Some BackendOpenH264 \<Rightarrow>
          if \<not> pf_openh264_registered f
          then Inl (Webrtc (Text (''H264Backend::OpenH264 requires registering the library first '' @
                  ''(PeerConnectionFactory::builder().with_openh264(path))'')))
          else Inr OpenH264)"

definition track_metadata_enabled :: "factory \<Rightarrow> bool option \<Rightarrow> bool" where
  "track_metadata_enabled f flag =
     (pf_metadata_enabled f \<and> (case flag of None \<Rightarrow> True | Some b \<Rightarrow> b))"

definition create_video_track_no_slot ::
  "(string \<Rightarrow> nat option) \<Rightarrow> process \<Rightarrow> string \<Rightarrow> bool \<Rightarrow> (error + track) \<times> process" where
  "create_video_track_no_slot native_track p name metadata =
     (case cstring name of
        None \<Rightarrow> (Inl (Webrtc (Text ''id contains a NUL byte'')), p)
      | Some cid \<Rightarrow>
          (case native_track cid of
             None \<Rightarrow> (Inl (Webrtc (Text ''video track creation returned null'')), p)
           | Some native_id \<Rightarrow>
               (let (source, p1) = proc_alloc p;
                    (queue, p2) = proc_alloc p1;
                    (t, rg) = from_raw_with_registry (pr_registries p2) native_id source queue Video False metadata
                in (Inr t, p2\<lparr>pr_registries := rg\<rparr>))))"

definition create_video_track ::
  "(string \<Rightarrow> nat option) \<Rightarrow> factory \<Rightarrow> process \<Rightarrow> string \<Rightarrow> (error + track) \<times> factory \<times> process" where
  "create_video_track native_track f p name =
     (case create_video_track_no_slot native_track p name (pf_metadata_enabled f) of
        (Inl e, p') \<Rightarrow> (Inl e, f, p')
      | (Inr t, p') \<Rightarrow> (Inr t, f\<lparr>pf_registry := add_raw_slot (pf_registry f) (tk_native_id t)\<rparr>, p'))"

definition create_video_track_with_options ::
  "bool \<Rightarrow> (string \<Rightarrow> nat option) \<Rightarrow> factory \<Rightarrow> process \<Rightarrow> string \<Rightarrow> video_track_options
     \<Rightarrow> (error + local_video_track) \<times> factory \<times> process" where
  "create_video_track_with_options apple native_track f p name options =
     (if vo_encoder options \<noteq> None \<and> vo_h264_backend options \<noteq> None
      then (Inl (Webrtc (Text (''h264_backend with a custom encoder: the track's bytes come '' @
                  ''from your own pipeline - there is no backend to route to''))), f, p)
      else
        (let metadata = track_metadata_enabled f (vo_frame_metadata options) in
         case vo_encoder options of
           None \<Rightarrow>
             (case h264_backend_pref apple f (vo_h264_backend options) of
                Inl e \<Rightarrow> (Inl e, f, p)
              | Inr pref \<Rightarrow>
                  (case create_video_track_no_slot native_track p name metadata of
                     (Inl e, p') \<Rightarrow> (Inl e, f, p')
                   | (Inr t, p') \<Rightarrow>
                       (Inr (RawTrack t),
                        f\<lparr>pf_registry := add_raw_slot_with_backend (pf_registry f) (tk_native_id t) pref\<rparr>, p')))
         | Some (PreEncoded width height) \<Rightarrow>
             (case create_video_track_no_slot native_track p name metadata of
                (Inl e, p') \<Rightarrow> (Inl e, f, p')
              | (Inr t, p') \<Rightarrow>
                  (let (queue, p1) = proc_alloc p';
                       (feedback, p2) = proc_alloc p1;
                       (fifo, p3) = proc_alloc p2;
                       (et, rg) = evt_new (pr_registries p3) t queue feedback fifo width height
                   in (Inr (EncodedTrack et),
                       f\<lparr>pf_registry := add_encoded_slot (pf_registry f) (tk_native_id t) queue feedback\<rparr>,
                       p3\<lparr>pr_registries := rg\<rparr>)))
         | Some (InlineEncoder callback) \<Rightarrow>
             (case create_video_track_no_slot native_track p name metadata of
                (Inl e, p') \<Rightarrow> (Inl e, f, p')
              | (Inr t, p') \<Rightarrow>
                  (let (feedback, p1) = proc_alloc p' in
                   (Inr (RawTrack t),
                    f\<lparr>pf_registry := add_inline_slot (pf_registry f) (tk_native_id t) callback feedback\<rparr>,
                    p1\<lparr>pr_registries := (pr_registries p1)
                          \<lparr>rg_feedback := register_feedback_binding (rg_feedback (pr_registries p1))
                                            (tk_native_id t) feedback\<rparr>\<rparr>)))))"

text \<open>The whole drop of a video track of this factory: its registrations, then its slots.\<close>

definition drop_video_track :: "factory \<Rightarrow> process \<Rightarrow> nat \<Rightarrow> nat \<Rightarrow> track \<Rightarrow> factory \<times> process" where
  "drop_video_track f p source queue t =
     (f\<lparr>pf_registry := (if tk_kind t = Video then retract (pf_registry f) (tk_native_id t) else pf_registry f)\<rparr>,
      p\<lparr>pr_registries := track_drop (pr_registries p) source queue t\<rparr>)"

section \<open>Audio\<close>

datatype audio_track_source = AdmSource | LocalPush

record audio_track_options =
  ao_source :: audio_track_source
  ao_echo_cancellation :: "bool option"
  ao_noise_suppression :: "bool option"
  ao_auto_gain_control :: "bool option"
  ao_high_pass_filter :: "bool option"

definition audio_track_options_default :: audio_track_options where
  "audio_track_options_default =
     \<lparr>ao_source = AdmSource, ao_echo_cancellation = None, ao_noise_suppression = None,
      ao_auto_gain_control = None, ao_high_pass_filter = None\<rparr>"

record native_audio_options =
  na_source :: int
  na_echo_cancellation :: int
  na_noise_suppression :: int
  na_auto_gain_control :: int
  na_high_pass_filter :: int

definition tri :: "bool option \<Rightarrow> int" where
  "tri v = (case v of None \<Rightarrow> - 1 | Some b \<Rightarrow> if b then 1 else 0)"

definition native_audio :: "audio_track_options \<Rightarrow> native_audio_options" where
  "native_audio opts =
     \<lparr>na_source = (case ao_source opts of AdmSource \<Rightarrow> 0 | LocalPush \<Rightarrow> 1),
      na_echo_cancellation = tri (ao_echo_cancellation opts),
      na_noise_suppression = tri (ao_noise_suppression opts),
      na_auto_gain_control = tri (ao_auto_gain_control opts),
      na_high_pass_filter = tri (ao_high_pass_filter opts)\<rparr>"

definition create_audio_track_with_options ::
  "(string \<Rightarrow> native_audio_options \<Rightarrow> nat option) \<Rightarrow> process \<Rightarrow> string \<Rightarrow> audio_track_options
     \<Rightarrow> (error + track) \<times> process" where
  "create_audio_track_with_options native_track p name options =
     (case cstring name of
        None \<Rightarrow> (Inl (Webrtc (Text ''id contains a NUL byte'')), p)
      | Some cid \<Rightarrow>
          (case native_track cid (native_audio options) of
             None \<Rightarrow> (Inl (Webrtc (Text ''audio track creation returned null'')), p)
           | Some native_id \<Rightarrow>
               (let (source, p1) = proc_alloc p;
                    (queue, p2) = proc_alloc p1;
                    (t, rg) = from_raw_with_registry (pr_registries p2) native_id source queue Audio False True
                in (Inr t, p2\<lparr>pr_registries := rg\<rparr>))))"

definition create_audio_track ::
  "(string \<Rightarrow> native_audio_options \<Rightarrow> nat option) \<Rightarrow> process \<Rightarrow> string \<Rightarrow> (error + track) \<times> process" where
  "create_audio_track native_track p name = create_audio_track_with_options native_track p name audio_track_options_default"

definition create_audio_track_with_local_source ::
  "(string \<Rightarrow> native_audio_options \<Rightarrow> nat option) \<Rightarrow> process \<Rightarrow> string \<Rightarrow> (error + track) \<times> process" where
  "create_audio_track_with_local_source native_track p name =
     create_audio_track_with_options native_track p name (audio_track_options_default\<lparr>ao_source := LocalPush\<rparr>)"

text \<open>What one block of synthetic capture hands to the device: the samples per channel, the rate
  and the channels.\<close>

definition push_audio_frame :: "16 word list \<Rightarrow> u32 \<Rightarrow> u32 \<Rightarrow> nat \<times> u32 \<times> u32" where
  "push_audio_frame pcm sample_rate channels =
     (let channels = max channels 1 in (length pcm div unat channels, sample_rate, channels))"

end
