(* ===== verification/Factory_Props.thy ===== *)
theory Factory_Props
  imports Factory
begin

text \<open>
  What building a factory promises: settings that cannot work are refused before anything native is
  made, accepted ones reach the glue readable and fit its C types, and chunked channels of a built
  factory always get a queue. What creating tracks promises is in Factory_Tracks.
\<close>

section \<open>Building\<close>

definition settings_ok :: "factory_builder \<Rightarrow> bool" where
  "settings_ok b \<longleftrightarrow>
     (case pb_dc_chunking b of None \<Rightarrow> True | Some s \<Rightarrow> dk_validate s = Inr ()) \<and>
     (case pb_sctp_tuning b of None \<Rightarrow> True | Some t \<Rightarrow> st_ok t) \<and>
     (case pb_send_playout_delay b of None \<Rightarrow> True | Some d \<Rightarrow> pd_min d \<le> pd_max d \<and> pd_max d \<le> PD_MAX) \<and>
     (case pb_receive_playout_delay b of None \<Rightarrow> True | Some d \<Rightarrow> pd_min d \<le> pd_max d \<and> pd_max d \<le> PD_MAX) \<and>
     (case pb_openh264 b of None \<Rightarrow> True | Some path \<Rightarrow> NUL \<notin> set path)"

text \<open>Reading the options back: 0 is an unset field.\<close>

definition unless_zero :: "int \<Rightarrow> nat option" where
  "unless_zero v = (if v = 0 then None else Some (nat v))"

definition read_tuning :: "factory_options \<Rightarrow> sctp_tuning" where
  "read_tuning o' =
     \<lparr>st_initial_cwnd_mtus = unless_zero (fo_sctp_initial_cwnd_mtus o'),
      st_min_cwnd_mtus = unless_zero (fo_sctp_min_cwnd_mtus o'),
      st_rto_initial_ms = unless_zero (fo_sctp_rto_initial_ms o'),
      st_rto_min_ms = unless_zero (fo_sctp_rto_min_ms o'),
      st_delayed_ack_max_ms = unless_zero (fo_sctp_delayed_ack_max_ms o'),
      st_immediate_sack_under_cwnd_mtus = unless_zero (fo_sctp_immediate_sack_under_cwnd_mtus o')\<rparr>"

definition read_delay :: "int \<Rightarrow> int \<Rightarrow> int \<Rightarrow> (nat \<times> nat) option" where
  "read_delay is_set lo hi = (if is_set = 1 then Some (nat lo, nat hi) else None)"

definition readable :: "factory_builder \<Rightarrow> factory_options \<Rightarrow> bool" where
  "readable b o' \<longleftrightarrow>
     (fo_use_platform_adm o' = 1 \<longleftrightarrow> pb_adm b = PlatformAdm) \<and>
     map (bit (fo_apm_flags o')) [0, 1, 2, 3]
       = [ap_echo_canceller (pb_apm b), ap_noise_suppression (pb_apm b), ap_agc (pb_apm b),
          ap_high_pass_filter (pb_apm b)] \<and>
     (fo_dtls_in_stun o' = 1 \<longleftrightarrow> pb_dtls_in_stun b) \<and>
     unless_zero (fo_sctp_max_burst o') = map_option dk_max_burst (pb_dc_chunking b) \<and>
     read_tuning o' = (case pb_sctp_tuning b of None \<Rightarrow> sctp_tuning_default | Some t \<Rightarrow> t) \<and>
     read_delay (fo_send_playout_delay_set o') (fo_send_playout_delay_min_ms o') (fo_send_playout_delay_max_ms o')
       = map_option (\<lambda>d. (as_millis (pd_min d), as_millis (pd_max d))) (pb_send_playout_delay b) \<and>
     read_delay (fo_recv_playout_delay_set o') (fo_recv_playout_delay_min_ms o') (fo_recv_playout_delay_max_ms o')
       = map_option (\<lambda>d. (as_millis (pd_min d), as_millis (pd_max d))) (pb_receive_playout_delay b) \<and>
     fo_openh264_lib_path o' = pb_openh264 b \<and> fo_encoder_registry o'"

lemma tuning_read: "tuning_ok v limit \<Longrightarrow> unless_zero (case v of None \<Rightarrow> 0 | Some x \<Rightarrow> int x) = v"
  by (auto simp: tuning_ok_def unless_zero_def split: option.splits)

lemma read_applied: "st_ok t \<Longrightarrow> read_tuning (install_into (st_apply t o')) = t"
  by (cases t) (auto simp: read_tuning_def install_into_def st_apply_def st_ok_def Let_def intro!: tuning_read)

lemma dk_validate_burst: "dk_validate s = Inr () \<Longrightarrow> 0 < dk_max_burst s \<and> dk_max_burst s \<le> i32_max"
  by (auto simp: dk_validate_def split: if_splits)

definition delay_ms :: "playout_delay option \<Rightarrow> (int \<times> int) option" where
  "delay_ms d = map_option (\<lambda>d. (int (as_millis (pd_min d)), int (as_millis (pd_max d)))) d"

lemma options_readable:
  assumes "settings_ok b"
  shows "readable b (builder_options b (delay_ms (pb_send_playout_delay b)) (delay_ms (pb_receive_playout_delay b)) (pb_openh264 b))"
proof -
  let ?o = "builder_options b (delay_ms (pb_send_playout_delay b)) (delay_ms (pb_receive_playout_delay b)) (pb_openh264 b)"
  have tuning: "read_tuning ?o = (case pb_sctp_tuning b of None \<Rightarrow> sctp_tuning_default | Some t \<Rightarrow> t)"
  proof (cases "pb_sctp_tuning b")
    case None
    then show ?thesis
      by (simp add: builder_options_def read_tuning_def install_into_def sctp_tuning_default_def unless_zero_def Let_def)
  next
    case (Some t)
    then have "st_ok t" using assms by (simp add: settings_ok_def)
    then show ?thesis using Some by (simp add: builder_options_def read_applied Let_def)
  qed
  have other: "fo_use_platform_adm ?o = (if pb_adm b = PlatformAdm then 1 else 0)"
    "fo_apm_flags ?o = to_flags (pb_apm b)" "fo_dtls_in_stun ?o = (if pb_dtls_in_stun b then 1 else 0)"
    "fo_sctp_max_burst ?o = (case pb_dc_chunking b of None \<Rightarrow> 0 | Some c \<Rightarrow> int (dk_max_burst c))"
    "read_delay (fo_send_playout_delay_set ?o) (fo_send_playout_delay_min_ms ?o) (fo_send_playout_delay_max_ms ?o)
       = map_option (\<lambda>d. (as_millis (pd_min d), as_millis (pd_max d))) (pb_send_playout_delay b)"
    "read_delay (fo_recv_playout_delay_set ?o) (fo_recv_playout_delay_min_ms ?o) (fo_recv_playout_delay_max_ms ?o)
       = map_option (\<lambda>d. (as_millis (pd_min d), as_millis (pd_max d))) (pb_receive_playout_delay b)"
    "fo_openh264_lib_path ?o = pb_openh264 b" "fo_encoder_registry ?o"
    by (auto simp: builder_options_def install_into_def st_apply_def Let_def delay_ms_def read_delay_def
        split: option.split)
  have burst: "unless_zero (fo_sctp_max_burst ?o) = map_option dk_max_burst (pb_dc_chunking b)"
    unfolding other using assms by (auto simp: settings_ok_def unless_zero_def split: option.splits dest: dk_validate_burst)
  show ?thesis unfolding readable_def using tuning burst other by (simp add: to_flags_bits)
qed

lemma check_opt_ok: "check_opt check x = Inr y \<longleftrightarrow>
    (case x of None \<Rightarrow> y = None | Some a \<Rightarrow> (\<exists>c. check a = Inr c \<and> y = Some c))"
  by (auto simp: check_opt_def split: option.splits sum.splits)

lemma check_opt_fails: "(\<exists>e. check_opt check x = Inl e) \<longleftrightarrow> (\<exists>a. x = Some a \<and> (\<exists>e. check a = Inl e))"
  by (auto simp: check_opt_def split: option.splits sum.splits)

lemma delay_checked:
  "check_opt pd_validate d = Inr y \<longleftrightarrow>
     (case d of None \<Rightarrow> True | Some d \<Rightarrow> pd_min d \<le> pd_max d \<and> pd_max d \<le> PD_MAX) \<and> y = delay_ms d"
  by (cases y) (auto simp: check_opt_ok delay_ms_def pd_validate_ok split: option.splits)

lemma path_checked:
  "check_opt (cstring_or openh264_error) x = Inr y \<longleftrightarrow>
     (case x of None \<Rightarrow> True | Some path \<Rightarrow> NUL \<notin> set path) \<and> y = x"
  by (auto simp: check_opt_ok cstring_or_def cstring_def split: option.splits if_splits)

lemma build_ok:
  assumes "settings_ok b"
  shows "build create b =
    create_from_options create
      (builder_options b (delay_ms (pb_send_playout_delay b)) (delay_ms (pb_receive_playout_delay b)) (pb_openh264 b))
      (pb_metadata b) (pb_dc_chunking b) (pb_dc_callbacks_on_network_thread b) er_new (pb_openh264 b \<noteq> None)"
proof -
  have "check_opt dk_validate (pb_dc_chunking b) = Inr (map_option (\<lambda>_. ()) (pb_dc_chunking b))"
    "check_opt st_validate (pb_sctp_tuning b) = Inr (map_option (\<lambda>_. ()) (pb_sctp_tuning b))"
    "check_opt pd_validate (pb_send_playout_delay b) = Inr (delay_ms (pb_send_playout_delay b))"
    "check_opt pd_validate (pb_receive_playout_delay b) = Inr (delay_ms (pb_receive_playout_delay b))"
    "check_opt (cstring_or openh264_error) (pb_openh264 b) = Inr (pb_openh264 b)"
    using assms unfolding settings_ok_def delay_checked path_checked
    by (simp_all add: check_opt_ok st_validate_ok split: option.splits)
  then show ?thesis by (simp add: build_def)
qed

lemma build_refuses:
  assumes "\<not> settings_ok b"
  shows "\<exists>e. \<forall>create. build create b = Inl e"
proof (rule ccontr)
  assume all: "\<nexists>e. \<forall>create. build create b = Inl e"
  have "\<exists>y. check_opt dk_validate (pb_dc_chunking b) = Inr y"
    using all by (cases "check_opt dk_validate (pb_dc_chunking b)") (auto simp: build_def)
  then have 1: "case pb_dc_chunking b of None \<Rightarrow> True | Some s \<Rightarrow> dk_validate s = Inr ()"
    and c1: "\<exists>y. check_opt dk_validate (pb_dc_chunking b) = Inr y"
    by (auto simp: check_opt_ok split: option.splits)
  have c2: "\<exists>y. check_opt st_validate (pb_sctp_tuning b) = Inr y"
    using all c1 by (cases "check_opt st_validate (pb_sctp_tuning b)") (auto simp: build_def)
  then have 2: "case pb_sctp_tuning b of None \<Rightarrow> True | Some t \<Rightarrow> st_ok t"
    by (auto simp: check_opt_ok st_validate_ok split: option.splits)
  have c3: "\<exists>y. check_opt pd_validate (pb_send_playout_delay b) = Inr y"
    using all c1 c2 by (cases "check_opt pd_validate (pb_send_playout_delay b)") (auto simp: build_def)
  have c4: "\<exists>y. check_opt pd_validate (pb_receive_playout_delay b) = Inr y"
    using all c1 c2 c3 by (cases "check_opt pd_validate (pb_receive_playout_delay b)") (auto simp: build_def)
  have c5: "\<exists>y. check_opt (cstring_or openh264_error) (pb_openh264 b) = Inr y"
    using all c1 c2 c3 c4 by (cases "check_opt (cstring_or openh264_error) (pb_openh264 b)") (auto simp: build_def)
  show False using assms 1 2 c3 c4 c5 by (simp add: settings_ok_def delay_checked path_checked)
qed

text \<open>A factory is built from settings that can work, and the glue can read them. With settings
  out of range the build fails with an error that no native factory was asked for; otherwise the
  native factory is made from options from which the audio device, the processing stages, the
  chunking burst, every tuning field, both playout delays in milliseconds and the codec path read
  back as given, and the result is the native one, with the native reason when it fails.\<close>
theorem build_outcomes:
  "if settings_ok b
   then \<exists>o'. readable b o' \<and>
     build create b =
       (case create o' of
          Inl reason \<Rightarrow> Inl (Webrtc (if reason = '''' then Text ''factory creation returned null''
                                     else Fmt ''factory creation failed: {reason}'' [AStr reason]))
        | Inr raw \<Rightarrow> Inr \<lparr>pf_handle = raw,
            pf_dc_callbacks_on_network_thread = pb_dc_callbacks_on_network_thread b,
            pf_metadata_enabled = pb_metadata b, pf_dc_chunking = pb_dc_chunking b,
            pf_registry = er_new, pf_openh264_registered = (pb_openh264 b \<noteq> None)\<rparr>)
   else \<exists>e. \<forall>create'. build create' b = Inl e"
proof (cases "settings_ok b")
  case True
  have "build create b =
       (case create (builder_options b (delay_ms (pb_send_playout_delay b))
                       (delay_ms (pb_receive_playout_delay b)) (pb_openh264 b)) of
          Inl reason \<Rightarrow> Inl (Webrtc (if reason = '''' then Text ''factory creation returned null''
                                     else Fmt ''factory creation failed: {reason}'' [AStr reason]))
        | Inr raw \<Rightarrow> Inr \<lparr>pf_handle = raw,
            pf_dc_callbacks_on_network_thread = pb_dc_callbacks_on_network_thread b,
            pf_metadata_enabled = pb_metadata b, pf_dc_chunking = pb_dc_chunking b,
            pf_registry = er_new, pf_openh264_registered = (pb_openh264 b \<noteq> None)\<rparr>)"
    unfolding build_ok [OF True] create_from_options_def native_failure_def ..
  then show ?thesis using True options_readable [OF True] by (simp only: if_True) blast
next
  case False
  then show ?thesis using build_refuses by simp
qed

section \<open>The types of the native side\<close>

text \<open>Every number of the options fits the C type of its field.\<close>

definition fits_int :: "int \<Rightarrow> bool" where "fits_int v = (- 2147483648 \<le> v \<and> v \<le> 2147483647)"

definition fits_flag :: "int \<Rightarrow> bool" where "fits_flag v = (v = 0 \<or> v = 1)"

definition fits_c_types :: "factory_options \<Rightarrow> bool" where
  "fits_c_types o' \<longleftrightarrow>
     list_all fits_flag [fo_use_platform_adm o', fo_dtls_in_stun o', fo_send_playout_delay_set o', fo_recv_playout_delay_set o'] \<and>
     fo_apm_flags o' < 16 \<and>
     list_all fits_int
       [fo_sctp_max_burst o', fo_sctp_initial_cwnd_mtus o', fo_sctp_min_cwnd_mtus o', fo_sctp_rto_initial_ms o',
        fo_sctp_rto_min_ms o', fo_sctp_delayed_ack_max_ms o', fo_sctp_immediate_sack_under_cwnd_mtus o',
        fo_sender_transform_hold_ms o'] \<and>
     0 \<le> fo_send_playout_delay_min_ms o' \<and> fo_send_playout_delay_min_ms o' \<le> fo_send_playout_delay_max_ms o' \<and>
     fo_send_playout_delay_max_ms o' \<le> 40950 \<and>
     0 \<le> fo_recv_playout_delay_min_ms o' \<and> fo_recv_playout_delay_min_ms o' \<le> fo_recv_playout_delay_max_ms o' \<and>
     fo_recv_playout_delay_max_ms o' \<le> 40950 \<and>
     (case fo_openh264_lib_path o' of None \<Rightarrow> True | Some path \<Rightarrow> NUL \<notin> set path)"

lemma to_flags_small: "to_flags c < 16"
  by (cases c) (auto simp: to_flags_def Let_def)

lemma tuning_fits: "tuning_ok v limit \<Longrightarrow> limit \<le> 2147483647 \<Longrightarrow> fits_int (case v of None \<Rightarrow> 0 | Some x \<Rightarrow> int x)"
  by (auto simp: tuning_ok_def fits_int_def split: option.splits)

lemma delay_fits:
  assumes "case d of None \<Rightarrow> True | Some d \<Rightarrow> pd_min d \<le> pd_max d \<and> pd_max d \<le> PD_MAX"
  shows "0 \<le> (case delay_ms d of None \<Rightarrow> 0 | Some (lo, _) \<Rightarrow> lo)"
    "(case delay_ms d of None \<Rightarrow> 0 | Some (lo, _) \<Rightarrow> lo) \<le> (case delay_ms d of None \<Rightarrow> 0 | Some (_, hi) \<Rightarrow> hi)"
    "(case delay_ms d of None \<Rightarrow> 0 | Some (_, hi) \<Rightarrow> hi) \<le> 40950"
proof -
  show "0 \<le> (case delay_ms d of None \<Rightarrow> 0 | Some (lo, _) \<Rightarrow> lo)" by (simp add: delay_ms_def split: option.split)
  have bounds: "lo \<le> hi \<and> hi \<le> 40950" if given: "delay_ms d = Some (lo, hi)" for lo hi
  proof -
    obtain x where x: "d = Some x" "lo = int (as_millis (pd_min x))" "hi = int (as_millis (pd_max x))"
      using given unfolding delay_ms_def by (cases d) simp_all
    then have "pd_validate x = Inr (lo, hi)" using assms by (simp add: pd_validate_ok)
    from pd_validate_range [OF this] show ?thesis by blast
  qed
  show "(case delay_ms d of None \<Rightarrow> 0 | Some (lo, _) \<Rightarrow> lo) \<le> (case delay_ms d of None \<Rightarrow> 0 | Some (_, hi) \<Rightarrow> hi)"
    "(case delay_ms d of None \<Rightarrow> 0 | Some (_, hi) \<Rightarrow> hi) \<le> 40950"
    using bounds by (auto split: option.split)
qed

lemma options_fit:
  assumes "settings_ok b"
  shows "fits_c_types (builder_options b (delay_ms (pb_send_playout_delay b)) (delay_ms (pb_receive_playout_delay b)) (pb_openh264 b))"
proof -
  let ?o = "builder_options b (delay_ms (pb_send_playout_delay b)) (delay_ms (pb_receive_playout_delay b)) (pb_openh264 b)"
  have hold: "fits_int (case pb_sender_transform_hold b of None \<Rightarrow> 0 | Some d \<Rightarrow> int (min (as_millis d) i32_max))"
    by (auto simp: fits_int_def i32_max_def split: option.split)
  have burst: "fits_int (case pb_dc_chunking b of None \<Rightarrow> 0 | Some c \<Rightarrow> int (dk_max_burst c))"
    using assms by (auto simp: settings_ok_def fits_int_def i32_max_def split: option.splits dest: dk_validate_burst)
  have delays: "case pb_send_playout_delay b of None \<Rightarrow> True | Some d \<Rightarrow> pd_min d \<le> pd_max d \<and> pd_max d \<le> PD_MAX"
    "case pb_receive_playout_delay b of None \<Rightarrow> True | Some d \<Rightarrow> pd_min d \<le> pd_max d \<and> pd_max d \<le> PD_MAX"
    "case pb_openh264 b of None \<Rightarrow> True | Some path \<Rightarrow> NUL \<notin> set path"
    using assms by (simp_all add: settings_ok_def)
  note facts = hold burst delays(3) delay_fits [OF delays(1)] delay_fits [OF delays(2)]
  show ?thesis
  proof (cases "pb_sctp_tuning b")
    case None
    then show ?thesis
      using facts
      by (simp add: fits_c_types_def builder_options_def install_into_def fits_flag_def to_flags_small Let_def)
         (simp add: fits_int_def)
  next
    case (Some t)
    then have "st_ok t" using assms by (simp add: settings_ok_def)
    then have "list_all fits_int (map (\<lambda>v. case v of None \<Rightarrow> 0 | Some x \<Rightarrow> int x)
        [st_initial_cwnd_mtus t, st_min_cwnd_mtus t, st_rto_initial_ms t, st_rto_min_ms t, st_delayed_ack_max_ms t,
         st_immediate_sack_under_cwnd_mtus t])"
      by (auto simp: st_ok_def MAX_MTUS_def MAX_MS_def intro: tuning_fits)
    then show ?thesis
      using facts Some
      by (simp add: fits_c_types_def builder_options_def install_into_def st_apply_def fits_flag_def to_flags_small Let_def)
  qed
qed

text \<open>Nothing the native factory is given overflows its field. Whatever a caller sets, a build
  either fails before the native call or hands over options all of whose numbers fit their C
  types: flags are 0 or 1, the processing flags use their four bits, the burst, every tuning
  field and the transform hold fit an \<open>int\<close>, both playout delays are ordered within the
  extension's range, and the codec path is a C string.\<close>
theorem options_fit_c_types:
  "(\<exists>e. \<forall>create. build create b = Inl e) \<or>
   (\<exists>opts. fits_c_types opts \<and>
     (\<forall>create. build create b =
        create_from_options create opts (pb_metadata b) (pb_dc_chunking b) (pb_dc_callbacks_on_network_thread b)
          er_new (pb_openh264 b \<noteq> None)))"
proof (cases "settings_ok b")
  case True
  then show ?thesis using options_fit [OF True] build_ok [OF True] by blast
next
  case False
  then show ?thesis using build_refuses by blast
qed

lemma built_chunking:
  assumes "build create b = Inr f" "pf_dc_chunking f = Some s"
  shows "dk_validate s = Inr ()"
proof (cases "settings_ok b")
  case True
  then have "pf_dc_chunking f = pb_dc_chunking b"
    using assms(1) by (auto simp: build_ok create_from_options_def split: sum.splits)
  then show ?thesis using True assms(2) by (simp add: settings_ok_def split: option.splits)
next
  case False
  then show ?thesis using build_refuses [OF False] assms(1) by force
qed

text \<open>Chunking never fails on settings once the factory is built. For every connection of a
  built factory, whichever way it opts in, whatever the peer declared, deciding to chunk a channel
  makes its send queue, whose own check cannot fail there.\<close>
theorem built_factories_can_chunk:
  assumes "build create b = Inr f"
  shows "case ng_settings (ng_new (opt_filter opted_in (pf_dc_chunking f))) of
     None \<Rightarrow> \<not> opted_in \<or> pb_dc_chunking b = None
   | Some s \<Rightarrow> opted_in \<and> pb_dc_chunking b = Some s \<and>
       send_new (dk_send_config s remote)
         = Some \<lparr>sq_config = dk_send_config s remote, sq_pending = [], sq_queued = 0\<rparr>"
proof -
  have "settings_ok b" using build_refuses [of b] assms by force
  then have same: "pf_dc_chunking f = pb_dc_chunking b"
    using assms by (auto simp: build_ok create_from_options_def split: sum.splits)
  show ?thesis
    using accepted_settings_queue built_chunking [OF assms]
    by (cases opted_in; cases "pb_dc_chunking b") (simp_all add: ng_new_def same)
qed

lemma built_factories_can_chunk_witness:
  "build (\<lambda>_. Inr 7) (with_dc_chunking_settings pb_new dc_chunking_default)
     = Inr \<lparr>pf_handle = 7, pf_dc_callbacks_on_network_thread = False, pf_metadata_enabled = True,
            pf_dc_chunking = Some dc_chunking_default, pf_registry = er_new, pf_openh264_registered = False\<rparr> \<and>
   send_new (dk_send_config dc_chunking_default (params_local 1000)) \<noteq> None"
proof -
  let ?b = "with_dc_chunking_settings pb_new dc_chunking_default"
  have "settings_ok ?b"
    by (simp add: settings_ok_def with_dc_chunking_settings_def pb_new_def dk_validate_def
        dc_chunking_default_def i32_max_def validate_def default_send_config_def dc_constants)
  then have built: "build (\<lambda>_. Inr 7) ?b
     = Inr \<lparr>pf_handle = 7, pf_dc_callbacks_on_network_thread = False, pf_metadata_enabled = True,
            pf_dc_chunking = Some dc_chunking_default, pf_registry = er_new, pf_openh264_registered = False\<rparr>"
    by (simp add: build_ok create_from_options_def with_dc_chunking_settings_def pb_new_def)
  then show ?thesis
    using built_factories_can_chunk [OF built, of True "params_local 1000"] by (simp add: ng_new_def)
qed

end
