(* ===== verification/Factory_Tracks.thy ===== *)
theory Factory_Tracks
  imports Factory Encoder_Registry_Props
begin

text \<open>
  The tracks of a factory over their life: what creating one reserves and registers, and what
  dropping it gives back (\<open>lib.rs\<close>, \<open>media.rs\<close> and \<open>encoded.rs\<close> together).
\<close>

section \<open>Creation\<close>

lemmas registration_defs = register_def deregister_def register_receiver_def deregister_receiver_def
  register_allowed_def deregister_allowed_def

lemma no_slot_outcomes:
  "create_video_track_no_slot native_track p name metadata =
     (case (cstring name, Option.bind (cstring name) native_track) of
        (None, _) \<Rightarrow> (Inl (Webrtc (Text ''id contains a NUL byte'')), p)
      | (Some _, None) \<Rightarrow> (Inl (Webrtc (Text ''video track creation returned null'')), p)
      | (Some _, Some native_id) \<Rightarrow>
          (Inr (fst (from_raw_with_registry (pr_registries p) native_id (pr_next p) (pr_next p + 1) Video False metadata)),
           \<lparr>pr_registries = snd (from_raw_with_registry (pr_registries p) native_id (pr_next p) (pr_next p + 1) Video False metadata),
            pr_next = pr_next p + 2\<rparr>))"
  by (cases "cstring name")
     (simp_all del: cstring_Some add: create_video_track_no_slot_def proc_alloc_def Let_def case_prod_beta
        split: option.split)

text \<open>The track a creation makes, and the process after it.\<close>

definition new_track :: "nat \<Rightarrow> bool \<Rightarrow> track" where
  "new_track native_id metadata =
     \<lparr>tk_kind = Video, tk_sender_meta = cm_default, tk_native_id = native_id, tk_frame_counter = 0,
      tk_last_send_ms = 0, tk_is_remote = False, tk_metadata_enabled = metadata, tk_native = []\<rparr>"

definition registered :: "registries \<Rightarrow> nat \<Rightarrow> nat \<Rightarrow> nat \<Rightarrow> bool \<Rightarrow> registries" where
  "registered rg native_id source queue metadata =
     rg\<lparr>rg_send := register (rg_send rg) native_id source,
        rg_recv := register_receiver (rg_recv rg) native_id queue,
        rg_allowed := register_allowed (rg_allowed rg) native_id metadata\<rparr>"

lemma no_slot_made:
  assumes "cstring name = Some c" "native_track c = Some native_id"
  shows "create_video_track_no_slot native_track p name metadata =
    (Inr (new_track native_id metadata),
     \<lparr>pr_registries = registered (pr_registries p) native_id (pr_next p) (pr_next p + 1) metadata,
      pr_next = pr_next p + 2\<rparr>)"
  using assms by (simp del: cstring_Some add: no_slot_outcomes from_raw_with_registry_def new_track_def registered_def)

text \<open>What each kind of encoder option reserves and registers; the allocations are the process's
  next ones.\<close>

definition slot_of :: "process \<Rightarrow> track_encoder option \<Rightarrow> backend_pref \<Rightarrow> registry_slot" where
  "slot_of p enc pref =
     (case enc of
        None \<Rightarrow> Builtin pref
      | Some (PreEncoded _ _) \<Rightarrow> Custom (pr_next p + 2) (pr_next p + 3)
      | Some (InlineEncoder callback) \<Rightarrow> Inline callback (pr_next p + 2))"

definition feedback_of :: "process \<Rightarrow> track_encoder option \<Rightarrow> nat option" where
  "feedback_of p enc =
     (case enc of
        None \<Rightarrow> None
      | Some (PreEncoded _ _) \<Rightarrow> Some (pr_next p + 3)
      | Some (InlineEncoder callback) \<Rightarrow> Some (pr_next p + 2))"

definition source_of :: "process \<Rightarrow> track_encoder option \<Rightarrow> nat" where
  "source_of p enc = (case enc of Some (PreEncoded _ _) \<Rightarrow> pr_next p + 4 | _ \<Rightarrow> pr_next p)"

lemma creation_failure:
  assumes "create_video_track_with_options apple native_track f p name options = (Inl e, f', p')"
  shows "f' = f \<and> p' = p \<and>
    (vo_encoder options \<noteq> None \<and> vo_h264_backend options \<noteq> None \<or>
     vo_encoder options = None \<and> h264_backend_pref apple f (vo_h264_backend options) = Inl e \<or>
     Option.bind (cstring name) native_track = None)"
proof (cases "Option.bind (cstring name) native_track")
  case None
  then have "\<exists>e. create_video_track_no_slot native_track p name m = (Inl e, p)" for m
    by (cases "cstring name") (auto simp del: cstring_Some simp add: no_slot_outcomes)
  then obtain err where "\<And>m. create_video_track_no_slot native_track p name m = (Inl (err m), p)"
    by metis
  with None assms show ?thesis
    by (auto simp: create_video_track_with_options_def Let_def
        split: option.splits sum.splits track_encoder.splits if_splits)
next
  case (Some native_id)
  then obtain c where c: "cstring name = Some c" "native_track c = Some native_id"
    by (auto simp del: cstring_Some simp add: Option.bind_eq_Some_conv)
  show ?thesis
    using assms Some
    by (auto simp: create_video_track_with_options_def no_slot_made [of name c native_track native_id, OF c] Let_def
        proc_alloc_def evt_new_def split: option.splits sum.splits track_encoder.splits if_splits)
qed

lemma creation_success:
  assumes made: "create_video_track_with_options apple native_track f p name options = (Inr lt, f', p')"
  obtains native_id pref where
      "Option.bind (cstring name) native_track = Some native_id"
      "if vo_encoder options = None then h264_backend_pref apple f (vo_h264_backend options) = Inr pref
       else vo_h264_backend options = None"
      "lt_track lt = new_track native_id (track_metadata_enabled f (vo_frame_metadata options))"
      "f' = f\<lparr>pf_registry := reserve (pf_registry f) native_id (slot_of p (vo_encoder options) pref)\<rparr>"
      "native_id = 0 \<Longrightarrow> pr_registries p' = pr_registries p"
      "native_id \<noteq> 0 \<Longrightarrow> rg_send (pr_registries p') = (rg_send (pr_registries p))(native_id := Some (source_of p (vo_encoder options)))"
      "native_id \<noteq> 0 \<Longrightarrow> rg_recv (pr_registries p') = (rg_recv (pr_registries p))(native_id := Some (pr_next p + 1))"
      "native_id \<noteq> 0 \<Longrightarrow> rg_allowed (pr_registries p') =
         (rg_allowed (pr_registries p))(native_id := Some (track_metadata_enabled f (vo_frame_metadata options)))"
      "native_id \<noteq> 0 \<Longrightarrow> rg_feedback (pr_registries p') = (case feedback_of p (vo_encoder options) of
         None \<Rightarrow> rg_feedback (pr_registries p)
       | Some fb \<Rightarrow> (rg_feedback (pr_registries p))(native_id := Some fb))"
proof (cases "Option.bind (cstring name) native_track")
  case None
  then have "\<exists>e. create_video_track_no_slot native_track p name m = (Inl e, p)" for m
    by (cases "cstring name") (auto simp del: cstring_Some simp add: no_slot_outcomes)
  then obtain err where "\<And>m. create_video_track_no_slot native_track p name m = (Inl (err m), p)"
    by metis
  with None made have False
    by (auto simp: create_video_track_with_options_def Let_def
        split: option.splits sum.splits track_encoder.splits if_splits)
  then show thesis ..
next
  case (Some native_id)
  then obtain c where c: "cstring name = Some c" "native_track c = Some native_id"
    by (auto simp del: cstring_Some simp add: Option.bind_eq_Some_conv)
  note step = create_video_track_with_options_def no_slot_made [of name c native_track native_id, OF c] Let_def
    slot_of_def feedback_of_def source_of_def new_track_def registered_def registration_defs
  show thesis
  proof (cases "vo_encoder options")
    case None
    then obtain pref where pref: "h264_backend_pref apple f (vo_h264_backend options) = Inr pref"
      using made by (auto simp: create_video_track_with_options_def split: sum.splits)
    show thesis
      using None pref made
      by (intro that [of native_id pref]) (auto simp: step Some add_raw_slot_with_backend_def)
  next
    case (Some enc)
    then show thesis
      using made \<open>Option.bind (cstring name) native_track = Some native_id\<close>
      by (intro that [of native_id AutoBackend]; cases enc)
         (auto simp: step proc_alloc_def add_encoded_slot_def add_inline_slot_def evt_new_def
            register_feedback_binding_def numeral_eq_Suc split: if_splits)
  qed
qed

lemma track_metadata_enabled_iff:
  "track_metadata_enabled f flag \<longleftrightarrow> pf_metadata_enabled f \<and> flag \<noteq> Some False"
  by (auto simp: track_metadata_enabled_def split: option.split)


section \<open>Drop\<close>

definition names_track :: "encoder_registry \<Rightarrow> nat \<Rightarrow> bool" where
  "names_track r native_id =
     (list_ex (\<lambda>p. rs_native_id p = native_id) (er_pending r) \<or>
      list_ex (\<lambda>(_, a). rs_native_id a = native_id) (er_assigned r))"

lemma retract_reserve:
  assumes "\<not> names_track r native_id"
  shows "retract (reserve r native_id slot) native_id = r"
proof -
  have "map (\<lambda>(e, a). (e, retract_assigned native_id a)) (er_assigned r) = er_assigned r"
    using assms by (intro map_idI) (auto simp: names_track_def retract_assigned_def list_ex_iff)
  moreover have "filter (\<lambda>p. rs_native_id p \<noteq> native_id) (er_pending r) = er_pending r"
    using assms by (auto simp: names_track_def list_ex_iff filter_id_conv)
  ultimately show ?thesis by (simp add: retract_def reserve_def)
qed

definition fresh_track :: "registries \<Rightarrow> nat \<Rightarrow> bool" where
  "fresh_track rg native_id \<longleftrightarrow> rg_send rg native_id = None \<and> rg_recv rg native_id = None \<and>
     rg_allowed rg native_id = None \<and> rg_feedback rg native_id = None"

text \<open>Dropping a video track gives back what its creation took. When the native identity was
  not in use before, the drop right after the creation restores the encoder registry and the
  receive, switch and feedback registrations, and the send registration of every track that has a
  timestamp map of its own. A pre-encoded track alone leaves an entry behind: its queue of metadata
  had replaced the map that the drop looks for.\<close>
theorem drop_undoes_creation:
  assumes made: "create_video_track_with_options apple native_track f p name options = (Inr lt, f', p')"
    and unused: "fresh_track (pr_registries p) (tk_native_id (lt_track lt))"
      "\<not> names_track (pf_registry f) (tk_native_id (lt_track lt))"
    and dropped: "drop_video_track f' p' (pr_next p) (pr_next p + 1) (lt_track lt) = (f'', p'')"
  shows "f'' = f \<and> rg_recv (pr_registries p'') = rg_recv (pr_registries p) \<and>
    rg_allowed (pr_registries p'') = rg_allowed (pr_registries p) \<and>
    rg_feedback (pr_registries p'') = rg_feedback (pr_registries p) \<and>
    rg_send (pr_registries p'') =
       (case vo_encoder options of
          Some (PreEncoded _ _) \<Rightarrow>
            register (rg_send (pr_registries p)) (tk_native_id (lt_track lt)) (pr_next p + 4)
        | _ \<Rightarrow> rg_send (pr_registries p))"
proof -
  obtain native_id pref where eff:
      "Option.bind (cstring name) native_track = Some native_id"
      "lt_track lt = new_track native_id (track_metadata_enabled f (vo_frame_metadata options))"
      "f' = f\<lparr>pf_registry := reserve (pf_registry f) native_id (slot_of p (vo_encoder options) pref)\<rparr>"
      "native_id = 0 \<Longrightarrow> pr_registries p' = pr_registries p"
      "native_id \<noteq> 0 \<Longrightarrow> rg_send (pr_registries p') = (rg_send (pr_registries p))(native_id := Some (source_of p (vo_encoder options)))"
      "native_id \<noteq> 0 \<Longrightarrow> rg_recv (pr_registries p') = (rg_recv (pr_registries p))(native_id := Some (pr_next p + 1))"
      "native_id \<noteq> 0 \<Longrightarrow> rg_allowed (pr_registries p') =
         (rg_allowed (pr_registries p))(native_id := Some (track_metadata_enabled f (vo_frame_metadata options)))"
      "native_id \<noteq> 0 \<Longrightarrow> rg_feedback (pr_registries p') = (case feedback_of p (vo_encoder options) of
         None \<Rightarrow> rg_feedback (pr_registries p)
       | Some fb \<Rightarrow> (rg_feedback (pr_registries p))(native_id := Some fb))"
    by (rule creation_success [OF made]) (rule that)
  note drop = dropped [unfolded drop_video_track_def track_drop_def eff(2)]
  have "f'' = f"
    using drop unused(2) eff(2,3) by (auto simp: new_track_def retract_reserve)
  moreover have "rg_recv (pr_registries p'') = rg_recv (pr_registries p)"
    "rg_allowed (pr_registries p'') = rg_allowed (pr_registries p)"
    "rg_feedback (pr_registries p'') = rg_feedback (pr_registries p)"
    using drop unused(1) eff(2,4,6-8)
    by (cases "native_id = 0"; auto simp: new_track_def registration_defs fresh_track_def fun_upd_idem split: option.splits)+
  moreover have "rg_send (pr_registries p'') =
       (case vo_encoder options of
          Some (PreEncoded _ _) \<Rightarrow>
            register (rg_send (pr_registries p)) (tk_native_id (lt_track lt)) (pr_next p + 4)
        | _ \<Rightarrow> rg_send (pr_registries p))"
    using drop unused(1) eff(2,4,5)
    by (cases "native_id = 0"; auto simp: new_track_def registration_defs fresh_track_def fun_upd_idem source_of_def
        split: option.splits track_encoder.splits)
  ultimately show ?thesis by blast
qed

lemma drop_undoes_creation_witness:
  "let f = \<lparr>pf_handle = 5, pf_dc_callbacks_on_network_thread = False, pf_metadata_enabled = True,
             pf_dc_chunking = None, pf_registry = er_new, pf_openh264_registered = False\<rparr>;
       p = \<lparr>pr_registries = \<lparr>rg_send = (\<lambda>_. None), rg_recv = (\<lambda>_. None), rg_allowed = (\<lambda>_. None),
                             rg_feedback = (\<lambda>_. None)\<rparr>, pr_next = 10\<rparr>;
       options = video_track_options_default\<lparr>vo_encoder := Some (PreEncoded 640 480)\<rparr>;
       (r, f', p') = create_video_track_with_options False (\<lambda>_. Some 7) f p ''cam'' options;
       (f'', p'') = drop_video_track f' p' 10 11 (new_track 7 True)
   in f'' = f \<and> rg_send (pr_registries p'') 7 = Some 14 \<and> rg_recv (pr_registries p'') 7 = None"
proof -
  define f :: factory where "f = \<lparr>pf_handle = 5, pf_dc_callbacks_on_network_thread = False, pf_metadata_enabled = True,
             pf_dc_chunking = None, pf_registry = er_new, pf_openh264_registered = False\<rparr>"
  define p :: process where "p = \<lparr>pr_registries = \<lparr>rg_send = (\<lambda>_. None), rg_recv = (\<lambda>_. None), rg_allowed = (\<lambda>_. None),
                             rg_feedback = (\<lambda>_. None)\<rparr>, pr_next = 10\<rparr>"
  define options where "options = video_track_options_default\<lparr>vo_encoder := Some (PreEncoded 640 480)\<rparr>"
  obtain r f' p' where made: "create_video_track_with_options False (\<lambda>_. Some 7) f p ''cam'' options = (r, f', p')"
    by (metis prod_cases3)
  then obtain lt where lt: "r = Inr lt" "lt_track lt = new_track 7 True"
    by (auto simp: create_video_track_with_options_def options_def video_track_options_default_def f_def p_def
        create_video_track_no_slot_def cstring_def NUL_def track_metadata_enabled_def from_raw_with_registry_def
        proc_alloc_def evt_new_def new_track_def Let_def)
  obtain f'' p'' where dropped: "drop_video_track f' p' 10 11 (new_track 7 True) = (f'', p'')"
    by (metis prod.exhaust)
  have "f'' = f \<and> rg_send (pr_registries p'') 7 = Some 14 \<and> rg_recv (pr_registries p'') 7 = None"
    using drop_undoes_creation [of False "\<lambda>_. Some 7" f p "''cam''" options lt f' p' f'' p'']
      made dropped lt
    by (simp add: fresh_track_def names_track_def new_track_def f_def p_def er_new_def options_def register_def
        video_track_options_default_def)
  then show ?thesis
    by (simp add: f_def [symmetric] p_def [symmetric] options_def [symmetric] made dropped Let_def)
qed

end
