(* ===== verification/Transceiver.thy ===== *)
theory Transceiver
  imports Factory
begin

text \<open>
  A transceiver of a connection (\<open>crates/reactor-webrtc/src/peer_connection.rs\<close>): its
  track, direction and codec preferences, its bitrate and jitter-buffer bounds, and the attachment
  of the composed transformer to its sender and receiver.

  What libwebrtc answers is an argument of each operation: whether it accepted, and the state of the
  native transceiver the code reads afterwards. The slots, gates and registries the process shares
  are the world, which also logs, in order, the native transformers libwebrtc accepted and the
  transceivers asked to lock their codec.
\<close>

section \<open>The world\<close>

record conn_world =
  cw_rg :: registries
  cw_slots :: slot_map
  cw_gates :: "nat \<Rightarrow> gate"
  cw_native :: "slot_key list"
  cw_locks :: "nat list"

record native_transceiver =
  nt_id :: nat
  nt_media_kind :: int
  nt_sender_track :: nat
  nt_receiver_track :: nat

record transceiver =
  tc_raw :: native_transceiver
  tc_pc_id :: nat
  tc_gate :: nat

definition tc_from_raw :: "native_transceiver \<Rightarrow> nat \<Rightarrow> nat \<Rightarrow> transceiver" where
  "tc_from_raw raw pc_id gate = \<lparr>tc_raw = raw, tc_pc_id = pc_id, tc_gate = gate\<rparr>"

definition transceiver_id :: "transceiver \<Rightarrow> nat" where "transceiver_id tc = nt_id (tc_raw tc)"
definition sender_track_id :: "transceiver \<Rightarrow> nat" where "sender_track_id tc = nt_sender_track (tc_raw tc)"
definition receiver_track_id :: "transceiver \<Rightarrow> nat" where "receiver_track_id tc = nt_receiver_track (tc_raw tc)"

definition tc_kind :: "transceiver \<Rightarrow> media_kind" where
  "tc_kind tc = media_kind_from_raw (nt_media_kind (tc_raw tc))"

text \<open>What C leaves in a buffer is read up to the first NUL byte.\<close>

definition c_str :: "string \<Rightarrow> string" where
  "c_str buf = takeWhile (\<lambda>c. c \<noteq> NUL) buf"

text \<open>The native call answers with a length, or a negative number, and fills the buffer.\<close>

definition tc_mid :: "int \<times> string \<Rightarrow> string option" where
  "tc_mid answer = (case answer of (n, buf) \<Rightarrow> if n < 0 then None else Some (c_str buf))"

section \<open>Transforms\<close>

definition side_name :: "side_of \<Rightarrow> string" where
  "side_name side = (case side of SendSide \<Rightarrow> ''sender'' | ReceiveSide \<Rightarrow> ''receiver'')"

type_synonym attach_answers = "nat \<Rightarrow> side_of \<Rightarrow> int"

definition attach_native_transform ::
  "attach_answers \<Rightarrow> transceiver \<Rightarrow> side_of \<Rightarrow> conn_world \<Rightarrow> unit result \<times> conn_world" where
  "attach_native_transform attach tc side w =
     (if attach (transceiver_id tc) side = 1
      then (Inr (), w\<lparr>cw_native := cw_native w @ [(tc_pc_id tc, transceiver_id tc, side)]\<rparr>)
      else (Inl (Webrtc (Fmt ''transceiver set_{}_transform failed'' [AStr (side_name side)])), w))"

definition attach_caller_transform ::
  "attach_answers \<Rightarrow> transceiver \<Rightarrow> side_of \<Rightarrow> encoded_cb \<Rightarrow> conn_world \<Rightarrow> unit result \<times> conn_world" where
  "attach_caller_transform attach tc side callback w =
     (case attach_caller (cw_slots w) (tc_pc_id tc) (transceiver_id tc) side callback of
        (False, slots) \<Rightarrow>
          (if transceiver_id tc = 0
           then Inl (Webrtc (Text ''transceiver has no native identity to attach a transform to''))
           else Inr (),
           w\<lparr>cw_slots := slots\<rparr>)
      | (True, slots) \<Rightarrow>
          (case attach_native_transform attach tc side (w\<lparr>cw_slots := slots\<rparr>) of
             (Inl e, w1) \<Rightarrow>
               (Inl e, w1\<lparr>cw_slots := release_install (cw_slots w1) (tc_pc_id tc) (transceiver_id tc) side\<rparr>)
           | (Inr _, w1) \<Rightarrow> (Inr (), w1)))"

definition set_sender_transform ::
  "attach_answers \<Rightarrow> transceiver \<Rightarrow> encoded_cb \<Rightarrow> conn_world \<Rightarrow> unit result \<times> conn_world" where
  "set_sender_transform attach tc transform w = attach_caller_transform attach tc SendSide transform w"

definition set_receiver_transform ::
  "attach_answers \<Rightarrow> transceiver \<Rightarrow> encoded_cb \<Rightarrow> conn_world \<Rightarrow> unit result \<times> conn_world" where
  "set_receiver_transform attach tc transform w = attach_caller_transform attach tc ReceiveSide transform w"

text \<open>Wiring a metadata step: claim the slot, attach the native transformer if it is the first, and
  give the claim back if libwebrtc declines.\<close>

definition wire_slot ::
  "attach_answers \<Rightarrow> transceiver \<Rightarrow> side_of \<Rightarrow> bool \<times> slot_map \<Rightarrow> conn_world \<Rightarrow> conn_world" where
  "wire_slot attach tc side claimed w =
     (case claimed of (first, slots) \<Rightarrow>
        let w1 = w\<lparr>cw_slots := slots\<rparr> in
        if first
        then (case attach_native_transform attach tc side w1 of
                (Inl _, w2) \<Rightarrow> w2\<lparr>cw_slots := release_install (cw_slots w2) (tc_pc_id tc) (transceiver_id tc) side\<rparr>
              | (Inr _, w2) \<Rightarrow> w2)
        else w1)"

definition sender_lookup :: "(nat \<Rightarrow> bool) \<Rightarrow> transceiver \<Rightarrow> conn_world \<Rightarrow> nat option \<times> conn_world" where
  "sender_lookup alive tc w =
     (case lookup alive (rg_send (cw_rg w)) (sender_track_id tc) of
        (source, m) \<Rightarrow> (source, w\<lparr>cw_rg := (cw_rg w)\<lparr>rg_send := m\<rparr>\<rparr>))"

definition receiver_lookup :: "(nat \<Rightarrow> bool) \<Rightarrow> transceiver \<Rightarrow> conn_world \<Rightarrow> nat option \<times> conn_world" where
  "receiver_lookup alive tc w =
     (case lookup_receiver alive (rg_recv (cw_rg w)) (receiver_track_id tc) of
        (queue, m) \<Rightarrow> (queue, w\<lparr>cw_rg := (cw_rg w)\<lparr>rg_recv := m\<rparr>\<rparr>))"

definition wire_embed ::
  "(nat \<Rightarrow> bool) \<Rightarrow> attach_answers \<Rightarrow> transceiver \<Rightarrow> conn_world \<Rightarrow> conn_world" where
  "wire_embed alive attach tc w =
     (case sender_lookup alive tc w of
        (None, w1) \<Rightarrow> w1
      | (Some source, w1) \<Rightarrow>
          wire_slot attach tc SendSide
            (attach_embed (cw_slots w1) (tc_pc_id tc) (transceiver_id tc) source (tc_gate tc)) w1)"

definition wire_strip ::
  "(nat \<Rightarrow> bool) \<Rightarrow> attach_answers \<Rightarrow> transceiver \<Rightarrow> conn_world \<Rightarrow> conn_world" where
  "wire_strip alive attach tc w =
     (case receiver_lookup alive tc w of
        (None, w1) \<Rightarrow> w1
      | (Some queue, w1) \<Rightarrow>
          wire_slot attach tc ReceiveSide
            (attach_strip (cw_slots w1) (tc_pc_id tc) (transceiver_id tc) queue) w1)"

section \<open>Track, direction and codecs\<close>

text \<open>\<open>tc\<close> is the transceiver after the native call, whose sender then has the new
  track.\<close>

definition set_track ::
  "(nat \<Rightarrow> bool) \<Rightarrow> attach_answers \<Rightarrow> int \<Rightarrow> transceiver \<Rightarrow> conn_world \<Rightarrow> unit result \<times> conn_world" where
  "set_track alive attach ok tc w =
     (if ok = 1
      then (let (source, w1) = sender_lookup alive tc w;
                w2 = (case source of
                        None \<Rightarrow> w1
                      | Some s \<Rightarrow> w1\<lparr>cw_slots := update_embed_source (cw_slots w1) (tc_pc_id tc) (transceiver_id tc) s\<rparr>)
            in (Inr (),
                if \<not> gate_is_open (cw_gates w2 (tc_gate tc)) \<or>
                   \<not> allowed (rg_allowed (cw_rg w2)) (sender_track_id tc)
                then w2 else wire_embed alive attach tc w2))
      else (Inl (Webrtc (Text ''transceiver set_track failed'')), w))"

definition set_direction :: "(int \<Rightarrow> int) \<Rightarrow> transceiver_direction \<Rightarrow> unit result" where
  "set_direction native direction =
     (if native (direction_to_raw direction) = 1 then Inr ()
      else Inl (Webrtc (Text ''transceiver set_direction failed'')))"

text \<open>Durations are nanoseconds. The native call is told whether there is a floor, and the floor
  (as a floating-point number of seconds in the code; the duration itself stands for it here).\<close>

definition JITTER_LIMIT :: nat where "JITTER_LIMIT = 10 * 1000000000"

definition set_jitter_buffer_minimum_delay :: "(int \<Rightarrow> nat \<Rightarrow> int) \<Rightarrow> nat option \<Rightarrow> unit result" where
  "set_jitter_buffer_minimum_delay native delay =
     (if (case delay of None \<Rightarrow> False | Some d \<Rightarrow> d > JITTER_LIMIT)
      then Inl (Webrtc (Fmt ''jitter buffer minimum delay {delay:?} is above libwebrtc's {LIMIT:?}''
                  [ANat (the delay), ANat JITTER_LIMIT]))
      else if native (if delay = None then 0 else 1) (case delay of None \<Rightarrow> 0 | Some d \<Rightarrow> d) = 1 then Inr ()
      else Inl (Webrtc (Text ''transceiver set_jitter_buffer_minimum_delay failed'')))"

definition set_codec_preferences :: "(string list \<Rightarrow> int) \<Rightarrow> video_codec list \<Rightarrow> unit result" where
  "set_codec_preferences native codecs =
     (if native (map codec_name codecs) = 1 then Inr ()
      else Inl (Webrtc (Text ''transceiver set_codec_preferences failed (not a video transceiver?)'')))"

definition try_lock_negotiated_send_codec :: "transceiver \<Rightarrow> conn_world \<Rightarrow> conn_world" where
  "try_lock_negotiated_send_codec tc w = w\<lparr>cw_locks := cw_locks w @ [transceiver_id tc]\<rparr>"

section \<open>Bitrate\<close>

definition negative_bound :: "string \<times> int option \<Rightarrow> error option" where
  "negative_bound bound =
     (case bound of
        (label, Some v) \<Rightarrow>
          if v < 0
          then Some (Webrtc (Fmt (''{label} must be >= 0; pass None to leave it at the libwebrtc default '' @
                        ''(got {v})'') [AStr label, AInt v]))
          else None
      | _ \<Rightarrow> None)"

definition or_minus_one :: "int option \<Rightarrow> int" where
  "or_minus_one x = (case x of None \<Rightarrow> - 1 | Some v \<Rightarrow> v)"

definition native_rc :: "string \<Rightarrow> int \<times> string \<Rightarrow> unit result" where
  "native_rc generic answer =
     (case answer of (rc, err) \<Rightarrow>
        if rc \<noteq> 0
        then (let reason = c_str err in Inl (Webrtc (Text (if reason = '''' then generic else reason))))
        else Inr ())"

definition set_send_bitrate ::
  "(int \<Rightarrow> int \<Rightarrow> int \<times> string) \<Rightarrow> int option \<Rightarrow> int option \<Rightarrow> unit result" where
  "set_send_bitrate native min_bps max_bps =
     (case List.map_filter negative_bound [(''min_bps'', min_bps), (''max_bps'', max_bps)] of
        e # _ \<Rightarrow> Inl e
      | [] \<Rightarrow> native_rc ''transceiver set_send_bitrate failed''
                (native (or_minus_one min_bps) (or_minus_one max_bps)))"

end
