(* ===== verification/Peer_Connection.thy ===== *)
theory Peer_Connection
  imports Transceiver Dc_Channel
begin

text \<open>
  A peer connection (\<open>crates/reactor-webrtc/src/peer_connection.rs\<close>, with its creation in
  \<open>lib.rs\<close> and its observer in \<open>observer.rs\<close>): signalling, tracks and transceivers, data
  channels, ICE candidates, and the release of its slots.

  An operation that libwebrtc completes with a callback takes what the callback delivered, or
  \<open>None\<close> when the wait timed out. The transceivers are those libwebrtc enumerates when the code asks.
\<close>

section \<open>Waiting for a callback\<close>

definition sdp_ok :: "string \<Rightarrow> string \<Rightarrow> session_description result" where
  "sdp_ok ty sdp =
     (let kind = c_str ty in
      case sdp_from_str kind of
        Some k \<Rightarrow> Inr \<lparr>sd_kind = k, sd_sdp = c_str sdp\<rparr>
      | None \<Rightarrow> Inl (Webrtc (Fmt ''unknown sdp type: {kind}'' [AStr kind])))"

definition sdp_err :: "string \<Rightarrow> session_description result" where
  "sdp_err message = Inl (Webrtc (Text (c_str message)))"

definition complete_cb :: "string option \<Rightarrow> unit result" where
  "complete_cb err = (case err of None \<Rightarrow> Inr () | Some message \<Rightarrow> Inl (Webrtc (Text (c_str message))))"

type_synonym sdp_answer = "(string + string \<times> string) option"

definition run_sdp :: "sdp_answer \<Rightarrow> session_description result" where
  "run_sdp answer =
     (case answer of
        None \<Rightarrow> Inl (Webrtc (Text ''sdp operation timed out''))
      | Some (Inl message) \<Rightarrow> sdp_err message
      | Some (Inr (ty, sdp)) \<Rightarrow> sdp_ok ty sdp)"

type_synonym complete_answer = "string option option"

definition await_complete :: "complete_answer \<Rightarrow> unit result option" where
  "await_complete answer = map_option complete_cb answer"

definition complete_timed_out :: error where
  "complete_timed_out = Webrtc (Text ''operation timed out'')"

definition run_complete :: "complete_answer \<Rightarrow> unit result" where
  "run_complete answer =
     (case await_complete answer of None \<Rightarrow> Inl complete_timed_out | Some r \<Rightarrow> r)"

section \<open>The connection\<close>

record observer =
  ob_connection_state_change :: bool
  ob_ice_gathering_change :: bool
  ob_ice_candidate :: bool
  ob_track :: bool
  ob_data_channel :: bool

definition observer_new :: observer where
  "observer_new =
     \<lparr>ob_connection_state_change = False, ob_ice_gathering_change = False, ob_ice_candidate = False,
      ob_track = False, ob_data_channel = False\<rparr>"

definition on_connection_state_change :: "observer \<Rightarrow> observer" where
  "on_connection_state_change obs = obs\<lparr>ob_connection_state_change := True\<rparr>"
definition on_ice_gathering_change :: "observer \<Rightarrow> observer" where
  "on_ice_gathering_change obs = obs\<lparr>ob_ice_gathering_change := True\<rparr>"
definition on_ice_candidate :: "observer \<Rightarrow> observer" where
  "on_ice_candidate obs = obs\<lparr>ob_ice_candidate := True\<rparr>"
definition on_track :: "observer \<Rightarrow> observer" where
  "on_track obs = obs\<lparr>ob_track := True\<rparr>"
definition on_data_channel :: "observer \<Rightarrow> observer" where
  "on_data_channel obs = obs\<lparr>ob_data_channel := True\<rparr>"

text \<open>Which trampolines the native side is given.\<close>

record callbacks =
  cb_signaling_change :: bool
  cb_connection_change :: bool
  cb_ice_gathering_change :: bool
  cb_ice_candidate :: bool
  cb_data_channel :: bool
  cb_renegotiation_needed :: bool
  cb_track :: bool

definition observer_callbacks :: "observer \<Rightarrow> callbacks" where
  "observer_callbacks obs =
     \<lparr>cb_signaling_change = False, cb_connection_change = ob_connection_state_change obs,
      cb_ice_gathering_change = ob_ice_gathering_change obs, cb_ice_candidate = ob_ice_candidate obs,
      cb_data_channel = ob_data_channel obs, cb_renegotiation_needed = False, cb_track = ob_track obs\<rparr>"

record peer_connection =
  pc_raw :: nat
  pc_observer :: observer
  pc_on_network_thread :: bool \<comment> \<open>of the factory's handle\<close>
  pc_gate :: nat
  pc_frame_metadata_enabled :: bool
  pc_negotiation :: negotiation

definition pc_new :: "nat \<Rightarrow> observer \<Rightarrow> bool \<Rightarrow> nat \<Rightarrow> bool \<Rightarrow> negotiation \<Rightarrow> conn_world \<Rightarrow> peer_connection \<times> conn_world" where
  "pc_new raw obs network_thread gate frame_metadata_enabled negotiation w =
     (\<lparr>pc_raw = raw, pc_observer = obs, pc_on_network_thread = network_thread, pc_gate = gate,
       pc_frame_metadata_enabled = frame_metadata_enabled, pc_negotiation = negotiation\<rparr>,
      w\<lparr>cw_gates := (cw_gates w)(gate := gate_new)\<rparr>)"

text \<open>\<open>gate\<close> is the identity of the new connection's gate.\<close>

definition create_peer_connection ::
  "(nat \<Rightarrow> native_config \<Rightarrow> callbacks \<Rightarrow> string + nat) \<Rightarrow> factory \<Rightarrow> rtc_configuration \<Rightarrow> observer \<Rightarrow> nat
     \<Rightarrow> conn_world \<Rightarrow> peer_connection result \<times> conn_world" where
  "create_peer_connection create f config obs gate w =
     (let negotiation = ng_new (case pf_dc_chunking f of
                                  None \<Rightarrow> None | Some s \<Rightarrow> if rc_dc_chunking config then Some s else None) in
      case to_native config of
        Inl e \<Rightarrow> (Inl e, w)
      | Inr native \<Rightarrow>
          (case create (pf_handle f) native (observer_callbacks obs) of
             Inl err \<Rightarrow>
               (Inl (native_failure ''peer connection creation returned null''
                       ''peer connection creation failed: {reason}'' (c_str err)), w)
           | Inr raw \<Rightarrow>
               (case pc_new raw obs (pf_dc_callbacks_on_network_thread f) gate
                       (rc_frame_metadata config \<and> pf_metadata_enabled f) negotiation w of
                  (pc, w') \<Rightarrow> (Inr pc, w'))))"

definition pc_dc_chunking :: "peer_connection \<Rightarrow> dc_chunking option" where
  "pc_dc_chunking pc = ng_settings (pc_negotiation pc)"

definition dc_chunking_negotiated :: "peer_connection \<Rightarrow> bool" where
  "dc_chunking_negotiated pc = (ng_remote (pc_negotiation pc) \<noteq> None)"

definition frame_metadata_gate :: "peer_connection \<Rightarrow> conn_world \<Rightarrow> gate" where
  "frame_metadata_gate pc w = cw_gates w (pc_gate pc)"

section \<open>Offers and answers\<close>

definition create_offer :: "peer_connection \<Rightarrow> sdp_answer \<Rightarrow> session_description result" where
  "create_offer pc answer =
     res_bind (run_sdp answer) (\<lambda>offer.
       let offer = (if pc_frame_metadata_enabled pc then with_frame_metadata offer else offer)
       in Inr (ng_offer (pc_negotiation pc) offer))"

definition create_answer :: "peer_connection \<Rightarrow> conn_world \<Rightarrow> sdp_answer \<Rightarrow> session_description result" where
  "create_answer pc w answer =
     res_bind (run_sdp answer) (\<lambda>ans.
       let ans = (if gate_is_open (cw_gates w (pc_gate pc)) then with_frame_metadata ans else ans)
       in Inr (ng_answer (pc_negotiation pc) ans))"

section \<open>The metadata install\<close>

definition transceivers :: "peer_connection \<Rightarrow> native_transceiver option list \<Rightarrow> transceiver list" where
  "transceivers pc natives =
     List.map_filter (map_option (\<lambda>raw. tc_from_raw raw (pc_raw pc) (pc_gate pc))) natives"

definition install_transceiver ::
  "(nat \<Rightarrow> bool) \<Rightarrow> attach_answers \<Rightarrow> transceiver \<Rightarrow> conn_world \<Rightarrow> conn_world" where
  "install_transceiver alive attach tc w =
     (if tc_kind tc \<noteq> Video then w
      else wire_strip alive attach tc
             (if allowed (rg_allowed (cw_rg w)) (sender_track_id tc) then wire_embed alive attach tc w else w))"

definition install_frame_metadata_transforms ::
  "(nat \<Rightarrow> bool) \<Rightarrow> attach_answers \<Rightarrow> peer_connection \<Rightarrow> native_transceiver option list \<Rightarrow> conn_world \<Rightarrow> conn_world" where
  "install_frame_metadata_transforms alive attach pc natives w =
     (if \<not> gate_is_open (cw_gates w (pc_gate pc)) then w
      else (let tcs = transceivers pc natives in
            fold (install_transceiver alive attach) tcs
              (w\<lparr>cw_slots := prune_stale_slots (cw_slots w) (pc_raw pc) (map transceiver_id tcs)\<rparr>)))"

definition lock_negotiated_send_codecs :: "peer_connection \<Rightarrow> native_transceiver option list \<Rightarrow> conn_world \<Rightarrow> conn_world" where
  "lock_negotiated_send_codecs pc natives w =
     fold (\<lambda>tc w. if tc_kind tc \<noteq> Video then w else try_lock_negotiated_send_codec tc w)
       (transceivers pc natives) w"

section \<open>Descriptions\<close>

definition set_description :: "session_description \<Rightarrow> complete_answer \<Rightarrow> apply_error + unit" where
  "set_description sdp answer =
     (case cstring (sd_sdp sdp) of
        None \<Rightarrow> Inl (Rejected (Webrtc (Text ''sdp contains a NUL byte'')))
      | Some body \<Rightarrow>
          (case await_complete answer of
             Some r \<Rightarrow> map_err Rejected r
           | None \<Rightarrow> Inl (Unconfirmed complete_timed_out)))"

definition set_local_description ::
  "(nat \<Rightarrow> bool) \<Rightarrow> attach_answers \<Rightarrow> native_transceiver option list \<Rightarrow> complete_answer
     \<Rightarrow> peer_connection \<Rightarrow> session_description \<Rightarrow> conn_world \<Rightarrow> unit result \<times> peer_connection \<times> conn_world" where
  "set_local_description alive attach natives answer pc sdp w =
     (case apply_local sdp (set_description sdp answer) (pc_negotiation pc) of
        (n, Inl e) \<Rightarrow> (Inl e, pc\<lparr>pc_negotiation := n\<rparr>, w)
      | (n, Inr _) \<Rightarrow>
          (Inr (), pc\<lparr>pc_negotiation := n\<rparr>,
           lock_negotiated_send_codecs pc natives (install_frame_metadata_transforms alive attach pc natives w)))"

definition set_remote_description ::
  "(nat \<Rightarrow> bool) \<Rightarrow> attach_answers \<Rightarrow> native_transceiver option list \<Rightarrow> complete_answer
     \<Rightarrow> peer_connection \<Rightarrow> session_description \<Rightarrow> conn_world \<Rightarrow> unit result \<times> peer_connection \<times> conn_world" where
  "set_remote_description alive attach natives answer pc sdp w =
     (case apply_remote sdp (set_description sdp answer) (pc_negotiation pc) of
        (n, Inl e) \<Rightarrow> (Inl e, pc\<lparr>pc_negotiation := n\<rparr>, w)
      | (n, Inr _) \<Rightarrow>
          (let w1 = w\<lparr>cw_gates := (cw_gates w)(pc_gate pc :=
                      gate_set (cw_gates w (pc_gate pc)) (pc_frame_metadata_enabled pc \<and> declares_frame_metadata sdp))\<rparr>
           in (Inr (), pc\<lparr>pc_negotiation := n\<rparr>,
               lock_negotiated_send_codecs pc natives (install_frame_metadata_transforms alive attach pc natives w1))))"

section \<open>Candidates\<close>

record ice_candidate =
  ic_candidate :: string
  ic_sdp_mid :: "string option"
  ic_sdp_mline_index :: "u16 option"

definition add_ice_candidate ::
  "(string \<Rightarrow> int \<Rightarrow> string \<Rightarrow> complete_answer) \<Rightarrow> ice_candidate \<Rightarrow> unit result" where
  "add_ice_candidate native candidate =
     (let mid = (case cstring (case ic_sdp_mid candidate of None \<Rightarrow> '''' | Some m \<Rightarrow> m) of
                   None \<Rightarrow> '''' | Some m \<Rightarrow> m) in
      case cstring (ic_candidate candidate) of
        None \<Rightarrow> Inl (Webrtc (Text ''candidate contains a NUL byte''))
      | Some cand \<Rightarrow>
          run_complete (native mid (case ic_sdp_mline_index candidate of None \<Rightarrow> 0 | Some i \<Rightarrow> int (unat i)) cand))"

text \<open>The observer's side: a null pointer reads as the empty string.\<close>

definition cstr :: "string option \<Rightarrow> string" where
  "cstr p = (case p of None \<Rightarrow> '''' | Some s \<Rightarrow> c_str s)"

definition tramp_ice :: "observer \<Rightarrow> string option \<Rightarrow> int \<Rightarrow> string option \<Rightarrow> ice_candidate option" where
  "tramp_ice obs sdp_mid sdp_mline_index candidate =
     (if ob_ice_candidate obs
      then Some \<lparr>ic_candidate = cstr candidate, ic_sdp_mid = Some (cstr sdp_mid),
                 ic_sdp_mline_index = Some (word_of_int sdp_mline_index)\<rparr>
      else None)"

definition tramp_conn :: "observer \<Rightarrow> int \<Rightarrow> peer_connection_state option" where
  "tramp_conn obs state =
     (if ob_connection_state_change obs then Some (peer_connection_state_from_raw state) else None)"

definition tramp_gathering :: "observer \<Rightarrow> int \<Rightarrow> ice_gathering_state option" where
  "tramp_gathering obs state = (if ob_ice_gathering_change obs then Some (ice_gathering_from_raw state) else None)"

section \<open>Tracks and channels\<close>

definition add_track ::
  "(nat \<Rightarrow> bool) \<Rightarrow> attach_answers \<Rightarrow> int \<Rightarrow> native_transceiver option list \<Rightarrow> peer_connection \<Rightarrow> conn_world
     \<Rightarrow> unit result \<times> conn_world" where
  "add_track alive attach ok natives pc w =
     (if ok = 1 then (Inr (), install_frame_metadata_transforms alive attach pc natives w)
      else (Inl (Webrtc (Text ''add_track failed'')), w))"

definition add_transceiver ::
  "(int \<Rightarrow> int \<Rightarrow> native_transceiver option) \<Rightarrow> peer_connection \<Rightarrow> media_kind \<Rightarrow> transceiver_direction
     \<Rightarrow> transceiver result" where
  "add_transceiver native pc kind direction =
     res_bind (case kind of
                 Audio \<Rightarrow> Inr 0
               | Video \<Rightarrow> Inr 1
               | UnknownKind \<Rightarrow> Inl (Webrtc (Text ''add_transceiver needs audio or video'')))
       (\<lambda>media_kind.
         case native media_kind (direction_to_raw direction) of
           None \<Rightarrow> Inl (Webrtc (Text ''add_transceiver failed''))
         | Some raw \<Rightarrow> Inr (tc_from_raw raw (pc_raw pc) (pc_gate pc)))"

text \<open>A data channel, once created, shares the negotiation of its connection.\<close>

definition create_data_channel :: "(string \<Rightarrow> bool) \<Rightarrow> peer_connection \<Rightarrow> string \<Rightarrow> channel result" where
  "create_data_channel native pc label =
     (case cstring label of
        None \<Rightarrow> Inl (Webrtc (Text ''label has a NUL byte''))
      | Some c \<Rightarrow>
          if \<not> native c then Inl (Webrtc (Text ''create_data_channel returned null''))
          else Inr (with_dc_negotiation (dc_new (pc_on_network_thread pc)) (pc_negotiation pc)))"

definition tramp_data_channel :: "peer_connection \<Rightarrow> channel option" where
  "tramp_data_channel pc =
     (let channel = with_dc_negotiation (dc_new (pc_on_network_thread pc)) (pc_negotiation pc)
      in if ob_data_channel (pc_observer pc) then Some channel else None)"

text \<open>A remote track registers like any other; dropped at once when nobody takes it. The
  registries see it under its native identity.\<close>

definition tramp_track ::
  "observer \<Rightarrow> registries \<Rightarrow> nat \<Rightarrow> nat \<Rightarrow> nat \<Rightarrow> int \<Rightarrow> track option \<times> registries" where
  "tramp_track obs rg native_id source queue raw_kind =
     (case from_raw_with_registry rg native_id source queue (media_kind_from_raw raw_kind) True True of
        (t, rg') \<Rightarrow> if ob_track obs then (Some t, rg') else (None, track_drop rg' source queue t))"

definition set_bitrate ::
  "(int \<Rightarrow> int \<Rightarrow> int \<Rightarrow> int \<times> string) \<Rightarrow> int option \<Rightarrow> int option \<Rightarrow> int option \<Rightarrow> unit result" where
  "set_bitrate native min_bps start_bps max_bps =
     native_rc ''set_bitrate failed''
       (native (or_minus_one min_bps) (or_minus_one start_bps) (or_minus_one max_bps))"

section \<open>Drop\<close>

definition pc_drop :: "native_transceiver option list \<Rightarrow> peer_connection \<Rightarrow> conn_world \<Rightarrow> conn_world" where
  "pc_drop natives pc w =
     w\<lparr>cw_slots := fold (\<lambda>tc m. forget_transceiver m (pc_raw pc) (transceiver_id tc))
                     (transceivers pc natives) (cw_slots w)\<rparr>"

end
