(* ===== verification/Peer_Connection_Props.thy ===== *)
theory Peer_Connection_Props
  imports Peer_Connection
begin

text \<open>
  Signalling on a connection: which descriptions move what, and what crosses the native boundary
  unchanged.
\<close>

section \<open>The install leaves the gates alone\<close>

lemma wire_slot_gates [simp]: "cw_gates (wire_slot attach tc side claimed w) = cw_gates w"
  by (auto simp: wire_slot_def attach_native_transform_def Let_def split: prod.split sum.split)

lemma wire_gates [simp]:
  "cw_gates (wire_embed alive attach tc w) = cw_gates w"
  "cw_gates (wire_strip alive attach tc w) = cw_gates w"
  by (auto simp: wire_embed_def wire_strip_def sender_lookup_def receiver_lookup_def split: prod.split option.split)

lemma install_gates [simp]:
  "cw_gates (install_frame_metadata_transforms alive attach pc natives w) = cw_gates w"
proof -
  have "cw_gates (fold (install_transceiver alive attach) tcs w) = cw_gates w" for tcs w
    by (induction tcs arbitrary: w) (simp_all add: install_transceiver_def)
  then show ?thesis by (simp add: install_frame_metadata_transforms_def Let_def)
qed

lemma lock_world:
  "lock_negotiated_send_codecs pc natives w =
     w\<lparr>cw_locks := cw_locks w @ map transceiver_id (filter (\<lambda>tc. tc_kind tc = Video) (transceivers pc natives))\<rparr>"
proof -
  have "fold (\<lambda>tc w. if tc_kind tc \<noteq> Video then w else try_lock_negotiated_send_codec tc w) tcs w
      = w\<lparr>cw_locks := cw_locks w @ map transceiver_id (filter (\<lambda>tc. tc_kind tc = Video) tcs)\<rparr>" for tcs w
    by (induction tcs arbitrary: w) (simp_all add: try_lock_negotiated_send_codec_def)
  then show ?thesis by (simp add: lock_negotiated_send_codecs_def)
qed

section \<open>Applying a description\<close>

lemma set_description_cases:
  "set_description sdp answer =
     (if NUL \<in> set (sd_sdp sdp) then Inl (Rejected (Webrtc (Text ''sdp contains a NUL byte'')))
      else case answer of
             None \<Rightarrow> Inl (Unconfirmed complete_timed_out)
           | Some None \<Rightarrow> Inr ()
           | Some (Some message) \<Rightarrow> Inl (Rejected (Webrtc (Text (c_str message)))))"
  by (auto simp: set_description_def cstring_def await_complete_def complete_cb_def split: option.split)

lemma apply_cases:
  "ng_apply record native n =
     (case native of
        Inr _ \<Rightarrow> (apply_record record n, Inr ())
      | Inl (Rejected e) \<Rightarrow> (n, Inl e)
      | Inl (Unconfirmed e) \<Rightarrow> (apply_record record n, Inl e))"
  by (cases n) (auto simp: ng_apply_def apply_record_def apply_finish_def split: option.split sum.split apply_error.split)

text \<open>C9: A failed description moves nothing but what libwebrtc may have applied. A description
  that cannot be handed over or that libwebrtc rejects leaves the connection and the world
  exactly as they were. One that is not confirmed in time keeps what it recorded of the chunking
  negotiation, since libwebrtc may still apply it, and opens or closes no gate and attaches
  nothing. Only an applied remote description sets the gate, to whether this side takes part
  and the description declares the capability.\<close>
theorem failed_descriptions_move_nothing:
  "set_remote_description alive attach natives answer pc sdp w =
     (case set_description sdp answer of
        Inl (Rejected e) \<Rightarrow> (Inl e, pc, w)
      | Inl (Unconfirmed e) \<Rightarrow>
          (Inl e, pc\<lparr>pc_negotiation := apply_record (\<lambda>s. on_remote_description s sdp) (pc_negotiation pc)\<rparr>, w)
      | Inr _ \<Rightarrow>
          (let w1 = w\<lparr>cw_gates := (cw_gates w)(pc_gate pc := pc_frame_metadata_enabled pc \<and> declares_frame_metadata sdp)\<rparr>;
               w2 = install_frame_metadata_transforms alive attach pc natives w1
           in (Inr (), pc\<lparr>pc_negotiation := apply_record (\<lambda>s. on_remote_description s sdp) (pc_negotiation pc)\<rparr>,
               w2\<lparr>cw_locks := cw_locks w2 @ map transceiver_id (filter (\<lambda>tc. tc_kind tc = Video) (transceivers pc natives))\<rparr>)))
   \<and> set_local_description alive attach natives answer pc sdp w =
     (case set_description sdp answer of
        Inl (Rejected e) \<Rightarrow> (Inl e, pc, w)
      | Inl (Unconfirmed e) \<Rightarrow>
          (Inl e, pc\<lparr>pc_negotiation := apply_record (\<lambda>s. on_local_description s sdp) (pc_negotiation pc)\<rparr>, w)
      | Inr _ \<Rightarrow>
          (let w2 = install_frame_metadata_transforms alive attach pc natives w
           in (Inr (), pc\<lparr>pc_negotiation := apply_record (\<lambda>s. on_local_description s sdp) (pc_negotiation pc)\<rparr>,
               w2\<lparr>cw_locks := cw_locks w2 @ map transceiver_id (filter (\<lambda>tc. tc_kind tc = Video) (transceivers pc natives))\<rparr>)))"
  by (cases pc)
     (auto simp: set_remote_description_def set_local_description_def apply_local_def apply_remote_def apply_cases
      lock_world gate_set_def Let_def split: sum.split apply_error.split)

section \<open>Declarations and fresh connections\<close>

lemma declares_created:
  "declares_frame_metadata (ng_offer n d) = declares_frame_metadata d"
  "declares_frame_metadata (ng_answer n d) = declares_frame_metadata d"
  by (simp_all add: ng_offer_def ng_answer_def with_dc_chunking_def fm_declares_sd split: option.split)

definition plain_connection :: "nat \<Rightarrow> bool \<Rightarrow> peer_connection" where
  "plain_connection raw enabled =
     \<lparr>pc_raw = raw, pc_observer = observer_new, pc_on_network_thread = False, pc_gate = raw,
      pc_frame_metadata_enabled = enabled, pc_negotiation = ng_new None\<rparr>"

definition empty_world :: conn_world where
  "empty_world =
     \<lparr>cw_rg = \<lparr>rg_send = (\<lambda>_. None), rg_recv = (\<lambda>_. None), rg_allowed = (\<lambda>_. None), rg_feedback = (\<lambda>_. None)\<rparr>,
      cw_slots = (\<lambda>_. None), cw_gates = (\<lambda>_. False), cw_native = [], cw_locks = []\<rparr>"

section \<open>What crosses the boundary\<close>

lemma c_str_clean: "NUL \<notin> set (c_str s)"
  by (auto simp: c_str_def dest: set_takeWhileD)

text \<open>A candidate goes from one end's observer to the other's connection unchanged. The
  mid and the candidate line reach the native call as they were reported, an end-of-candidates
  marker included; the index of the m-line is kept for every index a session can have and taken
  modulo \<open>2 ^ 16\<close> otherwise. The operation ends with the answer, or with a time-out.\<close>
theorem candidates_pass_through:
  "case tramp_ice obs (Some sdp_mid) index (Some line) of
     None \<Rightarrow> \<not> ob_ice_candidate obs
   | Some c \<Rightarrow>
       ob_ice_candidate obs \<and>
       add_ice_candidate native c =
         (case native (c_str sdp_mid) (index mod 65536) (c_str line) of
            None \<Rightarrow> Inl complete_timed_out
          | Some None \<Rightarrow> Inr ()
          | Some (Some message) \<Rightarrow> Inl (Webrtc (Text (c_str message))))"
  by (simp add: tramp_ice_def add_ice_candidate_def cstr_def cstring_def c_str_clean run_complete_def await_complete_def
      complete_cb_def unsigned_of_int take_bit_eq_mod split: option.split)

definition read_bound :: "int \<Rightarrow> int option" where
  "read_bound v = (if v = - 1 then None else Some v)"

text \<open>A sender's bitrate bounds cannot be misread. A negative bound is refused before the
  native call, the minimum first; every other pair reaches it as two numbers that read back,
  with -1 for unset, as exactly the caller's bounds. The connection's own bounds are passed
  without that check, so there a caller's -1 is the same call as no bound.\<close>
theorem send_bitrate_unambiguous:
  "set_send_bitrate native min_bps max_bps =
     (if \<exists>v. min_bps = Some v \<and> v < 0
      then Inl (Webrtc (Fmt (''{label} must be >= 0; pass None to leave it at the libwebrtc default '' @ ''(got {v})'')
                  [AStr ''min_bps'', AInt (the min_bps)]))
      else if \<exists>v. max_bps = Some v \<and> v < 0
      then Inl (Webrtc (Fmt (''{label} must be >= 0; pass None to leave it at the libwebrtc default '' @ ''(got {v})'')
                  [AStr ''max_bps'', AInt (the max_bps)]))
      else native_rc ''transceiver set_send_bitrate failed'' (native (or_minus_one min_bps) (or_minus_one max_bps)))
   \<and> (read_bound (or_minus_one x) = x \<longleftrightarrow> x \<noteq> Some (- 1))
   \<and> set_bitrate pc_native (Some (- 1)) start_bps max_bps = set_bitrate pc_native None start_bps max_bps"
  by (cases min_bps; cases max_bps; cases x)
     (auto simp: set_send_bitrate_def negative_bound_def List.map_filter_simps or_minus_one_def read_bound_def
      set_bitrate_def Let_def)

section \<open>Creation and drop\<close>

text \<open>Creating a connection. An unusable configuration or a native refusal is an error that
  changes nothing. Otherwise the connection takes part in chunking exactly when its factory has
  settings and its configuration does not opt out, in frame metadata exactly when both allow it;
  its gate is closed, nothing is negotiated, and its data channels are plain until something is.\<close>
theorem connection_takes_part:
  "case create_peer_connection create f config obs gate w of
     (Inl e, w') \<Rightarrow> w' = w \<and>
       (case to_native config of
          Inl e' \<Rightarrow> e = e'
        | Inr native \<Rightarrow> (\<exists>reason. create (pf_handle f) native (observer_callbacks obs) = Inl reason))
   | (Inr pc, w') \<Rightarrow>
       pc_dc_chunking pc = (if rc_dc_chunking config then pf_dc_chunking f else None) \<and>
       (pc_frame_metadata_enabled pc \<longleftrightarrow> rc_frame_metadata config \<and> pf_metadata_enabled f) \<and>
       \<not> frame_metadata_gate pc w' \<and> \<not> dc_chunking_negotiated pc \<and>
       w' = w\<lparr>cw_gates := (cw_gates w)(gate := False)\<rparr> \<and>
       (case create_data_channel native_ok pc label of
          Inl e \<Rightarrow> \<not> (NUL \<notin> set label \<and> native_ok label)
        | Inr ch \<Rightarrow> dc_on_network_thread ch = pf_dc_callbacks_on_network_thread f \<and>
                   decide_chunking (the (dc_negotiation ch)) ordered reliable early = None)"
  by (cases "to_native config"; cases "create (pf_handle f) (projr (to_native config)) (observer_callbacks obs)")
     (auto simp: create_peer_connection_def pc_new_def pc_dc_chunking_def dc_chunking_negotiated_def
      frame_metadata_gate_def gate_new_def ng_new_def ng_remote_def ns_default_def create_data_channel_def cstring_def
      with_dc_negotiation_def dc_new_def decide_chunking_def Let_def split: option.split)

lemma forget_at:
  "forget_transceiver m p t k = (if fst k = p \<and> fst (snd k) = t \<and> t \<noteq> 0 then None else m k)"
proof -
  obtain q u s where "k = (q, u, s)" by (cases k)
  then show ?thesis by (cases s) (auto simp: forget_transceiver_def)
qed

lemma forget_all:
  "fold (\<lambda>tc m. forget_transceiver m p (transceiver_id tc)) tcs m k =
     (if fst k = p \<and> (\<exists>tc \<in> set tcs. transceiver_id tc = fst (snd k) \<and> fst (snd k) \<noteq> 0) then None else m k)"
  by (induction tcs arbitrary: m) (auto simp: forget_at)

text \<open>Dropping a connection releases its slots. Both slots of every transceiver libwebrtc still
  enumerates are gone, so a recycled address inherits nothing from them; the slots of other
  connections, and of a transceiver of this one that is no longer enumerated, stay.\<close>
theorem drop_releases_enumerated_slots:
  "cw_slots (pc_drop natives pc w) (p, t, side) =
     (if p = pc_raw pc \<and> t \<noteq> 0 \<and> (\<exists>nt. Some nt \<in> set natives \<and> nt_id nt = t) then None
      else cw_slots w (p, t, side))"
proof -
  have "(\<exists>tc \<in> set (transceivers pc natives). transceiver_id tc = t) \<longleftrightarrow> (\<exists>nt. Some nt \<in> set natives \<and> nt_id nt = t)"
    by (force simp: transceivers_def List.map_filter_def transceiver_id_def tc_from_raw_def)
  then show ?thesis by (auto simp: pc_drop_def forget_all)
qed

end
