(* ===== verification/Peer_Install.thy ===== *)
theory Peer_Install
  imports Peer_Connection_Props Sender_Slots
begin

text \<open>
  The metadata install of a connection on the slots of its transceivers (\<open>peer_connection.rs\<close> over
  \<open>sender_meta.rs\<close>): which slots it wires and to what, what replacing a track does to them,
  and that each side of a transceiver runs at most one native transformer.
\<close>

section \<open>One wiring\<close>

definition slot_or :: "slot_map \<Rightarrow> slot_key \<Rightarrow> composed_slot" where
  "slot_or m k = (case m k of None \<Rightarrow> slot_default | Some s \<Rightarrow> s)"

definition installed :: "slot_map \<Rightarrow> slot_key \<Rightarrow> bool" where
  "installed m k = sl_installed (slot_or m k)"

definition tc_key :: "transceiver \<Rightarrow> side_of \<Rightarrow> slot_key" where
  "tc_key tc side = (tc_pc_id tc, transceiver_id tc, side)"

text \<open>The world after a slot was given a part: the slot is installed if it was or if libwebrtc
  accepted its transformer, which is logged only when it is new.\<close>

definition wired :: "attach_answers \<Rightarrow> transceiver \<Rightarrow> side_of \<Rightarrow> (composed_slot \<Rightarrow> composed_slot) \<Rightarrow> conn_world \<Rightarrow> conn_world" where
  "wired attach tc side edit w =
     (if transceiver_id tc = 0 then w
      else (let k = tc_key tc side; was = installed (cw_slots w) k; ok = (attach (transceiver_id tc) side = 1) in
            w\<lparr>cw_slots := (cw_slots w)(k := Some ((edit (slot_or (cw_slots w) k))\<lparr>sl_installed := was \<or> ok\<rparr>)),
              cw_native := cw_native w @ (if \<not> was \<and> ok then [k] else [])\<rparr>))"

lemma claims:
  "attach_embed m p t source g =
     (if t = 0 then (False, m)
      else (\<not> installed m (p, t, SendSide),
            m((p, t, SendSide) := Some ((set_meta (slot_or m (p, t, SendSide)) (Embed source g))\<lparr>sl_installed := True\<rparr>))))"
  "attach_strip m p t queue =
     (if t = 0 then (False, m)
      else (\<not> installed m (p, t, ReceiveSide),
            m((p, t, ReceiveSide) := Some ((set_meta (slot_or m (p, t, ReceiveSide)) (Strip queue []))\<lparr>sl_installed := True\<rparr>))))"
  "attach_caller m p t side cb =
     (if t = 0 then (False, m)
      else (\<not> installed m (p, t, side),
            m((p, t, side) := Some ((set_caller (slot_or m (p, t, side)) cb)\<lparr>sl_installed := True\<rparr>))))"
  using attach_run_step [of m "AEmbed p t source g"] attach_run_step [of m "AStrip p t queue"]
    attach_run_step [of m "ACaller p t side cb"]
  by (simp_all add: installed_def slot_or_def slot_default_def split: option.splits)

lemma release_set:
  "t \<noteq> 0 \<Longrightarrow> release_install (m((p, t, side) := Some s)) p t side = m((p, t, side) := Some (s\<lparr>sl_installed := False\<rparr>))"
  by (simp add: release_install_def slot_for_def update_slot_def)

lemma wire_slot_wired:
  "wire_slot attach tc SendSide (attach_embed (cw_slots w) (tc_pc_id tc) (transceiver_id tc) source g) w
     = wired attach tc SendSide (\<lambda>s. set_meta s (Embed source g)) w"
  "wire_slot attach tc ReceiveSide (attach_strip (cw_slots w) (tc_pc_id tc) (transceiver_id tc) queue) w
     = wired attach tc ReceiveSide (\<lambda>s. set_meta s (Strip queue [])) w"
  by (cases w; auto simp: wire_slot_def claims attach_native_transform_def wired_def tc_key_def release_set Let_def)+

definition live_source :: "(nat \<Rightarrow> bool) \<Rightarrow> conn_world \<Rightarrow> nat \<Rightarrow> nat option" where
  "live_source alive w i = fst (lookup alive (rg_send (cw_rg w)) i)"

definition live_queue :: "(nat \<Rightarrow> bool) \<Rightarrow> conn_world \<Rightarrow> nat \<Rightarrow> nat option" where
  "live_queue alive w i = fst (lookup_receiver alive (rg_recv (cw_rg w)) i)"

lemma sender_lookup_world:
  "sender_lookup alive tc w =
     (live_source alive w (sender_track_id tc),
      w\<lparr>cw_rg := (cw_rg w)\<lparr>rg_send := snd (lookup alive (rg_send (cw_rg w)) (sender_track_id tc))\<rparr>\<rparr>)"
  "receiver_lookup alive tc w =
     (live_queue alive w (receiver_track_id tc),
      w\<lparr>cw_rg := (cw_rg w)\<lparr>rg_recv := snd (lookup_receiver alive (rg_recv (cw_rg w)) (receiver_track_id tc))\<rparr>\<rparr>)"
  by (simp_all add: sender_lookup_def receiver_lookup_def live_source_def live_queue_def case_prod_beta)

text \<open>A lookup clears dead entries only.\<close>

lemma lookup_again:
  "fst (lookup alive (snd (lookup alive m i)) j) = fst (lookup alive m j)"
  "fst (lookup_receiver alive (snd (lookup_receiver alive m i)) j) = fst (lookup_receiver alive m j)"
  by (auto simp: lookup_def lookup_receiver_def split: option.splits if_splits)

lemma wire_wired:
  "wire_embed alive attach tc w =
     (let w1 = snd (sender_lookup alive tc w) in
      case live_source alive w (sender_track_id tc) of
        None \<Rightarrow> w1
      | Some source \<Rightarrow> wired attach tc SendSide (\<lambda>s. set_meta s (Embed source (tc_gate tc))) w1)"
  "wire_strip alive attach tc w =
     (let w1 = snd (receiver_lookup alive tc w) in
      case live_queue alive w (receiver_track_id tc) of
        None \<Rightarrow> w1
      | Some queue \<Rightarrow> wired attach tc ReceiveSide (\<lambda>s. set_meta s (Strip queue [])) w1)"
  unfolding wire_embed_def wire_strip_def
  by (simp_all only: sender_lookup_world prod.case snd_conv Let_def wire_slot_wired split: option.split)

lemma caller_wired:
  "attach_caller_transform attach tc side cb w =
     (if transceiver_id tc = 0
      then Inl (Webrtc (Text ''transceiver has no native identity to attach a transform to''))
      else if installed (cw_slots w) (tc_key tc side) \<or> attach (transceiver_id tc) side = 1 then Inr ()
      else Inl (Webrtc (Fmt ''transceiver set_{}_transform failed'' [AStr (side_name side)])),
      wired attach tc side (\<lambda>s. set_caller s cb) w)"
  by (cases w)
     (auto simp: attach_caller_transform_def claims attach_native_transform_def wired_def tc_key_def release_set Let_def)

section \<open>One transformer per side\<close>

text \<open>The operations of the public interface that attach something, on any connections and
  transceivers, each with libwebrtc's answers to it.\<close>

datatype api_op =
    SetTransform attach_answers transceiver side_of encoded_cb
  | SetTrack "nat \<Rightarrow> bool" attach_answers int transceiver
  | AddTrack "nat \<Rightarrow> bool" attach_answers int "native_transceiver option list" peer_connection
  | SetLocal "nat \<Rightarrow> bool" attach_answers "native_transceiver option list" complete_answer peer_connection session_description
  | SetRemote "nat \<Rightarrow> bool" attach_answers "native_transceiver option list" complete_answer peer_connection session_description
  | DropPc "native_transceiver option list" peer_connection

fun api_step :: "api_op \<Rightarrow> conn_world \<Rightarrow> conn_world" where
  "api_step (SetTransform attach tc side cb) w = snd (attach_caller_transform attach tc side cb w)"
| "api_step (SetTrack alive attach ok tc) w = snd (set_track alive attach ok tc w)"
| "api_step (AddTrack alive attach ok natives pc) w = snd (add_track alive attach ok natives pc w)"
| "api_step (SetLocal alive attach natives answer pc sdp) w =
     snd (snd (set_local_description alive attach natives answer pc sdp w))"
| "api_step (SetRemote alive attach natives answer pc sdp) w =
     snd (snd (set_remote_description alive attach natives answer pc sdp w))"
| "api_step (DropPc natives pc) w = pc_drop natives pc w"

text \<open>The transceiver of a slot lives through an operation: its connection still enumerates it,
  and is not the one dropped.\<close>

definition enumerates :: "native_transceiver option list \<Rightarrow> peer_connection \<Rightarrow> slot_key \<Rightarrow> bool" where
  "enumerates natives pc k =
     (fst k \<noteq> pc_raw pc \<or> list_ex (\<lambda>tc. transceiver_id tc = fst (snd k)) (transceivers pc natives))"

fun lives_through :: "slot_key \<Rightarrow> api_op \<Rightarrow> bool" where
  "lives_through k (AddTrack alive attach ok natives pc) = enumerates natives pc k"
| "lives_through k (SetLocal alive attach natives answer pc sdp) = enumerates natives pc k"
| "lives_through k (SetRemote alive attach natives answer pc sdp) = enumerates natives pc k"
| "lives_through k (DropPc natives pc) = (fst k \<noteq> pc_raw pc)"
| "lives_through k _ = True"

definition one_native :: "slot_key \<Rightarrow> conn_world \<Rightarrow> bool" where
  "one_native k w = (count_list (cw_native w) k = (if installed (cw_slots w) k then 1 else 0))"

lemma one_native_wired: "one_native k w \<Longrightarrow> one_native k (wired attach tc side edit w)"
  by (auto simp: one_native_def wired_def installed_def slot_or_def Let_def split: option.splits)

lemma one_native_cong:
  "cw_native w' = cw_native w \<Longrightarrow> installed (cw_slots w') k = installed (cw_slots w) k \<Longrightarrow>
     one_native k w' = one_native k w"
  by (simp add: one_native_def)

lemma one_native_wire:
  assumes "one_native k w"
  shows "one_native k (wire_embed alive attach tc w)" "one_native k (wire_strip alive attach tc w)"
proof -
  have "one_native k (snd (sender_lookup alive tc w))" "one_native k (snd (receiver_lookup alive tc w))"
    using assms by (simp_all add: sender_lookup_world one_native_def)
  then show "one_native k (wire_embed alive attach tc w)" "one_native k (wire_strip alive attach tc w)"
    by (simp_all add: wire_wired Let_def one_native_wired split: option.split)
qed

lemma one_native_install:
  assumes "one_native k w" "enumerates natives pc k"
  shows "one_native k (install_frame_metadata_transforms alive attach pc natives w)"
proof -
  have "one_native k w \<Longrightarrow> one_native k (fold (install_transceiver alive attach) tcs w)" for tcs w
    by (induction tcs arbitrary: w) (simp_all add: install_transceiver_def one_native_wire)
  moreover have "installed (prune_stale_slots (cw_slots w) (pc_raw pc) (map transceiver_id (transceivers pc natives))) k
      = installed (cw_slots w) k"
    using assms(2) by (auto simp: installed_def slot_or_def prune_stale_slots_def enumerates_def list_ex_iff split: prod.split)
  ultimately show ?thesis
    using assms(1) by (simp add: install_frame_metadata_transforms_def Let_def one_native_def)
qed

lemma installed_update_embed [simp]: "installed (update_embed_source m p t source) k = installed m k"
  by (auto simp: update_embed_source_def slot_for_def update_slot_def installed_def slot_or_def slot_default_def
      split: option.splits meta_step.splits)

lemma one_native_set_track:
  assumes "one_native k w"
  shows "one_native k (snd (set_track alive attach ok tc w))"
proof -
  have "one_native k (w1\<lparr>cw_slots := update_embed_source (cw_slots w1) p t s\<rparr>) = one_native k w1" for w1 p t s
    by (rule one_native_cong) simp_all
  moreover have "one_native k (snd (sender_lookup alive tc w))"
    using assms by (simp add: sender_lookup_world one_native_def)
  ultimately show ?thesis
    using assms by (auto simp: set_track_def case_prod_beta Let_def one_native_wire split: option.split)
qed

lemma one_native_step:
  assumes "one_native k w" "lives_through k op"
  shows "one_native k (api_step op w)"
proof (cases op)
  case (SetTransform attach tc side cb)
  then show ?thesis using assms by (simp add: caller_wired one_native_wired)
next
  case (SetTrack alive attach ok tc)
  then show ?thesis using assms by (simp add: one_native_set_track)
next
  case (AddTrack alive attach ok natives pc)
  then show ?thesis using assms by (simp add: add_track_def one_native_install)
next
  case (SetLocal alive attach natives answer pc sdp)
  have "one_native k (w\<lparr>cw_locks := l\<rparr>) = one_native k w" for w l by (simp add: one_native_def)
  with SetLocal assms show ?thesis
    by (auto simp: set_local_description_def lock_world one_native_install split: prod.split sum.split)
next
  case (SetRemote alive attach natives answer pc sdp)
  have "one_native k (w\<lparr>cw_locks := l\<rparr>) = one_native k w" "one_native k (w\<lparr>cw_gates := g\<rparr>) = one_native k w" for w l g
    by (simp_all add: one_native_def)
  with SetRemote assms show ?thesis
    by (auto simp: set_remote_description_def lock_world one_native_install Let_def split: prod.split sum.split)
next
  case (DropPc natives pc)
  then show ?thesis using assms by (simp add: pc_drop_def one_native_def installed_def slot_or_def forget_all)
qed

text \<open>C5: A side of a transceiver runs at most one native transformer. For a transceiver that no
  operation finds gone, from its first operation on and through any sequence of transforms set,
  tracks replaced, tracks added and descriptions applied, on any connections and with
  libwebrtc declining attachments at will, one transformer was accepted for the side exactly
  when its slot says so, and none otherwise: no second transformer replaces the first, and a declined
  one leaves the slot free for a retry.\<close>
theorem one_transformer_per_side:
  assumes "cw_slots w k = None" "k \<notin> set (cw_native w)"
    and "list_all (lives_through k) ops"
  shows "count_list (cw_native (fold api_step ops w)) k =
    (case cw_slots (fold api_step ops w) k of None \<Rightarrow> 0 | Some s \<Rightarrow> if sl_installed s then 1 else 0)"
proof -
  have "one_native k w \<Longrightarrow> list_all (lives_through k) ops \<Longrightarrow> one_native k (fold api_step ops w)" for w
    by (induction ops arbitrary: w) (simp_all add: one_native_step)
  moreover have "one_native k w"
    using assms(1,2) by (simp add: one_native_def installed_def slot_or_def slot_default_def count_list_0_iff)
  ultimately have "one_native k (fold api_step ops w)" using assms(3) by blast
  then show ?thesis by (auto simp: one_native_def installed_def slot_or_def slot_default_def split: option.splits)
qed

lemma one_transformer_per_side_witness:
  "let tc = tc_from_raw \<lparr>nt_id = 7, nt_media_kind = 1, nt_sender_track = 0, nt_receiver_track = 0\<rparr> 3 0;
       ops = [SetTransform (\<lambda>_ _. 0) tc SendSide (\<lambda>f. (Forward, f)), SetTransform (\<lambda>_ _. 1) tc SendSide (\<lambda>f. (Forward, f)),
              SetTransform (\<lambda>_ _. 1) tc SendSide (\<lambda>f. (Forward, f))]
   in count_list (cw_native (fold api_step ops empty_world)) (3, 7, SendSide) = 1"
proof -
  let ?tc = "tc_from_raw \<lparr>nt_id = 7, nt_media_kind = 1, nt_sender_track = 0, nt_receiver_track = 0\<rparr> 3 0"
  have key: "tc_key ?tc SendSide = (3, 7, SendSide)" "transceiver_id ?tc = 7"
    by (simp_all add: tc_key_def tc_from_raw_def transceiver_id_def)
  show ?thesis
    using one_transformer_per_side [of empty_world "(3, 7, SendSide)"
        "[SetTransform (\<lambda>_ _. 0) ?tc SendSide (\<lambda>f. (Forward, f)), SetTransform (\<lambda>_ _. 1) ?tc SendSide (\<lambda>f. (Forward, f)),
          SetTransform (\<lambda>_ _. 1) ?tc SendSide (\<lambda>f. (Forward, f))]"]
    by (simp add: empty_world_def caller_wired wired_def key installed_def slot_or_def slot_default_def Let_def)
qed

section \<open>What an install wires\<close>

lemma wired_slot:
  "cw_slots (wired attach tc side edit w) k =
     (if k = tc_key tc side \<and> transceiver_id tc \<noteq> 0
      then Some ((edit (slot_or (cw_slots w) k))\<lparr>sl_installed := installed (cw_slots w) k \<or> attach (transceiver_id tc) side = 1\<rparr>)
      else cw_slots w k)"
  "cw_rg (wired attach tc side edit w) = cw_rg w"
  by (simp_all add: wired_def Let_def)

text \<open>Wiring looks the same entries up in every later state.\<close>

lemma wire_keeps_lookups:
  "live_source alive (wire_embed alive' attach tc w) i = fst (lookup alive (rg_send (cw_rg (snd (sender_lookup alive' tc w)))) i)"
  "live_source alive (wire_strip alive' attach tc w) i = live_source alive w i"
  "live_queue alive (wire_embed alive' attach tc w) i = live_queue alive w i"
  "live_queue alive (wire_strip alive' attach tc w) i = fst (lookup_receiver alive (rg_recv (cw_rg (snd (receiver_lookup alive' tc w)))) i)"
  "rg_allowed (cw_rg (wire_embed alive' attach tc w)) = rg_allowed (cw_rg w)"
  "rg_allowed (cw_rg (wire_strip alive' attach tc w)) = rg_allowed (cw_rg w)"
  by (simp_all add: wire_wired live_source_def live_queue_def sender_lookup_world wired_slot Let_def split: option.split)

lemma install_keeps_lookups:
  "live_source alive (install_transceiver alive attach tc w) i = live_source alive w i"
  "live_queue alive (install_transceiver alive attach tc w) i = live_queue alive w i"
  "rg_allowed (cw_rg (install_transceiver alive attach tc w)) = rg_allowed (cw_rg w)"
  by (simp_all add: install_transceiver_def wire_keeps_lookups sender_lookup_world lookup_again
        live_source_def [symmetric] live_queue_def [symmetric])

text \<open>The slot an install leaves on one side of an enumerated transceiver, and its metadata step.\<close>

definition step_for :: "(nat \<Rightarrow> bool) \<Rightarrow> transceiver \<Rightarrow> conn_world \<Rightarrow> side_of \<Rightarrow> meta_step option" where
  "step_for alive tc w side =
     (if tc_kind tc \<noteq> Video \<or> transceiver_id tc = 0 then None
      else case side of
             SendSide \<Rightarrow>
               if allowed (rg_allowed (cw_rg w)) (sender_track_id tc)
               then map_option (\<lambda>source. Embed source (tc_gate tc)) (live_source alive w (sender_track_id tc)) else None
           | ReceiveSide \<Rightarrow> map_option (\<lambda>queue. Strip queue []) (live_queue alive w (receiver_track_id tc)))"

definition wired_slot_of :: "(nat \<Rightarrow> bool) \<Rightarrow> attach_answers \<Rightarrow> transceiver \<Rightarrow> conn_world \<Rightarrow> side_of \<Rightarrow> composed_slot option" where
  "wired_slot_of alive attach tc w side =
     (case step_for alive tc w side of
        None \<Rightarrow> cw_slots w (tc_key tc side)
      | Some step \<Rightarrow>
          Some ((slot_or (cw_slots w) (tc_key tc side))
                  \<lparr>sl_meta := Some step,
                   sl_installed := installed (cw_slots w) (tc_key tc side) \<or> attach (transceiver_id tc) side = 1\<rparr>))"

lemma install_slot:
  "cw_slots (install_transceiver alive attach tc w) k =
     (if k = tc_key tc (snd (snd k)) then wired_slot_of alive attach tc w (snd (snd k)) else cw_slots w k)"
proof -
  have own: "k = tc_key tc side \<Longrightarrow> side = snd (snd k)" for side by (auto simp: tc_key_def)
  have send: "cw_slots (wire_embed alive attach tc w) k' =
      (if k' = tc_key tc SendSide \<and> transceiver_id tc \<noteq> 0 \<and> live_source alive w (sender_track_id tc) \<noteq> None
       then Some ((slot_or (cw_slots w) k')\<lparr>sl_meta := Some (Embed (the (live_source alive w (sender_track_id tc))) (tc_gate tc)),
              sl_installed := installed (cw_slots w) k' \<or> attach (transceiver_id tc) SendSide = 1\<rparr>)
       else cw_slots w k')" for k' w
    by (auto simp: wire_wired wired_slot sender_lookup_world set_meta_def Let_def split: option.split)
  have recv: "cw_slots (wire_strip alive attach tc w) k' =
      (if k' = tc_key tc ReceiveSide \<and> transceiver_id tc \<noteq> 0 \<and> live_queue alive w (receiver_track_id tc) \<noteq> None
       then Some ((slot_or (cw_slots w) k')\<lparr>sl_meta := Some (Strip (the (live_queue alive w (receiver_track_id tc))) []),
              sl_installed := installed (cw_slots w) k' \<or> attach (transceiver_id tc) ReceiveSide = 1\<rparr>)
       else cw_slots w k')" for k' w
    by (auto simp: wire_wired wired_slot sender_lookup_world set_meta_def Let_def split: option.split)
  have other: "tc_key tc SendSide \<noteq> tc_key tc ReceiveSide" by (simp add: tc_key_def)
  obtain p t side where k: "k = (p, t, side)" by (cases k)
  show ?thesis
    using other
    by (cases side)
       (auto simp: k install_transceiver_def wired_slot_of_def step_for_def send recv wire_keeps_lookups slot_or_def installed_def
        tc_key_def split: option.split)
qed

lemma install_all_slots:
  assumes "distinct (map transceiver_id tcs)" "\<forall>tc \<in> set tcs. tc_pc_id tc = p"
  shows "cw_slots (fold (install_transceiver alive attach) tcs w) (q, t, side) =
     (case find (\<lambda>tc. q = p \<and> transceiver_id tc = t) tcs of
        None \<Rightarrow> cw_slots w (q, t, side)
      | Some tc \<Rightarrow> wired_slot_of alive attach tc w side)"
  using assms
proof (induction tcs arbitrary: w)
  case (Cons tc tcs)
  let ?w = "install_transceiver alive attach tc w"
  have rest: "find (\<lambda>tc'. q = p \<and> transceiver_id tc' = transceiver_id tc) tcs = None"
    using Cons.prems(1) by (auto simp: find_None_iff image_iff)
  have same: "wired_slot_of alive attach tc' ?w side = wired_slot_of alive attach tc' w side"
    if "transceiver_id tc' \<noteq> transceiver_id tc" for tc'
    using that
    by (auto simp: wired_slot_of_def step_for_def install_keeps_lookups install_slot tc_key_def slot_or_def installed_def
        split: option.split side_of.split)
  have ih: "cw_slots (fold (install_transceiver alive attach) tcs ?w) (q, t, side) =
     (case find (\<lambda>tc. q = p \<and> transceiver_id tc = t) tcs of
        None \<Rightarrow> cw_slots ?w (q, t, side)
      | Some tc \<Rightarrow> wired_slot_of alive attach tc ?w side)"
    by (rule Cons.IH) (use Cons.prems in simp_all)
  show ?case
  proof (cases "q = p \<and> transceiver_id tc = t")
    case True
    then have "find (\<lambda>tc. q = p \<and> transceiver_id tc = t) tcs = None" "(q, t, side) = tc_key tc side"
      using rest Cons.prems(2) by (auto simp: tc_key_def)
    moreover have "snd (snd (tc_key tc side)) = side" by (simp add: tc_key_def)
    ultimately show ?thesis using True ih by (simp add: install_slot)
  next
    case False
    then have skip: "find (\<lambda>tc. q = p \<and> transceiver_id tc = t) (tc # tcs) = find (\<lambda>tc. q = p \<and> transceiver_id tc = t) tcs"
      by auto
    from False have none: "(q, t, side) \<noteq> tc_key tc side" using Cons.prems(2) by (auto simp: tc_key_def)
    show ?thesis
    proof (cases "find (\<lambda>tc. q = p \<and> transceiver_id tc = t) tcs")
      case None
      with none ih show ?thesis unfolding skip by (simp add: install_slot)
    next
      case (Some tc')
      then have "q = p \<and> transceiver_id tc' = t" by (auto simp: find_Some_iff)
      with False have "transceiver_id tc' \<noteq> transceiver_id tc" by auto
      with Some ih same show ?thesis unfolding skip by simp
    qed
  qed
qed simp

text \<open>C8: An install wires every track that can carry metadata. With the gate open, each side of
  each enumerated video transceiver whose track is registered and alive, and on the sending
  side not forbidden metadata, holds the step for that very track, in place of any older step and
  beside the caller's transform, and is installed if it was or if libwebrtc takes its transformer now.
  Every other enumerated transceiver keeps its slots, the slots of transceivers that are gone
  are pruned, and no other connection is touched. With the gate closed nothing changes.\<close>
theorem install_wires_every_live_track:
  assumes "distinct (map nt_id (List.map_filter (\<lambda>x. x) natives))"
  shows "cw_slots (install_frame_metadata_transforms alive attach pc natives w) (q, t, side) =
     (if q \<noteq> pc_raw pc \<or> \<not> frame_metadata_gate pc w then cw_slots w (q, t, side)
      else case find (\<lambda>tc. transceiver_id tc = t) (transceivers pc natives) of
             None \<Rightarrow> None
           | Some tc \<Rightarrow>
               (case step_for alive tc w side of
                  None \<Rightarrow> cw_slots w (q, t, side)
                | Some step \<Rightarrow>
                    Some ((slot_or (cw_slots w) (q, t, side))
                            \<lparr>sl_meta := Some step,
                             sl_installed := installed (cw_slots w) (q, t, side) \<or> attach t side = 1\<rparr>)))"
proof (cases "frame_metadata_gate pc w")
  case True
  let ?tcs = "transceivers pc natives"
  let ?pruned = "w\<lparr>cw_slots := prune_stale_slots (cw_slots w) (pc_raw pc) (map transceiver_id ?tcs)\<rparr>"
  have tcs: "?tcs = map (\<lambda>raw. tc_from_raw raw (pc_raw pc) (pc_gate pc)) (List.map_filter (\<lambda>x. x) natives)"
    unfolding transceivers_def by (induction natives) (simp_all add: List.map_filter_simps split: option.split)
  have ids: "distinct (map transceiver_id ?tcs)" "\<forall>tc \<in> set ?tcs. tc_pc_id tc = pc_raw pc"
    using assms by (simp_all add: tcs transceiver_id_def tc_from_raw_def comp_def)
  have run: "cw_slots (install_frame_metadata_transforms alive attach pc natives w) (q, t, side) =
      (case find (\<lambda>tc. q = pc_raw pc \<and> transceiver_id tc = t) ?tcs of
         None \<Rightarrow> cw_slots ?pruned (q, t, side)
       | Some tc \<Rightarrow> wired_slot_of alive attach tc ?pruned side)"
    using True install_all_slots [OF ids, of alive attach ?pruned q t side]
    by (simp add: install_frame_metadata_transforms_def frame_metadata_gate_def gate_is_open_def Let_def)
  show ?thesis
  proof (cases "find (\<lambda>tc. q = pc_raw pc \<and> transceiver_id tc = t) ?tcs")
    case None
    show ?thesis
    proof (cases "q = pc_raw pc")
      case own: True
      with None have "find (\<lambda>tc. transceiver_id tc = t) ?tcs = None" "t \<notin> transceiver_id ` set ?tcs"
        by (auto simp: find_None_iff)
      then show ?thesis unfolding run None using True own by (simp add: prune_stale_slots_def)
    next
      case False
      then show ?thesis unfolding run None by (simp add: prune_stale_slots_def)
    qed
  next
    case (Some tc)
    then have tc: "tc \<in> set ?tcs" "q = pc_raw pc" "transceiver_id tc = t" "tc_pc_id tc = q"
      using ids(2) by (auto simp: find_Some_iff)
    then have "t \<in> transceiver_id ` set ?tcs" by auto
    then have kept: "cw_slots ?pruned (q, t, side) = cw_slots w (q, t, side)"
      by (simp add: prune_stale_slots_def)
    have "step_for alive tc ?pruned side = step_for alive tc w side"
      by (simp add: step_for_def live_source_def live_queue_def split: side_of.split)
    moreover have "find (\<lambda>tc. transceiver_id tc = t) ?tcs = Some tc" using Some tc(2) by simp
    ultimately show ?thesis
      unfolding run Some using True tc kept
      by (simp add: wired_slot_of_def tc_key_def slot_or_def installed_def split: option.split)
  qed
next
  case False
  then show ?thesis by (simp add: install_frame_metadata_transforms_def frame_metadata_gate_def gate_is_open_def)
qed

lemma install_wires_every_live_track_witness:
  "let nt = \<lparr>nt_id = 7, nt_media_kind = 1, nt_sender_track = 5, nt_receiver_track = 0\<rparr>;
       w = empty_world\<lparr>cw_gates := (\<lambda>_. True), cw_rg := (cw_rg empty_world)\<lparr>rg_send := [5 \<mapsto> 40]\<rparr>\<rparr>
   in cw_slots (install_frame_metadata_transforms (\<lambda>_. True) (\<lambda>_ _. 1) (plain_connection 3 True) [Some nt] w) (3, 7, SendSide)
      = Some \<lparr>sl_caller = None, sl_meta = Some (Embed 40 3), sl_installed = True\<rparr>"
  using install_wires_every_live_track [of "[Some \<lparr>nt_id = 7, nt_media_kind = 1, nt_sender_track = 5, nt_receiver_track = 0\<rparr>]"
      "\<lambda>_. True" "\<lambda>_ _. 1" "plain_connection 3 True"
      "empty_world\<lparr>cw_gates := (\<lambda>_. True), cw_rg := (cw_rg empty_world)\<lparr>rg_send := [5 \<mapsto> 40]\<rparr>\<rparr>" 3 7 SendSide]
  by (simp add: List.map_filter_simps plain_connection_def frame_metadata_gate_def transceivers_def tc_from_raw_def
      transceiver_id_def step_for_def tc_kind_def media_kind_from_raw_def allowed_def empty_world_def sender_track_id_def
      live_source_def lookup_def slot_or_def slot_default_def installed_def)

section \<open>Replacing a track\<close>

text \<open>C17: A replaced track brings its own metadata. When libwebrtc takes the new track and it is
  registered and alive, a slot that embeds from the old track embeds from the new one at once. With the
  gate open and the new track allowed metadata the slot is wired even if it was not; otherwise
  a slot that is not installed or does not embed keeps what it held. A track libwebrtc refuses, and
  every slot of another transceiver or of the receiving side, changes nothing.\<close>
theorem replaced_track_brings_its_metadata:
  "case set_track alive attach ok tc w of
     (r, w') \<Rightarrow>
       (r = Inr () \<longleftrightarrow> ok = 1) \<and>
       cw_slots w' k =
         (if ok = 1 \<and> k = tc_key tc SendSide \<and> transceiver_id tc \<noteq> 0
          then case live_source alive w (sender_track_id tc) of
                 None \<Rightarrow> cw_slots w k
               | Some source \<Rightarrow>
                   (let old = slot_or (cw_slots w) k in
                    if cw_gates w (tc_gate tc) \<and> allowed (rg_allowed (cw_rg w)) (sender_track_id tc)
                    then Some (old\<lparr>sl_meta := Some (Embed source (tc_gate tc)),
                                   sl_installed := sl_installed old \<or> attach (transceiver_id tc) SendSide = 1\<rparr>)
                    else case sl_meta old of
                           Some (Embed _ gate) \<Rightarrow>
                             if sl_installed old then Some (old\<lparr>sl_meta := Some (Embed source gate)\<rparr>) else Some old
                         | _ \<Rightarrow> Some old)
          else cw_slots w k)"
proof (cases "ok = 1")
  case True
  let ?src = "live_source alive w (sender_track_id tc)"
  let ?w1 = "snd (sender_lookup alive tc w)"
  have again: "live_source alive ?w1 (sender_track_id tc) = ?src"
    by (simp add: sender_lookup_world live_source_def lookup_again)
  have update: "update_embed_source m (tc_pc_id tc) (transceiver_id tc) s k =
      (if k = tc_key tc SendSide \<and> transceiver_id tc \<noteq> 0
       then Some (let old = slot_or m k in
                  case sl_meta old of
                    Some (Embed _ gate) \<Rightarrow> if sl_installed old then old\<lparr>sl_meta := Some (Embed s gate)\<rparr> else old
                  | _ \<Rightarrow> old)
       else m k)" for m s k
    by (auto simp: update_embed_source_def slot_for_def update_slot_def tc_key_def slot_or_def slot_default_def Let_def
        split: option.split meta_step.split)
  show ?thesis
  proof (cases ?src)
    case None
    then show ?thesis
      using True
      by (auto simp: set_track_def sender_lookup_world wire_wired again [unfolded sender_lookup_world snd_conv] Let_def)
  next
    case (Some source)
    define w2 where "w2 = ?w1\<lparr>cw_slots := update_embed_source (cw_slots w) (tc_pc_id tc) (transceiver_id tc) source\<rparr>"
    have slots: "cw_slots w2 = update_embed_source (cw_slots w) (tc_pc_id tc) (transceiver_id tc) source"
      by (simp add: w2_def)
    have again2: "live_source alive w2 (sender_track_id tc) = Some source"
      using again Some by (simp add: live_source_def w2_def)
    have run: "set_track alive attach ok tc w =
        (Inr (), if cw_gates w (tc_gate tc) \<and> allowed (rg_allowed (cw_rg w)) (sender_track_id tc)
                 then wire_embed alive attach tc w2 else w2)"
      using True Some by (simp add: set_track_def sender_lookup_world gate_is_open_def w2_def Let_def)
    have wired: "cw_slots (wire_embed alive attach tc w2) k =
        (if k = tc_key tc SendSide \<and> transceiver_id tc \<noteq> 0
         then Some ((slot_or (cw_slots w2) k)\<lparr>sl_meta := Some (Embed source (tc_gate tc)),
              sl_installed := installed (cw_slots w2) k \<or> attach (transceiver_id tc) SendSide = 1\<rparr>)
         else cw_slots w2 k)"
      unfolding wire_wired again2 by (simp add: wired_slot sender_lookup_world set_meta_def Let_def)
    have new: "slot_or (update_embed_source m (tc_pc_id tc) (transceiver_id tc) s) k =
        (let old = slot_or m k in
         if k = tc_key tc SendSide \<and> transceiver_id tc \<noteq> 0
         then (case sl_meta old of
                 Some (Embed _ gate) \<Rightarrow> if sl_installed old then old\<lparr>sl_meta := Some (Embed s gate)\<rparr> else old
               | _ \<Rightarrow> old)
         else old)" for m s k
      using update [of m s k] by (auto simp: slot_or_def [of "update_embed_source _ _ _ _"] slot_or_def [of m] Let_def)
    show ?thesis
      unfolding run prod.case using True Some
      by (cases "cw_gates w (tc_gate tc) \<and> allowed (rg_allowed (cw_rg w)) (sender_track_id tc)")
         (auto simp: wired slots update new installed_def Let_def
            split: option.split meta_step.split)
  qed
next
  case False
  then show ?thesis by (simp add: set_track_def)
qed

end
