(* ===== verification/Peer_Agreement.thy ===== *)
theory Peer_Agreement
  imports Peer_Connection_Props Dc_Channel_Life
begin

text \<open>
  Two whole connections negotiating with each other: the interleaving semantics of
  \<open>Dc_Agreement\<close>, over the operations of the connection itself (\<open>create_offer\<close>,
  \<open>create_answer\<close>, \<open>set_local_description\<close>, \<open>set_remote_description\<close> of
  \<open>peer_connection.rs\<close>), which run both negotiations at once. Every run of it is a run of
  the chunking negotiation (a simulation), and the frame-metadata gates of the two ends are
  characterised in every reachable state.

  The two ends are two processes, each with its own world. A description reaches the other end
  late, repeatedly or never, but unaltered. A description that is created is applied before the
  next operation of that end; a provisional answer is an answer its end has retyped.
\<close>

section \<open>The pair of connections\<close>

record duo =
  du_pc :: "side \<Rightarrow> peer_connection"
  du_world :: "side \<Rightarrow> conn_world"
  du_signaling :: "side \<Rightarrow> signaling"
  du_sent :: "side \<Rightarrow> session_description list"
  du_heard :: "side \<Rightarrow> session_description option" \<comment> \<open>the last one applied in time\<close>

definition taken :: "session_description \<Rightarrow> complete_answer \<Rightarrow> bool" where
  "taken d answer = went_through (set_description d answer)"

definition in_time :: "session_description \<Rightarrow> complete_answer \<Rightarrow> bool" where
  "in_time d answer = is_ok (set_description d answer)"

text \<open>What libwebrtc's own call delivers: a description of the asked kind, without the lines
  it does not know, or a failure.\<close>

definition generates :: "sdp_type \<Rightarrow> sdp_answer \<Rightarrow> bool" where
  "generates k native =
     (case run_sdp native of
        Inl _ \<Rightarrow> True
      | Inr d \<Rightarrow> generated d k \<and> \<not> declares_frame_metadata d)"

text \<open>One end applies a description. The attachment answers and the transceivers libwebrtc
  enumerates are whatever they are.\<close>

record surroundings =
  su_alive :: "nat \<Rightarrow> bool"
  su_attach :: attach_answers
  su_natives :: "native_transceiver option list"

definition applies_local ::
  "surroundings \<Rightarrow> complete_answer \<Rightarrow> duo \<Rightarrow> side \<Rightarrow> session_description \<Rightarrow> signaling \<Rightarrow> duo" where
  "applies_local su answer s x d sig =
     (case set_local_description (su_alive su) (su_attach su) (su_natives su) answer
             (du_pc s x) d (du_world s x) of
        (_, pc, w) \<Rightarrow>
          s\<lparr>du_pc := (du_pc s)(x := pc), du_world := (du_world s)(x := w),
            du_signaling := (du_signaling s)(x := sig)\<rparr>)"

definition applies_remote ::
  "surroundings \<Rightarrow> complete_answer \<Rightarrow> duo \<Rightarrow> side \<Rightarrow> session_description \<Rightarrow> signaling \<Rightarrow> duo" where
  "applies_remote su answer s x d sig =
     (case set_remote_description (su_alive su) (su_attach su) (su_natives su) answer
             (du_pc s x) d (du_world s x) of
        (_, pc, w) \<Rightarrow>
          s\<lparr>du_pc := (du_pc s)(x := pc), du_world := (du_world s)(x := w),
            du_signaling := (du_signaling s)(x := sig),
            du_heard := (if in_time d answer then (du_heard s)(x := Some d) else du_heard s)\<rparr>)"

definition sends :: "side \<Rightarrow> session_description \<Rightarrow> duo \<Rightarrow> duo" where
  "sends x d s = s\<lparr>du_sent := (du_sent s)(x := d # du_sent s x)\<rparr>"

text \<open>The calls of the two applications, one at a time. \<open>timely\<close> restricts the runs to
  those in which no wait for libwebrtc's answer times out.\<close>

inductive duo_step :: "bool \<Rightarrow> duo \<Rightarrow> duo \<Rightarrow> bool" for timely where
  offers:
    "du_signaling s x \<noteq> HaveRemoteOffer \<Longrightarrow> generates Offer native \<Longrightarrow>
     create_offer (du_pc s x) native = Inr d \<Longrightarrow> taken d answer \<Longrightarrow> timely \<longrightarrow> in_time d answer \<Longrightarrow>
     duo_step timely s (sends x d (applies_local su answer s x d HaveLocalOffer))"
| hears_offer:
    "du_signaling s x \<noteq> HaveLocalOffer \<Longrightarrow> d \<in> set (du_sent s (other x)) \<Longrightarrow> sd_kind d = Offer \<Longrightarrow>
     taken d answer \<Longrightarrow> timely \<longrightarrow> in_time d answer \<Longrightarrow>
     duo_step timely s (applies_remote su answer s x d HaveRemoteOffer)"
| answers:
    "du_signaling s x = HaveRemoteOffer \<Longrightarrow> generates Answer native \<Longrightarrow>
     create_answer (du_pc s x) (du_world s x) native = Inr d \<Longrightarrow> taken d answer \<Longrightarrow>
     timely \<longrightarrow> in_time d answer \<Longrightarrow>
     duo_step timely s (sends x d (applies_local su answer s x d Stable))"
| hears_answer:
    "du_signaling s x = HaveLocalOffer \<Longrightarrow> d \<in> set (du_sent s (other x)) \<Longrightarrow> sd_kind d = Answer \<Longrightarrow>
     taken d answer \<Longrightarrow> timely \<longrightarrow> in_time d answer \<Longrightarrow>
     duo_step timely s (applies_remote su answer s x d Stable)"
| answers_provisionally:
    "du_signaling s x = HaveRemoteOffer \<Longrightarrow> generates Answer native \<Longrightarrow>
     create_answer (du_pc s x) (du_world s x) native = Inr d \<Longrightarrow> d' = d\<lparr>sd_kind := PrAnswer\<rparr> \<Longrightarrow>
     taken d' answer \<Longrightarrow> timely \<longrightarrow> in_time d' answer \<Longrightarrow>
     duo_step timely s (sends x d' (applies_local su answer s x d' HaveRemoteOffer))"
| hears_provisional:
    "du_signaling s x = HaveLocalOffer \<Longrightarrow> d \<in> set (du_sent s (other x)) \<Longrightarrow> sd_kind d = PrAnswer \<Longrightarrow>
     taken d answer \<Longrightarrow> timely \<longrightarrow> in_time d answer \<Longrightarrow>
     duo_step timely s (applies_remote su answer s x d HaveLocalOffer)"
| rolls_back_local:
    "du_signaling s x = HaveLocalOffer \<Longrightarrow> d = \<lparr>sd_kind = Rollback, sd_sdp = ''''\<rparr> \<Longrightarrow>
     taken d answer \<Longrightarrow> timely \<longrightarrow> in_time d answer \<Longrightarrow>
     duo_step timely s (applies_local su answer s x d Stable)"
| rolls_back_remote:
    "du_signaling s x = HaveRemoteOffer \<Longrightarrow> d = \<lparr>sd_kind = Rollback, sd_sdp = ''''\<rparr> \<Longrightarrow>
     taken d answer \<Longrightarrow> timely \<longrightarrow> in_time d answer \<Longrightarrow>
     duo_step timely s (applies_remote su answer s x d Stable)"
| refused_local:
    "\<not> taken d answer \<Longrightarrow> duo_step timely s (applies_local su answer s x d (du_signaling s x))"
| refused_remote:
    "\<not> taken d answer \<Longrightarrow> duo_step timely s (applies_remote su answer s x d (du_signaling s x))"

definition duo_start :: "duo \<Rightarrow> bool" where
  "duo_start s \<longleftrightarrow>
     (\<forall>x. ng_state (pc_negotiation (du_pc s x)) = ns_default \<and>
          \<not> frame_metadata_gate (du_pc s x) (du_world s x) \<and>
          du_signaling s x = Stable \<and> du_sent s x = [] \<and> du_heard s x = None)"

inductive duo_reachable :: "bool \<Rightarrow> duo \<Rightarrow> duo \<Rightarrow> bool" for timely s0 where
  start: "duo_start s0 \<Longrightarrow> duo_reachable timely s0 s0"
| step: "duo_reachable timely s0 s \<Longrightarrow> duo_step timely s s' \<Longrightarrow> duo_reachable timely s0 s'"

section \<open>Simulation: every run is a run of the chunking negotiation\<close>

text \<open>Provisional answers are not part of the chunking negotiation's exchange.\<close>

definition abs_pair :: "duo \<Rightarrow> pair" where
  "abs_pair s =
     \<lparr>pr_nego = (\<lambda>x. pc_negotiation (du_pc s x)), pr_signaling = du_signaling s,
      pr_sent = (\<lambda>x. filter (\<lambda>d. sd_kind d \<noteq> PrAnswer) (du_sent s x))\<rparr>"

lemma set_negotiation:
  "pc_negotiation (fst (snd (set_local_description alive attach natives answer pc d w)))
     = fst (apply_local d (set_description d answer) (pc_negotiation pc))"
  "pc_negotiation (fst (snd (set_remote_description alive attach natives answer pc d w)))
     = fst (apply_remote d (set_description d answer) (pc_negotiation pc))"
  by (auto simp: set_local_description_def set_remote_description_def Let_def split: prod.split sum.split)

lemma abs_applies:
  "abs_pair (applies_local su answer s x d sig) =
     put (abs_pair s) x (fst (apply_local d (set_description d answer) (pr_nego (abs_pair s) x))) sig"
  "abs_pair (applies_remote su answer s x d sig) =
     put (abs_pair s) x (fst (apply_remote d (set_description d answer) (pr_nego (abs_pair s) x))) sig"
  using set_negotiation(1) [of "su_alive su" "su_attach su" "su_natives su" answer "du_pc s x" d "du_world s x"]
    set_negotiation(2) [of "su_alive su" "su_attach su" "su_natives su" answer "du_pc s x" d "du_world s x"]
  by (auto simp: applies_local_def applies_remote_def abs_pair_def put_def fun_eq_iff split: prod.split)

lemma abs_sends:
  "abs_pair (sends x d s) = (if sd_kind d = PrAnswer then abs_pair s else signal (abs_pair s) x d)"
  by (simp add: abs_pair_def sends_def signal_def fun_eq_iff)

lemma abs_fields [simp]:
  "pr_signaling (abs_pair s) = du_signaling s"
  "pr_sent (abs_pair s) x = filter (\<lambda>d. sd_kind d \<noteq> PrAnswer) (du_sent s x)"
  "pr_nego (abs_pair s) x = pc_negotiation (du_pc s x)"
  by (simp_all add: abs_pair_def)

text \<open>The base description of the chunking negotiation already declares frame metadata, or
  does not; either way it has no attribute of the other capability.\<close>

lemma created_offer:
  assumes "generates Offer native" "create_offer pc native = Inr d"
  shows "\<exists>base. generated base Offer \<and> d = ng_offer (pc_negotiation pc) base"
    and "sd_kind d = Offer"
    and "declares_frame_metadata d \<longleftrightarrow> pc_frame_metadata_enabled pc"
proof -
  from assms obtain b where b: "generated b Offer" "\<not> declares_frame_metadata b"
      "d = ng_offer (pc_negotiation pc) (if pc_frame_metadata_enabled pc then with_frame_metadata b else b)"
    by (auto simp: generates_def create_offer_def res_bind_eq_Inr Let_def)
  moreover have "generated (if pc_frame_metadata_enabled pc then with_frame_metadata b else b) Offer"
    using b(1) by (simp add: generated_def with_frame_metadata_sd)
  ultimately show "\<exists>base. generated base Offer \<and> d = ng_offer (pc_negotiation pc) base" by blast
  show "sd_kind d = Offer" using b
    by (simp add: generated_def with_frame_metadata_sd ng_offer_def with_dc_chunking_def split: option.split)
  show "declares_frame_metadata d \<longleftrightarrow> pc_frame_metadata_enabled pc"
    using b declares_with_frame_metadata [of b] by (simp add: declares_created generated_def)
qed

lemma created_answer:
  assumes "generates Answer native" "create_answer pc w native = Inr d"
  shows "\<exists>base. generated base Answer \<and> d = ng_answer (pc_negotiation pc) base"
    and "sd_kind d = Answer"
    and "declares_frame_metadata d \<longleftrightarrow> frame_metadata_gate pc w"
proof -
  from assms obtain b where b: "generated b Answer" "\<not> declares_frame_metadata b"
      "d = ng_answer (pc_negotiation pc) (if frame_metadata_gate pc w then with_frame_metadata b else b)"
    by (auto simp: generates_def create_answer_def res_bind_eq_Inr Let_def frame_metadata_gate_def gate_is_open_def)
  moreover have "generated (if frame_metadata_gate pc w then with_frame_metadata b else b) Answer"
    using b(1) by (simp add: generated_def with_frame_metadata_sd)
  ultimately show "\<exists>base. generated base Answer \<and> d = ng_answer (pc_negotiation pc) base" by blast
  show "sd_kind d = Answer" using b
    by (simp add: generated_def with_frame_metadata_sd ng_answer_def with_dc_chunking_def split: option.split)
  show "declares_frame_metadata d \<longleftrightarrow> frame_metadata_gate pc w"
    using b declares_with_frame_metadata [of b] by (simp add: declares_created generated_def)
qed

lemma refused:
  "\<not> taken d answer \<Longrightarrow> \<exists>e. set_description d answer = Inl (Rejected e)"
  by (auto simp: taken_def went_through_def split: sum.splits apply_error.splits)

lemma refused_step:
  assumes "\<not> taken d answer"
  shows "exchange s (put s x (fst (apply_local d (set_description d answer) (pr_nego s x))) (pr_signaling s x))"
    and "exchange s (put s x (fst (apply_remote d (set_description d answer) (pr_nego s x))) (pr_signaling s x))"
  using refused [OF assms] exchange.rejected_local [of s x d] exchange.rejected_remote [of s x d] by auto

lemma duo_step_simulates:
  assumes "duo_step timely s s'"
  shows "exchange (abs_pair s) (abs_pair s')"
  using assms
proof cases
  case (offers x native d answer su)
  from created_offer(1) [OF offers(3,4)] obtain base where
    "generated base Offer" "d = ng_offer (pr_nego (abs_pair s) x) base" by auto
  then show ?thesis
    using exchange.local_offer [of "abs_pair s" x base "set_description d answer" d] offers
      created_offer(2) [OF offers(3,4)]
    by (simp add: abs_sends abs_applies taken_def)
next
  case (answers x native d answer su)
  from created_answer(1) [OF answers(3,4)] obtain base where
    "generated base Answer" "d = ng_answer (pr_nego (abs_pair s) x) base" by auto
  then show ?thesis
    using exchange.local_answer [of "abs_pair s" x base "set_description d answer" d] answers
      created_answer(2) [OF answers(3,4)]
    by (simp add: abs_sends abs_applies taken_def)
next
  case (answers_provisionally x native d d' answer su)
  then show ?thesis
    using exchange.provisional_local [of d' "abs_pair s" x "set_description d' answer"]
    by (simp add: abs_sends abs_applies)
next
  case (hears_provisional x d answer su)
  then show ?thesis
    using exchange.provisional_remote [of d "abs_pair s" x "set_description d answer"]
    by (simp add: abs_applies)
next
  case (refused_local d answer su x)
  then show ?thesis using refused_step(1) [of d answer "abs_pair s" x] by (simp add: abs_applies)
next
  case (refused_remote d answer su x)
  then show ?thesis using refused_step(2) [of d answer "abs_pair s" x] by (simp add: abs_applies)
next
  case (hears_offer x d answer su)
  then show ?thesis
    using exchange.remote_offer [of "abs_pair s" x d "set_description d answer"] by (simp add: abs_applies taken_def)
next
  case (hears_answer x d answer su)
  then show ?thesis
    using exchange.remote_answer [of "abs_pair s" x d "set_description d answer"] by (simp add: abs_applies taken_def)
next
  case (rolls_back_local x d answer su)
  then show ?thesis
    using exchange.local_rollback [of "abs_pair s" x d "set_description d answer"] by (simp add: abs_applies taken_def)
next
  case (rolls_back_remote x d answer su)
  then show ?thesis
    using exchange.remote_rollback [of "abs_pair s" x d "set_description d answer"] by (simp add: abs_applies taken_def)
qed

lemma duo_reaches:
  assumes "duo_reachable timely s0 s"
  shows "reachable (\<lambda>x. pc_dc_chunking (du_pc s0 x)) (abs_pair s)"
  using assms
proof induction
  case start
  then have "abs_pair s0 = pair_new (\<lambda>x. pc_dc_chunking (du_pc s0 x))"
    by (auto simp: abs_pair_def pair_new_def duo_start_def ng_new_def pc_dc_chunking_def fun_eq_iff)
  then show ?case by (simp add: reachable.start)
qed (auto intro: reachable.step duo_step_simulates)

section \<open>The gates of the two ends\<close>

lemma applied_pc:
  "pc_frame_metadata_enabled (du_pc (applies_local su answer s x d sig) y) = pc_frame_metadata_enabled (du_pc s y)"
  "pc_frame_metadata_enabled (du_pc (applies_remote su answer s x d sig) y) = pc_frame_metadata_enabled (du_pc s y)"
  by (auto simp: applies_local_def applies_remote_def set_local_description_def set_remote_description_def Let_def
      split: prod.split sum.split)

lemma applied_sent [simp]:
  "du_sent (applies_local su answer s x d sig) = du_sent s"
  "du_sent (applies_remote su answer s x d sig) = du_sent s"
  by (auto simp: applies_local_def applies_remote_def split: prod.split)

definition gate_of :: "duo \<Rightarrow> side \<Rightarrow> bool" where
  "gate_of s x = frame_metadata_gate (du_pc s x) (du_world s x)"

definition takes_part :: "duo \<Rightarrow> side \<Rightarrow> bool" where
  "takes_part s x = pc_frame_metadata_enabled (du_pc s x)"

text \<open>A local description leaves every gate alone, a remote one sets that of its end when it
  is applied in time.\<close>

lemma gate_local: "gate_of (applies_local su answer s x d sig) y = gate_of s y"
  by (auto simp: gate_of_def applies_local_def set_local_description_def frame_metadata_gate_def lock_world
      split: prod.split sum.split)

lemma set_remote_gate:
  assumes "set_remote_description alive attach natives answer pc d w = (r, pc', w')"
  shows "pc_gate pc' = pc_gate pc"
    and "cw_gates w' = (if in_time d answer
           then (cw_gates w)(pc_gate pc := pc_frame_metadata_enabled pc \<and> declares_frame_metadata d) else cw_gates w)"
  using assms
  by (auto simp: set_remote_description_def apply_remote_def apply_cases in_time_def lock_world gate_set_def Let_def
      split: sum.splits apply_error.splits)

lemma gate_remote:
  "gate_of (applies_remote su answer s x d sig) y =
     (if y = x \<and> in_time d answer then takes_part s x \<and> declares_frame_metadata d else gate_of s y)"
proof -
  obtain r pc w where res: "set_remote_description (su_alive su) (su_attach su) (su_natives su) answer
      (du_pc s x) d (du_world s x) = (r, pc, w)"
    by (metis surj_pair)
  show ?thesis
    using set_remote_gate [OF res]
    by (simp add: gate_of_def takes_part_def applies_remote_def frame_metadata_gate_def res)
qed

definition all_take :: "duo \<Rightarrow> bool" where
  "all_take s \<longleftrightarrow> takes_part s A \<and> takes_part s B"

lemma all_take_iff: "all_take s \<longleftrightarrow> takes_part s x \<and> takes_part s (other x)"
  by (cases x) (auto simp: all_take_def)

definition heard_a_round :: "duo \<Rightarrow> side \<Rightarrow> bool" where
  "heard_a_round s x = (case du_heard s x of None \<Rightarrow> False | Some d \<Rightarrow> sd_kind d \<noteq> Rollback)"

text \<open>What a description that was signalled declares: an offer what its end takes part in, an
  answer only what both do, and exactly that in a timely run.\<close>

definition sent_fm :: "bool \<Rightarrow> duo \<Rightarrow> side \<Rightarrow> session_description \<Rightarrow> bool" where
  "sent_fm timely s0 x d \<longleftrightarrow>
     sd_kind d \<noteq> Rollback \<and>
     (if sd_kind d = Offer then declares_frame_metadata d = takes_part s0 x
      else (declares_frame_metadata d \<longrightarrow> all_take s0) \<and>
           (timely \<longrightarrow> declares_frame_metadata d = all_take s0))"

definition end_fm :: "bool \<Rightarrow> duo \<Rightarrow> duo \<Rightarrow> side \<Rightarrow> bool" where
  "end_fm timely s0 s x \<longleftrightarrow>
     takes_part s x = takes_part s0 x \<and>
     (gate_of s x \<longrightarrow> all_take s0) \<and>
     (timely \<longrightarrow> gate_of s x = (all_take s0 \<and> heard_a_round s x)) \<and>
     (timely \<and> du_signaling s x = HaveRemoteOffer \<longrightarrow> heard_a_round s x)"

definition fm_inv :: "bool \<Rightarrow> duo \<Rightarrow> duo \<Rightarrow> bool" where
  "fm_inv timely s0 s \<longleftrightarrow>
     (\<forall>x. end_fm timely s0 s x) \<and> (\<forall>x. \<forall>d \<in> set (du_sent s x). sent_fm timely s0 x d)"

lemma heard_local [simp]: "du_heard (applies_local su answer s x d sig) = du_heard s"
  by (simp add: applies_local_def split: prod.split)

lemma heard_remote [simp]:
  "du_heard (applies_remote su answer s x d sig) =
     (if in_time d answer then (du_heard s)(x := Some d) else du_heard s)"
  by (simp add: applies_remote_def split: prod.split)

lemma signaling_applied [simp]:
  "du_signaling (applies_local su answer s x d sig) = (du_signaling s)(x := sig)"
  "du_signaling (applies_remote su answer s x d sig) = (du_signaling s)(x := sig)"
  by (simp_all add: applies_local_def applies_remote_def split: prod.split)

lemma takes_part_applied [simp]:
  "takes_part (applies_local su answer s x d sig) y = takes_part s y"
  "takes_part (applies_remote su answer s x d sig) y = takes_part s y"
  by (simp_all add: takes_part_def applied_pc)

lemma end_local:
  assumes "end_fm timely s0 s y" "timely \<and> y = x \<and> sig = HaveRemoteOffer \<longrightarrow> heard_a_round s x"
  shows "end_fm timely s0 (applies_local su answer s x d sig) y"
  using assms by (auto simp: end_fm_def gate_local heard_a_round_def)

lemma end_refused:
  assumes "end_fm timely s0 s y" "\<not> taken d answer"
  shows "end_fm timely s0 (applies_remote su answer s x d (du_signaling s x)) y"
proof -
  have "\<not> in_time d answer"
    using refused [OF assms(2)] by (auto simp: in_time_def)
  then show ?thesis using assms(1) by (auto simp: end_fm_def gate_remote heard_a_round_def)
qed

lemma end_remote:
  assumes "end_fm timely s0 s y" "timely \<longrightarrow> in_time d answer" "end_fm timely s0 s x"
    and "sent_fm timely s0 (other x) d"
  shows "end_fm timely s0 (applies_remote su answer s x d sig) y"
proof (cases "y = x \<and> in_time d answer")
  case True
  have part: "takes_part s x = takes_part s0 x" using assms(3) by (simp add: end_fm_def)
  have declared: "takes_part s x \<and> declares_frame_metadata d \<longrightarrow> all_take s0"
      "timely \<longrightarrow> (takes_part s x \<and> declares_frame_metadata d) = all_take s0" "sd_kind d \<noteq> Rollback"
    using assms(4) part all_take_iff [of s0 x] unfolding sent_fm_def by argo+
  with True part show ?thesis by (simp add: end_fm_def gate_remote heard_a_round_def)
next
  case False
  then have "gate_of (applies_remote su answer s x d sig) y = gate_of s y"
    and "heard_a_round (applies_remote su answer s x d sig) y = heard_a_round s y"
    by (auto simp: gate_remote heard_a_round_def)
  with False assms(1,2) show ?thesis unfolding end_fm_def takes_part_applied signaling_applied by auto
qed

lemma end_rollback:
  assumes "end_fm timely s0 s y" "timely \<longrightarrow> in_time d answer"
    and "d = \<lparr>sd_kind = Rollback, sd_sdp = ''''\<rparr>"
  shows "end_fm timely s0 (applies_remote su answer s x d Stable) y"
proof -
  have "\<not> declares_frame_metadata d"
    by (simp add: assms(3) declares_frame_metadata_def str_lines_def)
  then show ?thesis using assms by (auto simp: end_fm_def gate_remote heard_a_round_def)
qed

lemma fm_inv_sends:
  "fm_inv timely s0 s \<Longrightarrow> sent_fm timely s0 x d \<Longrightarrow> fm_inv timely s0 (sends x d s)"
  by (auto simp: fm_inv_def sends_def end_fm_def gate_of_def takes_part_def heard_a_round_def)

lemma fm_inv_applied:
  assumes "fm_inv timely s0 s" and "\<And>y. end_fm timely s0 s' y" and "du_sent s' = du_sent s"
  shows "fm_inv timely s0 s'"
  using assms by (simp add: fm_inv_def)

lemma sent_answer:
  assumes "fm_inv timely s0 s" "du_signaling s x = HaveRemoteOffer"
    and "declares_frame_metadata d = gate_of s x" "sd_kind d \<in> {Answer, PrAnswer}"
  shows "sent_fm timely s0 x d"
  using assms by (auto simp: fm_inv_def end_fm_def sent_fm_def)

lemma fm_inv_step:
  assumes "duo_step timely s s'" and inv: "fm_inv timely s0 s"
  shows "fm_inv timely s0 s'"
proof -
  have ends: "end_fm timely s0 s y" for y using inv by (simp add: fm_inv_def)
  have sent: "sent_fm timely s0 x d" if "d \<in> set (du_sent s x)" for x d
    using inv that by (auto simp: fm_inv_def)
  from assms(1) show ?thesis
  proof cases
    case (offers x native d answer su)
    have "sent_fm timely s0 x d"
      using created_offer(2,3) [OF offers(3,4)] ends [of x] by (simp add: sent_fm_def end_fm_def takes_part_def)
    then show ?thesis unfolding offers(1)
      by (intro fm_inv_sends fm_inv_applied [OF inv] end_local [OF ends]) auto
  next
    case (answers x native d answer su)
    have "sent_fm timely s0 x d"
      by (rule sent_answer [OF inv answers(2)]) (simp_all add: created_answer [OF answers(3,4)] gate_of_def)
    then show ?thesis unfolding answers(1)
      by (intro fm_inv_sends fm_inv_applied [OF inv] end_local [OF ends]) auto
  next
    case (answers_provisionally x native d d' answer su)
    have "sent_fm timely s0 x d'"
      by (rule sent_answer [OF inv answers_provisionally(2)])
         (use created_answer(3) [OF answers_provisionally(3,4)] in
           \<open>simp_all add: answers_provisionally(5) gate_of_def fm_declares_sd\<close>)
    moreover have "timely \<longrightarrow> heard_a_round s x"
      using ends [of x] answers_provisionally(2) by (simp add: end_fm_def)
    ultimately show ?thesis unfolding answers_provisionally(1)
      by (intro fm_inv_sends fm_inv_applied [OF inv] end_local [OF ends] applied_sent) simp_all
  next
    case (rolls_back_remote x d answer su)
    show ?thesis unfolding rolls_back_remote(1)
      by (intro fm_inv_applied [OF inv] end_rollback [OF ends] rolls_back_remote applied_sent)
  next
    case (refused_local d answer su x)
    have "timely \<and> du_signaling s x = HaveRemoteOffer \<longrightarrow> heard_a_round s x"
      using ends [of x] by (simp add: end_fm_def)
    then show ?thesis unfolding refused_local(1)
      by (intro fm_inv_applied [OF inv] end_local [OF ends] applied_sent) simp
  next
    case (refused_remote d answer su x)
    show ?thesis unfolding refused_remote(1)
      by (intro fm_inv_applied [OF inv] end_refused [OF ends] refused_remote applied_sent)
  next
    case (rolls_back_local x d answer su)
    show ?thesis unfolding rolls_back_local(1)
      by (intro fm_inv_applied [OF inv] end_local [OF ends]) simp_all
  next
    case (hears_offer x d answer su)
    show ?thesis unfolding hears_offer(1)
      by (intro fm_inv_applied [OF inv] end_remote [OF ends _ ends sent] hears_offer applied_sent)
  next
    case (hears_answer x d answer su)
    show ?thesis unfolding hears_answer(1)
      by (intro fm_inv_applied [OF inv] end_remote [OF ends _ ends sent] hears_answer applied_sent)
  next
    case (hears_provisional x d answer su)
    show ?thesis unfolding hears_provisional(1)
      by (intro fm_inv_applied [OF inv] end_remote [OF ends _ ends sent] hears_provisional applied_sent)
  qed
qed

lemma fm_inv_reachable: "duo_reachable timely s0 s \<Longrightarrow> fm_inv timely s0 s"
proof (induction rule: duo_reachable.induct)
  case start
  then show ?case
    by (simp add: fm_inv_def end_fm_def duo_start_def heard_a_round_def gate_of_def)
qed (rule fm_inv_step)

section \<open>What an end creates can be handed over\<close>

lemma lines_aux_chars: "l \<in> set (lines_aux cur s) \<Longrightarrow> set l \<subseteq> set cur \<union> set s"
proof (induction cur s rule: lines_aux.induct)
  case (2 cur c cs)
  then show ?case by (auto simp: strip_cr_rev_def split: if_splits list.splits)
qed (auto split: if_splits)

lemma str_lines_chars: "l \<in> set (str_lines s) \<Longrightarrow> set l \<subseteq> set s"
  using lines_aux_chars [of l "[]" s] by (simp add: str_lines_def)

lemma insert_loop_chars:
  "c \<notin> set d \<Longrightarrow> c \<notin> set CRLF \<Longrightarrow> \<forall>l \<in> set ls. c \<notin> set l \<Longrightarrow> c \<notin> set (insert_loop d b ls)"
  by (induction d b ls rule: insert_loop.induct) auto

lemma show_nat_clean [simp]: "NUL \<notin> set (show_nat n)"
proof
  assume "NUL \<in> set (show_nat n)"
  then obtain d where "d < 10" "NUL = digit_char d" using show_nat_digits by blast
  then have "(of_char NUL :: nat) = of_char (digit_char d)" by simp
  with \<open>d < 10\<close> show False by (simp add: digit_char_def NUL_def)
qed

lemma prefixes_clean:
  "NUL \<notin> set fm_prefix" "NUL \<notin> set CRLF" "NUL \<notin> set dc_prefix" "NUL \<notin> set MAX_MESSAGE_SIZE_PARAM"
  by code_simp+

lemma params_line_clean: "NUL \<notin> set (params_line p)"
proof -
  have "NUL \<noteq> CHR '' ''" "NUL \<noteq> CHR ''=''" by (simp_all add: NUL_def)
  then show ?thesis using prefixes_clean by (auto simp: params_line_def split: option.split)
qed

lemma declarations_clean:
  assumes "NUL \<notin> set (sd_sdp d)"
  shows "NUL \<notin> set (sd_sdp (with_frame_metadata d))" "NUL \<notin> set (sd_sdp (with_dc_chunking d p))"
proof -
  have lines: "\<forall>l \<in> set (str_lines (sd_sdp d)). NUL \<notin> set l"
    using assms str_lines_chars by blast
  then have "NUL \<notin> set (insert_loop (params_line p @ CRLF) False (str_lines (sd_sdp d)))"
    by (intro insert_loop_chars) (simp_all add: params_line_clean prefixes_clean)
  then show "NUL \<notin> set (sd_sdp (with_dc_chunking d p))"
    using assms by (simp add: with_dc_chunking_def dc_declare_def)
  have "NUL \<notin> set (insert_loop (fm_prefix @ show_nat FRAME_METADATA_VERSION @ CRLF) False (str_lines (sd_sdp d)))"
    using lines by (intro insert_loop_chars) (simp_all add: prefixes_clean)
  then show "NUL \<notin> set (sd_sdp (with_frame_metadata d))"
    using assms by (simp add: with_frame_metadata_def)
qed

lemma created_clean:
  assumes "NUL \<notin> set (sd_sdp d)"
  shows "NUL \<notin> set (sd_sdp (ng_offer n d))" "NUL \<notin> set (sd_sdp (ng_answer n d))"
  using assms by (simp_all add: ng_offer_def ng_answer_def declarations_clean split: option.split)

lemma run_sdp_clean: "run_sdp native = Inr d \<Longrightarrow> NUL \<notin> set (sd_sdp d)"
  by (auto simp: run_sdp_def sdp_ok_def sdp_err_def c_str_clean Let_def split: option.splits sum.splits prod.splits)

text \<open>So only libwebrtc can refuse a description this library created.\<close>

lemma created_taken:
  assumes "create_offer pc native = Inr d \<or> create_answer pc w native = Inr d"
  shows "taken d (Some None)" "in_time d (Some None)"
proof -
  obtain a where a: "run_sdp native = Inr a" using assms
    by (auto simp: create_offer_def create_answer_def res_bind_eq_Inr)
  from run_sdp_clean [OF a] have "NUL \<notin> set (sd_sdp a)" "NUL \<notin> set (sd_sdp (with_frame_metadata a))"
    by (simp_all add: declarations_clean)
  then have "NUL \<notin> set (sd_sdp d)"
    using assms a by (auto simp: create_offer_def create_answer_def Let_def created_clean)
  then show "taken d (Some None)" "in_time d (Some None)"
    by (simp_all add: taken_def in_time_def set_description_cases went_through_def)
qed

section \<open>Agreement\<close>


section \<open>Runs\<close>

text \<open>Two fresh connections that take part in both capabilities, and libwebrtc's descriptions.\<close>

definition eager_connection :: "nat \<Rightarrow> peer_connection" where
  "eager_connection raw = (plain_connection raw True)\<lparr>pc_negotiation := ng_new (Some dc_chunking_default)\<rparr>"

definition eager_start :: duo where
  "eager_start =
     \<lparr>du_pc = (\<lambda>x. eager_connection (case x of A \<Rightarrow> 1 | B \<Rightarrow> 2)), du_world = (\<lambda>_. empty_world),
      du_signaling = (\<lambda>_. Stable), du_sent = (\<lambda>_. []), du_heard = (\<lambda>_. None)\<rparr>"

definition bare :: surroundings where
  "bare = \<lparr>su_alive = (\<lambda>_. True), su_attach = (\<lambda>_ _. 1), su_natives = []\<rparr>"

lemma eager_start: "duo_start eager_start" "takes_part eager_start x"
  "pc_dc_chunking (du_pc eager_start x) = Some dc_chunking_default"
  by (simp_all add: duo_start_def eager_start_def eager_connection_def plain_connection_def ng_new_def
      frame_metadata_gate_def empty_world_def takes_part_def pc_dc_chunking_def)

lemma eager_fields [simp]: "du_signaling eager_start = (\<lambda>_. Stable)" "du_heard eager_start = (\<lambda>_. None)"
  by (simp_all add: eager_start_def)

definition native_sdp :: "sdp_type \<Rightarrow> sdp_answer" where
  "native_sdp k = Some (Inr (sdp_as_str k, ''v=0''))"

lemma native_sdp: "run_sdp (native_sdp k) = Inr \<lparr>sd_kind = k, sd_sdp = ''v=0''\<rparr>" "generates k (native_sdp k)"
proof -
  have "c_str (sdp_as_str k) = sdp_as_str k" "c_str ''v=0'' = ''v=0''" by (cases k; simp add: c_str_def NUL_def)+
  moreover have "sdp_from_str (sdp_as_str k) = Some k" by (simp add: sdp_from_str_iff)
  ultimately show *: "run_sdp (native_sdp k) = Inr \<lparr>sd_kind = k, sd_sdp = ''v=0''\<rparr>"
    by (simp add: native_sdp_def run_sdp_def sdp_ok_def Let_def)
  have "\<not> fm_declares ''v=0''" "\<not> has_attribute ''v=0''" by code_simp+
  then have "\<not> declares_frame_metadata \<lparr>sd_kind = k, sd_sdp = ''v=0''\<rparr>" "\<not> has_attribute ''v=0''"
    by (simp_all add: fm_declares_sd)
  then show "generates k (native_sdp k)" by (simp add: generates_def * generated_def)
qed

lemma can_create:
  "\<exists>d. create_offer pc (native_sdp Offer) = Inr d" "\<exists>d. create_answer pc w (native_sdp Answer) = Inr d"
  by (simp_all only: create_offer_def create_answer_def native_sdp Let_def res_bind_simps) blast+

lemma sends_fields [simp]:
  "du_signaling (sends x d s) = du_signaling s" "du_heard (sends x d s) = du_heard s"
  "du_sent (sends x d s) = (du_sent s)(x := d # du_sent s x)"
  by (simp_all add: sends_def)

text \<open>The first three steps of a round: A offers, B hears it and answers.\<close>

lemma half_round:
  assumes "duo_reachable timely eager_start s" "du_signaling s = (\<lambda>_. Stable)"
  shows "\<exists>s2 s3 offer ans. duo_reachable timely eager_start s2 \<and> duo_reachable timely eager_start s3 \<and>
     sd_kind offer = Offer \<and> sd_kind ans = Answer \<and> NUL \<notin> set (sd_sdp ans) \<and> ans \<in> set (du_sent s3 B) \<and>
     du_heard s2 = (du_heard s)(B := Some offer) \<and> du_heard s3 = du_heard s2 \<and>
     du_signaling s2 = (\<lambda>_. Stable)(A := HaveLocalOffer, B := HaveRemoteOffer) \<and>
     du_signaling s3 = (\<lambda>_. Stable)(A := HaveLocalOffer)"
proof -
  obtain offer where offer: "create_offer (du_pc s A) (native_sdp Offer) = Inr offer"
    using can_create(1) by blast
  note o = created_taken [OF disjI1 [OF offer]] created_offer(2) [OF native_sdp(2) offer]
  define s1 where "s1 = sends A offer (applies_local bare (Some None) s A offer HaveLocalOffer)"
  have r1: "duo_reachable timely eager_start s1" unfolding s1_def
    by (rule duo_reachable.step [OF assms(1)], rule duo_step.offers [OF _ native_sdp(2) offer o(1)])
       (simp_all add: assms(2) o)
  have s1: "du_signaling s1 = (\<lambda>_. Stable)(A := HaveLocalOffer)" "offer \<in> set (du_sent s1 A)" "du_heard s1 = du_heard s"
    by (simp_all add: s1_def assms(2))
  define s2 where "s2 = applies_remote bare (Some None) s1 B offer HaveRemoteOffer"
  have r2: "duo_reachable timely eager_start s2" unfolding s2_def
    by (rule duo_reachable.step [OF r1], rule duo_step.hears_offer) (simp_all add: s1 o)
  have s2: "du_signaling s2 = (\<lambda>_. Stable)(A := HaveLocalOffer, B := HaveRemoteOffer)"
      "du_heard s2 = (du_heard s)(B := Some offer)"
    by (simp_all add: s2_def s1 o)
  obtain ans where ans: "create_answer (du_pc s2 B) (du_world s2 B) (native_sdp Answer) = Inr ans"
    using can_create(2) by blast
  note a = created_taken [OF disjI2 [OF ans]] created_answer(2) [OF native_sdp(2) ans]
  define s3 where "s3 = sends B ans (applies_local bare (Some None) s2 B ans Stable)"
  have r3: "duo_reachable timely eager_start s3" unfolding s3_def
    by (rule duo_reachable.step [OF r2], rule duo_step.answers [OF _ native_sdp(2) ans a(1)])
       (simp_all add: s2 a)
  have s3: "du_signaling s3 = (\<lambda>_. Stable)(A := HaveLocalOffer)" "ans \<in> set (du_sent s3 B)" "du_heard s3 = du_heard s2"
    by (auto simp: s3_def s2 fun_eq_iff)
  have "NUL \<notin> set (sd_sdp ans)"
    using a(2) by (auto simp: in_time_def set_description_cases split: if_splits)
  then show ?thesis
    by (intro exI [of _ s2] exI [of _ s3] exI [of _ offer] exI [of _ ans] conjI r2 r3 s2 s3 o(3) a(3))
qed

lemma first_half:
  obtains s3 offer ans where
    "duo_reachable True eager_start s3" "sd_kind offer = Offer" "sd_kind ans = Answer" "NUL \<notin> set (sd_sdp ans)"
    "ans \<in> set (du_sent s3 B)" "du_heard s3 = (\<lambda>_. None)(B := Some offer)"
    "du_signaling s3 = (\<lambda>_. Stable)(A := HaveLocalOffer)"
proof -
  have "duo_reachable True eager_start eager_start" by (rule duo_reachable.start [OF eager_start(1)])
  from half_round [OF this eager_fields(1)] show thesis
    by (elim exE conjE) (rule that, assumption+, simp_all)
qed

lemma answered_in_time:
  "NUL \<notin> set (sd_sdp d) \<Longrightarrow> taken d (Some None) \<and> in_time d (Some None) \<and> taken d None \<and> \<not> in_time d None"
  by (simp add: taken_def in_time_def set_description_cases went_through_def)

lemma whole_round:
  "\<exists>s. duo_reachable True eager_start s \<and> du_signaling s = (\<lambda>_. Stable) \<and> heard_a_round s A \<and> heard_a_round s B"
proof -
  obtain s3 offer ans where h:
      "duo_reachable True eager_start s3" "sd_kind offer = Offer" "sd_kind ans = Answer" "NUL \<notin> set (sd_sdp ans)"
      "ans \<in> set (du_sent s3 B)" "du_heard s3 = (\<lambda>_. None)(B := Some offer)"
      "du_signaling s3 = (\<lambda>_. Stable)(A := HaveLocalOffer)"
    by (rule first_half)
  note t = answered_in_time [OF h(4)]
  define s4 where "s4 = applies_remote bare (Some None) s3 A ans Stable"
  have "duo_reachable True eager_start s4" unfolding s4_def
    by (intro duo_reachable.step [OF h(1)] duo_step.hears_answer) (simp_all add: h t)
  moreover have "heard_a_round s4 A" "heard_a_round s4 B" "du_signaling s4 = (\<lambda>_. Stable)"
    by (simp_all add: s4_def heard_a_round_def h t fun_eq_iff)
  ultimately show ?thesis by blast
qed


section \<open>Two ways the gates of two ends part\<close>

lemma timely_gate:
  "duo_reachable True eager_start s \<Longrightarrow> gate_of s x = heard_a_round s x"
  using fm_inv_reachable [of True eager_start s] eager_start(2) by (simp add: fm_inv_def end_fm_def all_take_def)

text \<open>After a round, an offer that its receiver rolls back closes the receiver's gate and leaves
  its peer's open, with both connections stable: the peer goes on sending trailers.\<close>

lemma rolled_back_offer_splits_gates:
  "\<exists>s. duo_reachable True eager_start s \<and> du_signaling s = (\<lambda>_. Stable) \<and> gate_of s A \<and> \<not> gate_of s B"
proof -
  obtain s where s: "duo_reachable True eager_start s" "du_signaling s = (\<lambda>_. Stable)" "heard_a_round s A"
    using whole_round by blast
  let ?undo = "\<lparr>sd_kind = Rollback, sd_sdp = ''''\<rparr>"
  note t = answered_in_time [of ?undo, simplified]
  from half_round [OF s(1,2)] obtain s2 offer where h: "duo_reachable True eager_start s2"
      "du_heard s2 = (du_heard s)(B := Some offer)"
      "du_signaling s2 = (\<lambda>_. Stable)(A := HaveLocalOffer, B := HaveRemoteOffer)"
    by blast
  define s3 where "s3 = applies_remote bare (Some None) s2 B ?undo Stable"
  have r3: "duo_reachable True eager_start s3" unfolding s3_def
    by (intro duo_reachable.step [OF h(1)] duo_step.rolls_back_remote) (simp_all add: h t)
  define s4 where "s4 = applies_local bare (Some None) s3 A ?undo Stable"
  have r4: "duo_reachable True eager_start s4" unfolding s4_def
    by (intro duo_reachable.step [OF r3] duo_step.rolls_back_local) (simp_all add: s3_def h t)
  have "du_signaling s4 = (\<lambda>_. Stable)"
    by (simp add: s4_def s3_def h fun_eq_iff)
  moreover have "heard_a_round s4 A" "\<not> heard_a_round s4 B"
    using s(3) by (simp_all add: s4_def s3_def h t heard_a_round_def)
  ultimately show ?thesis using r4 timely_gate [OF r4] by blast
qed

lemma untimely_step: "duo_step True s s' \<Longrightarrow> duo_step False s s'"
  by (induction rule: duo_step.induct) (auto intro: duo_step.intros)

lemma untimely: "duo_reachable True s0 s \<Longrightarrow> duo_reachable False s0 s"
  by (induction rule: duo_reachable.induct) (auto intro: duo_reachable.intros untimely_step)

text \<open>An answer that libwebrtc applies too late leaves its receiver's gate closed, and the
  answerer's open: the answerer sends trailers that are not stripped.\<close>

lemma late_answer_splits_gates:
  "\<exists>s. duo_reachable False eager_start s \<and> du_signaling s = (\<lambda>_. Stable) \<and> \<not> gate_of s A \<and> gate_of s B"
proof -
  obtain s3 offer ans where h:
      "duo_reachable True eager_start s3" "sd_kind offer = Offer" "sd_kind ans = Answer" "NUL \<notin> set (sd_sdp ans)"
      "ans \<in> set (du_sent s3 B)" "du_heard s3 = (\<lambda>_. None)(B := Some offer)"
      "du_signaling s3 = (\<lambda>_. Stable)(A := HaveLocalOffer)"
    by (rule first_half)
  note t = answered_in_time [OF h(4)]
  define s4 where "s4 = applies_remote bare None s3 A ans Stable"
  have "duo_reachable False eager_start s4" unfolding s4_def
    by (intro duo_reachable.step [OF untimely [OF h(1)]] duo_step.hears_answer) (simp_all add: h t)
  moreover have "du_signaling s4 = (\<lambda>_. Stable)"
    by (simp add: s4_def h fun_eq_iff)
  moreover have "gate_of s4 x = heard_a_round s3 x" for x
    using timely_gate [OF h(1)] by (simp add: s4_def gate_remote t)
  ultimately show ?thesis using h by (auto simp: heard_a_round_def)
qed

end
