(* ===== verification/Utf8.thy ===== *)
theory Utf8
  imports Prelude
begin

text \<open>
  The part of Rust's \<open>std::str\<close> that the statistics use: \<open>from_utf8\<close> with the position and
  the length of its error, and \<open>from_utf8_lossy\<close>. A text is the list of its scalar values.
\<close>

type_synonym unicode = "nat list"

section \<open>One character\<close>

text \<open>What the validation finds at the head of the bytes: a scalar value and its width, or
  an error and how many bytes it covers, \<open>None\<close> when the input ends inside a character.\<close>

datatype utf8_head = Scalar nat nat | Malformed "nat option"

definition is_cont :: "nat \<Rightarrow> bool" where
  "is_cont b = (128 \<le> b \<and> b < 192)"

definition char_width :: "nat \<Rightarrow> nat" where
  "char_width b = (if b < 128 then 1 else if 194 \<le> b \<and> b < 224 then 2 else if 224 \<le> b \<and> b < 240 then 3
                   else if 240 \<le> b \<and> b < 245 then 4 else 0)"

text \<open>The second byte of a wide character, which rules out overlong forms, surrogates and values
  past the last scalar.\<close>

definition second_ok :: "nat \<Rightarrow> nat \<Rightarrow> bool" where
  "second_ok first second =
     (if first = 224 then 160 \<le> second \<and> second < 192
      else if first = 237 then 128 \<le> second \<and> second < 160
      else if first = 240 then 144 \<le> second \<and> second < 192
      else if first = 244 then 128 \<le> second \<and> second < 144
      else is_cont second)"

fun utf8_step :: "nat list \<Rightarrow> utf8_head" where
  "utf8_step [] = Malformed None"
| "utf8_step (b # rest) =
     (if char_width b = 1 then Scalar b 1
      else if char_width b = 2 then
        (case rest of
           [] \<Rightarrow> Malformed None
         | c # _ \<Rightarrow> if is_cont c then Scalar ((b - 192) * 64 + (c - 128)) 2 else Malformed (Some 1))
      else if char_width b = 3 then
        (case rest of
           [] \<Rightarrow> Malformed None
         | c # rest1 \<Rightarrow>
             if \<not> second_ok b c then Malformed (Some 1)
             else (case rest1 of
                     [] \<Rightarrow> Malformed None
                   | d # _ \<Rightarrow> if is_cont d then Scalar ((b - 224) * 4096 + (c - 128) * 64 + (d - 128)) 3
                             else Malformed (Some 2)))
      else if char_width b = 4 then
        (case rest of
           [] \<Rightarrow> Malformed None
         | c # rest1 \<Rightarrow>
             if \<not> second_ok b c then Malformed (Some 1)
             else (case rest1 of
                     [] \<Rightarrow> Malformed None
                   | d # rest2 \<Rightarrow>
                       if \<not> is_cont d then Malformed (Some 2)
                       else (case rest2 of
                               [] \<Rightarrow> Malformed None
                             | e # _ \<Rightarrow>
                                 if is_cont e
                                 then Scalar ((b - 240) * 262144 + (c - 128) * 4096 + (d - 128) * 64 + (e - 128)) 4
                                 else Malformed (Some 3))))
      else Malformed (Some 1))"

lemma step_width: "utf8_step bs = Scalar c n \<Longrightarrow> 0 < n \<and> n \<le> length bs"
  by (cases bs) (auto split: if_splits list.splits)

lemma step_error: "utf8_step bs = Malformed (Some n) \<Longrightarrow> 0 < n"
  by (cases bs) (auto split: if_splits list.splits)

section \<open>Whole texts\<close>

text \<open>The error is the number of bytes valid before it, and how many bytes it covers.\<close>

function utf8_scan :: "nat list \<Rightarrow> nat \<Rightarrow> unicode \<Rightarrow> (nat \<times> nat option) + unicode" where
  "utf8_scan bs pos acc =
     (if bs = [] then Inr (rev acc)
      else case utf8_step bs of
             Scalar c n \<Rightarrow> utf8_scan (drop n bs) (pos + n) (c # acc)
           | Malformed len \<Rightarrow> Inl (pos, len))"
  by pat_completeness auto
termination
  by (relation "measure (\<lambda>(bs, _). length bs)") (auto dest: step_width)

definition from_utf8 :: "bytes \<Rightarrow> (nat \<times> nat option) + unicode" where
  "from_utf8 bs = utf8_scan (map unat bs) 0 []"

definition REPLACEMENT :: nat where "REPLACEMENT = 65533"

text \<open>Every malformed stretch becomes one replacement character.\<close>

function utf8_lossy :: "nat list \<Rightarrow> unicode" where
  "utf8_lossy bs =
     (if bs = [] then []
      else case utf8_step bs of
             Scalar c n \<Rightarrow> c # utf8_lossy (drop n bs)
           | Malformed None \<Rightarrow> [REPLACEMENT]
           | Malformed (Some n) \<Rightarrow> REPLACEMENT # utf8_lossy (drop n bs))"
  by pat_completeness auto
termination
  by (relation "measure length") (auto dest: step_width step_error)

definition from_utf8_lossy :: "bytes \<Rightarrow> unicode" where
  "from_utf8_lossy bs = utf8_lossy (map unat bs)"

section \<open>Encoding, for comparison\<close>

definition is_scalar :: "nat \<Rightarrow> bool" where
  "is_scalar c = (c < 1114112 \<and> \<not> (55296 \<le> c \<and> c < 57344))"

definition encode_char :: "nat \<Rightarrow> nat list" where
  "encode_char c =
     (if c < 128 then [c]
      else if c < 2048 then [192 + c div 64, 128 + c mod 64]
      else if c < 65536 then [224 + c div 4096, 128 + c div 64 mod 64, 128 + c mod 64]
      else [240 + c div 262144, 128 + c div 4096 mod 64, 128 + c div 64 mod 64, 128 + c mod 64])"

definition utf8_encode :: "unicode \<Rightarrow> nat list" where
  "utf8_encode t = concat (map encode_char t)"

lemma utf8_encode_simps [simp]: "utf8_encode [] = []" "utf8_encode (c # cs) = encode_char c @ utf8_encode cs"
  by (simp_all add: utf8_encode_def)

lemma encode_char_len: "0 < length (encode_char c)" "encode_char c \<noteq> []"
  by (simp_all add: encode_char_def)

lemma digits_64:
  fixes c :: nat
  shows "c div 64 * 64 + c mod 64 = c" "c div 64 = c div 4096 * 64 + c div 64 mod 64"
    "c div 4096 = c div 262144 * 64 + c div 4096 mod 64"
proof -
  show "c div 64 * 64 + c mod 64 = c" by (rule div_mult_mod_eq)
  show "c div 64 = c div 4096 * 64 + c div 64 mod 64"
    using div_mult_mod_eq [of "c div 64" 64] by (simp add: div_mult2_eq [symmetric])
  show "c div 4096 = c div 262144 * 64 + c div 4096 mod 64"
    using div_mult_mod_eq [of "c div 4096" 64] by (simp add: div_mult2_eq [symmetric])
qed

lemma step_encode:
  assumes "is_scalar c"
  shows "utf8_step (encode_char c @ rest) = Scalar c (length (encode_char c))"
proof -
  define x y z w where digits: "x = c mod 64" "y = c div 64 mod 64" "z = c div 4096 mod 64" "w = c div 262144"
  have small: "x < 64" "y < 64" "z < 64" by (simp_all add: digits)
  have tops: "c div 64 = c div 4096 * 64 + y" "c div 4096 = w * 64 + z" "c = c div 64 * 64 + x"
    using digits_64 [of c] by (simp_all add: digits)
  consider "c < 128" | "128 \<le> c" "c < 2048" | "2048 \<le> c" "c < 65536" | "65536 \<le> c" "c < 1114112"
    using assms by (fastforce simp: is_scalar_def)
  then show ?thesis
  proof cases
    case 1
    then show ?thesis by (simp add: encode_char_def char_width_def)
  next
    case 2
    then have "2 \<le> c div 64" "c div 64 < 32" using tops small by linarith+
    with 2 tops(3) small(1) show ?thesis
      by (simp add: encode_char_def char_width_def is_cont_def digits(1) [symmetric])
  next
    case 3
    then have "c div 4096 < 16" "c div 4096 = 0 \<Longrightarrow> 32 \<le> y" "c div 4096 = 13 \<Longrightarrow> y < 32"
      using tops small assms unfolding is_scalar_def by linarith+
    moreover have "c div 4096 * 4096 + y * 64 + x = c" using tops by linarith
    ultimately show ?thesis
      using 3 small by (auto simp: encode_char_def char_width_def is_cont_def second_ok_def digits(1,2) [symmetric])
  next
    case 4
    then have "w < 5" "w = 0 \<Longrightarrow> 16 \<le> z" "w = 4 \<Longrightarrow> z < 16"
      using tops small by linarith+
    moreover have "w * 262144 + z * 4096 + y * 64 + x = c" using tops by linarith
    ultimately show ?thesis
      using 4 small by (auto simp: encode_char_def char_width_def is_cont_def second_ok_def digits [symmetric])
  qed
qed

lemma step_cut:
  "utf8_step [a, b] = Scalar c 2 \<Longrightarrow> utf8_step [a] = Malformed None"
  "utf8_step [a, b, d] = Scalar c 3 \<Longrightarrow> utf8_step [a] = Malformed None \<and> utf8_step [a, b] = Malformed None"
  "utf8_step [a, b, d, e] = Scalar c 4 \<Longrightarrow>
     utf8_step [a] = Malformed None \<and> utf8_step [a, b] = Malformed None \<and> utf8_step [a, b, d] = Malformed None"
  by (simp_all split: if_splits)

lemma step_prefix:
  assumes "is_scalar c" "0 < n" "n < length (encode_char c)"
  shows "utf8_step (take n (encode_char c)) = Malformed None"
proof -
  have whole: "utf8_step (encode_char c) = Scalar c (length (encode_char c))"
    using step_encode [OF assms(1), of "[]"] by simp
  consider a where "encode_char c = [a]" | a b where "encode_char c = [a, b]"
    | a b d where "encode_char c = [a, b, d]" | a b d e where "encode_char c = [a, b, d, e]"
    unfolding encode_char_def by metis
  then show ?thesis
  proof cases
    case (2 a b)
    then have "n = 1" using assms(2,3) by simp
    then show ?thesis using whole 2 step_cut(1) [of a b c] by simp
  next
    case (3 a b d)
    then consider "n = 1" | "n = 2" using assms(2,3) by fastforce
    then show ?thesis using whole 3 step_cut(2) [of a b d c] by cases (simp_all del: utf8_step.simps)
  next
    case (4 a b d e)
    then consider "n = 1" | "n = 2" | "n = 3" using assms(2,3) by fastforce
    then show ?thesis using whole 4 step_cut(3) [of a b d e c] by cases (simp_all del: utf8_step.simps)
  qed (use assms in simp)
qed

text \<open>The longest beginning of a text that fits in \<open>n\<close> bytes.\<close>

fun fit :: "nat \<Rightarrow> unicode \<Rightarrow> unicode" where
  "fit n [] = []"
| "fit n (c # cs) =
     (if length (encode_char c) \<le> n then c # fit (n - length (encode_char c)) cs else [])"

lemma fit_prefix: "\<exists>rest. t = fit n t @ rest"
  by (induction n t rule: fit.induct) auto

lemma fit_length: "length (utf8_encode (fit n t)) \<le> n"
  by (induction n t rule: fit.induct) auto

lemma fit_longest:
  assumes "t = p @ rest" "length (utf8_encode p) \<le> n"
  shows "length p \<le> length (fit n t)"
  using assms by (induction n t arbitrary: p rule: fit.induct) (auto simp: Cons_eq_append_conv)

lemma take_encode_fit: "take (length (utf8_encode (fit n t))) (utf8_encode t) = utf8_encode (fit n t)"
  by (induction n t rule: fit.induct) auto

lemma fit_all: "length (utf8_encode t) \<le> n \<Longrightarrow> fit n t = t"
  by (induction n t rule: fit.induct) auto

lemma scan_prefix:
  assumes "\<forall>c \<in> set t. is_scalar c"
  shows "utf8_scan (take n (utf8_encode t)) pos acc =
    (if length (utf8_encode (fit n t)) = min n (length (utf8_encode t)) then Inr (rev acc @ fit n t)
     else Inl (pos + length (utf8_encode (fit n t)), None))"
  using assms
proof (induction n t arbitrary: pos acc rule: fit.induct)
  case (1 n)
  then show ?case by simp
next
  case (2 n c cs)
  show ?case
  proof (cases "length (encode_char c) \<le> n")
    case True
    then have "utf8_scan (take n (utf8_encode (c # cs))) pos acc =
        utf8_scan (take (n - length (encode_char c)) (utf8_encode cs)) (pos + length (encode_char c)) (c # acc)"
      using 2(2) encode_char_len [of c]
      by (subst utf8_scan.simps) (simp add: step_encode take_append del: utf8_scan.simps)
    then show ?thesis using 2 True by (auto simp: min_def simp del: utf8_scan.simps)
  next
    case False
    then show ?thesis
      using 2(2) step_prefix [of c n] encode_char_len [of c]
      by (cases "n = 0") (auto simp: take_append)
  qed
qed

lemma lossy_encode:
  assumes "\<forall>c \<in> set t. is_scalar c"
  shows "utf8_lossy (utf8_encode t) = t"
  using assms
proof (induction t)
  case (Cons c cs)
  then show ?case
    using encode_char_len [of c]
    by (subst utf8_lossy.simps) (simp add: step_encode del: utf8_lossy.simps)
qed simp

lemma encode_char_bytes:
  assumes "is_scalar c" "b \<in> set (encode_char c)"
  shows "b < 256" "c \<noteq> 0 \<Longrightarrow> b \<noteq> 0"
  using assms by (auto simp: encode_char_def is_scalar_def split: if_splits)

lemma encode_bytes:
  assumes "\<forall>c \<in> set t. is_scalar c"
  shows "map (unat \<circ> (word_of_nat :: nat \<Rightarrow> u8)) (utf8_encode t) = utf8_encode t"
  using assms encode_char_bytes(1) by (intro map_idI) (auto simp: utf8_encode_def unat_of_nat mod_less)

end
