(* ===== verification/Stats.thy ===== *)
theory Stats
  imports Utf8 Session_Description
begin

text \<open>
  The statistics of a connection (\<open>crates/reactor-webrtc/src/peer_connection.rs\<close>): the flat entries
  the native side fills, and the typed report made of them. Floating-point numbers are only carried
  over, so they are any type \<open>'f\<close>; \<open>average_jitter_buffer_delay\<close>, the one place that
  computes with them, is not modelled. Signed numbers are integers.
\<close>

section \<open>The native entries\<close>

record 'f stat_entry =
  se_kind :: int
  se_ssrc :: u32
  se_packets_received :: u32
  se_packets_lost :: int
  se_nack_count :: u32
  se_pli_count :: u32
  se_fir_count :: u32
  se_pair_state :: int
  se_stream_kind :: int
  se_nominated :: int
  se_writable :: int
  se_local_candidate_type :: int
  se_local_relay_protocol :: int
  se_frame_width :: u32
  se_frame_height :: u32
  se_frames_decoded :: u32
  se_frames_dropped :: u32
  se_frames_sent :: u32
  se_bytes_received :: u64
  se_bytes_sent :: u64
  se_priority :: u64
  se_packets_sent :: u64
  se_retransmitted_packets_sent :: u64
  se_pair_packets_received :: u64
  se_jitter :: 'f
  se_total_decode_time :: 'f
  se_target_bitrate :: 'f
  se_round_trip_time :: 'f
  se_total_round_trip_time :: 'f
  se_fraction_lost :: 'f
  se_current_round_trip_time :: 'f
  se_available_outgoing_bitrate :: 'f
  se_available_incoming_bitrate :: 'f
  se_frames_per_second :: 'f
  se_mid :: bytes
  se_codec_mime_type :: bytes
  se_jitter_buffer_delay :: 'f
  se_jitter_buffer_target_delay :: 'f
  se_jitter_buffer_minimum_delay :: 'f
  se_jitter_buffer_emitted_count :: u64
  se_total_encode_time :: 'f
  se_total_packet_send_delay :: 'f
  se_total_processing_delay :: 'f
  se_frames_encoded :: u32
  se_timing_frame_rtp_timestamp :: u32
  se_timing_frame_present :: u8
  se_timing_is_outlier :: u8
  se_timing_is_timer_triggered :: u8
  se_timing_capture_ms :: int
  se_timing_encode_start_ms :: int
  se_timing_encode_finish_ms :: int
  se_timing_packetization_finish_ms :: int
  se_timing_pacer_exit_ms :: int
  se_timing_receive_start_ms :: int
  se_timing_receive_finish_ms :: int
  se_timing_decode_start_ms :: int
  se_timing_decode_finish_ms :: int
  se_data_channel_id :: int
  se_data_channel_state :: int
  se_messages_sent :: u32
  se_messages_received :: u32
  se_data_channel_label :: bytes
  se_data_channel_label_present :: u8
  se_codec_implementation :: bytes
  se_power_efficient :: int
  se_total_samples_received :: u64
  se_concealed_samples :: u64
  se_silent_concealed_samples :: u64
  se_concealment_events :: u64

record sctp_metrics =
  sm_tx_packets :: u64
  sm_tx_messages :: u64
  sm_rtx_packets :: u64
  sm_rtx_bytes :: u64
  sm_rx_packets :: u64
  sm_rx_messages :: u64
  sm_cwnd_bytes :: u64
  sm_unack_data :: u64
  sm_srtt_ms :: int
  sm_peer_rwnd_bytes :: u32
  sm_uses_message_interleaving :: u8

section \<open>The report\<close>

record timing_sender =
  ts_capture_ms :: int
  ts_encode_start_ms :: int
  ts_encode_finish_ms :: int
  ts_packetization_finish_ms :: int
  ts_pacer_exit_ms :: int

record timing_receiver =
  tr_receive_start_ms :: int
  tr_receive_finish_ms :: int
  tr_decode_start_ms :: int
  tr_decode_finish_ms :: int

record timing_frame_info =
  ti_rtp_timestamp :: u32
  ti_is_outlier :: bool
  ti_is_timer_triggered :: bool
  ti_sender :: timing_sender
  ti_receiver :: timing_receiver

record 'f inbound_rtp_stats =
  ib_ssrc :: u32
  ib_kind :: stream_kind
  ib_mid :: "unicode option"
  ib_codec_mime_type :: "unicode option"
  ib_packets_received :: u32
  ib_bytes_received :: u64
  ib_jitter_s :: 'f
  ib_packets_lost :: int
  ib_nack_count :: u32
  ib_pli_count :: u32
  ib_fir_count :: u32
  ib_total_decode_time_s :: 'f
  ib_frames_per_second :: 'f
  ib_frames_decoded :: u32
  ib_frames_dropped :: u32
  ib_frame_width :: u32
  ib_frame_height :: u32
  ib_jitter_buffer_delay_s :: 'f
  ib_jitter_buffer_target_delay_s :: 'f
  ib_jitter_buffer_minimum_delay_s :: 'f
  ib_jitter_buffer_emitted_count :: u64
  ib_total_processing_delay_s :: 'f
  ib_timing_frame :: "timing_frame_info option"
  ib_decoder_implementation :: "unicode option"
  ib_power_efficient_decoder :: "bool option"
  ib_total_samples_received :: u64
  ib_concealed_samples :: u64
  ib_silent_concealed_samples :: u64
  ib_concealment_events :: u64

record 'f outbound_rtp_stats =
  ou_ssrc :: u32
  ou_kind :: stream_kind
  ou_mid :: "unicode option"
  ou_codec_mime_type :: "unicode option"
  ou_packets_sent :: u64
  ou_bytes_sent :: u64
  ou_target_bitrate_bps :: 'f
  ou_round_trip_time_s :: 'f
  ou_total_round_trip_time_s :: 'f
  ou_fraction_lost :: 'f
  ou_packets_lost :: int
  ou_jitter_s :: 'f
  ou_retransmitted_packets_sent :: u64
  ou_nack_count :: u32
  ou_pli_count :: u32
  ou_fir_count :: u32
  ou_frames_per_second :: 'f
  ou_frames_sent :: u32
  ou_frame_width :: u32
  ou_frame_height :: u32
  ou_frames_encoded :: u32
  ou_total_encode_time_s :: 'f
  ou_total_packet_send_delay_s :: 'f
  ou_encoder_implementation :: "unicode option"
  ou_power_efficient_encoder :: "bool option"

record 'f ice_candidate_pair_stats =
  cp_current_round_trip_time_s :: 'f
  cp_total_round_trip_time_s :: 'f
  cp_priority :: u64
  cp_state :: ice_candidate_pair_state
  cp_nominated :: bool
  cp_writable :: bool
  cp_available_outgoing_bitrate_bps :: 'f
  cp_available_incoming_bitrate_bps :: 'f
  cp_bytes_sent :: u64
  cp_bytes_received :: u64
  cp_packets_sent :: u64
  cp_packets_received :: u64
  cp_local_candidate_type :: ice_candidate_type
  cp_local_relay_protocol :: relay_protocol

record data_channel_stats =
  ds_label :: "unicode option"
  ds_id :: "u16 option"
  ds_state :: data_channel_state
  ds_messages_sent :: u32
  ds_bytes_sent :: u64
  ds_messages_received :: u32
  ds_bytes_received :: u64

record sctp_stats =
  sc_packets_sent :: u64
  sc_messages_sent :: u64
  sc_packets_retransmitted :: u64
  sc_bytes_retransmitted :: u64
  sc_packets_received :: u64
  sc_messages_received :: u64
  sc_congestion_window_bytes :: u64
  sc_unacked_chunks :: u64
  sc_smoothed_rtt_ms :: int
  sc_peer_receive_window_bytes :: u32
  sc_message_interleaving :: bool

record 'f stats_report =
  sr_inbound_rtp :: "'f inbound_rtp_stats list"
  sr_outbound_rtp :: "'f outbound_rtp_stats list"
  sr_candidate_pairs :: "'f ice_candidate_pair_stats list"
  sr_data_channels :: "data_channel_stats list"
  sr_sctp :: "sctp_stats option"

section \<open>The conversion\<close>

definition stat_str :: "bytes \<Rightarrow> unicode option" where
  "stat_str buf =
     (let bs = takeWhile (\<lambda>c. c \<noteq> 0) buf in
      if bs = [] then None else Some (from_utf8_lossy bs))"

definition stat_str_prefix :: "bytes \<Rightarrow> unicode option" where
  "stat_str_prefix buf =
     (let bs = takeWhile (\<lambda>c. c \<noteq> 0) buf;
          txt = (case from_utf8 bs of
                   Inr txt \<Rightarrow> txt
                 | Inl (valid_up_to, None) \<Rightarrow> from_utf8_lossy (take valid_up_to bs)
                 | Inl (_, Some _) \<Rightarrow> from_utf8_lossy bs)
      in if txt = [] then None else Some txt)"

definition power_efficient :: "int \<Rightarrow> bool option" where
  "power_efficient v = (if v \<ge> 0 then Some (v = 1) else None)"

definition data_channel_label :: "'f stat_entry \<Rightarrow> unicode option" where
  "data_channel_label e =
     (if se_data_channel_label_present e \<noteq> 0
      then Some (case stat_str (se_data_channel_label e) of None \<Rightarrow> [] | Some t \<Rightarrow> t) else None)"

definition u16_try_from :: "int \<Rightarrow> u16 option" where
  "u16_try_from v = (if 0 \<le> v \<and> v \<le> 65535 then Some (word_of_int v) else None)"

definition timing_frame_of :: "'f stat_entry \<Rightarrow> timing_frame_info option" where
  "timing_frame_of e =
     (if se_timing_frame_present e \<noteq> 0
      then Some
        \<lparr>ti_rtp_timestamp = se_timing_frame_rtp_timestamp e,
         ti_is_outlier = (se_timing_is_outlier e \<noteq> 0),
         ti_is_timer_triggered = (se_timing_is_timer_triggered e \<noteq> 0),
         ti_sender =
           \<lparr>ts_capture_ms = se_timing_capture_ms e, ts_encode_start_ms = se_timing_encode_start_ms e,
            ts_encode_finish_ms = se_timing_encode_finish_ms e,
            ts_packetization_finish_ms = se_timing_packetization_finish_ms e,
            ts_pacer_exit_ms = se_timing_pacer_exit_ms e\<rparr>,
         ti_receiver =
           \<lparr>tr_receive_start_ms = se_timing_receive_start_ms e,
            tr_receive_finish_ms = se_timing_receive_finish_ms e,
            tr_decode_start_ms = se_timing_decode_start_ms e,
            tr_decode_finish_ms = se_timing_decode_finish_ms e\<rparr>\<rparr>
      else None)"

definition inbound_of :: "'f stat_entry \<Rightarrow> 'f inbound_rtp_stats" where
  "inbound_of e =
     \<lparr>ib_ssrc = se_ssrc e,
      ib_kind = stream_kind_from_raw (se_stream_kind e),
      ib_mid = stat_str (se_mid e),
      ib_codec_mime_type = stat_str (se_codec_mime_type e),
      ib_packets_received = se_packets_received e,
      ib_bytes_received = se_bytes_received e,
      ib_jitter_s = se_jitter e,
      ib_packets_lost = se_packets_lost e,
      ib_nack_count = se_nack_count e,
      ib_pli_count = se_pli_count e,
      ib_fir_count = se_fir_count e,
      ib_total_decode_time_s = se_total_decode_time e,
      ib_frames_per_second = se_frames_per_second e,
      ib_frames_decoded = se_frames_decoded e,
      ib_frames_dropped = se_frames_dropped e,
      ib_frame_width = se_frame_width e,
      ib_frame_height = se_frame_height e,
      ib_jitter_buffer_delay_s = se_jitter_buffer_delay e,
      ib_jitter_buffer_target_delay_s = se_jitter_buffer_target_delay e,
      ib_jitter_buffer_minimum_delay_s = se_jitter_buffer_minimum_delay e,
      ib_jitter_buffer_emitted_count = se_jitter_buffer_emitted_count e,
      ib_total_processing_delay_s = se_total_processing_delay e,
      ib_timing_frame = timing_frame_of e,
      ib_decoder_implementation = stat_str_prefix (se_codec_implementation e),
      ib_power_efficient_decoder = power_efficient (se_power_efficient e),
      ib_total_samples_received = se_total_samples_received e,
      ib_concealed_samples = se_concealed_samples e,
      ib_silent_concealed_samples = se_silent_concealed_samples e,
      ib_concealment_events = se_concealment_events e\<rparr>"

definition outbound_of :: "'f stat_entry \<Rightarrow> 'f outbound_rtp_stats" where
  "outbound_of e =
     \<lparr>ou_ssrc = se_ssrc e,
      ou_kind = stream_kind_from_raw (se_stream_kind e),
      ou_mid = stat_str (se_mid e),
      ou_codec_mime_type = stat_str (se_codec_mime_type e),
      ou_packets_sent = se_packets_sent e,
      ou_bytes_sent = se_bytes_sent e,
      ou_target_bitrate_bps = se_target_bitrate e,
      ou_round_trip_time_s = se_round_trip_time e,
      ou_total_round_trip_time_s = se_total_round_trip_time e,
      ou_fraction_lost = se_fraction_lost e,
      ou_packets_lost = se_packets_lost e,
      ou_jitter_s = se_jitter e,
      ou_retransmitted_packets_sent = se_retransmitted_packets_sent e,
      ou_nack_count = se_nack_count e,
      ou_pli_count = se_pli_count e,
      ou_fir_count = se_fir_count e,
      ou_frames_per_second = se_frames_per_second e,
      ou_frames_sent = se_frames_sent e,
      ou_frame_width = se_frame_width e,
      ou_frame_height = se_frame_height e,
      ou_frames_encoded = se_frames_encoded e,
      ou_total_encode_time_s = se_total_encode_time e,
      ou_total_packet_send_delay_s = se_total_packet_send_delay e,
      ou_encoder_implementation = stat_str_prefix (se_codec_implementation e),
      ou_power_efficient_encoder = power_efficient (se_power_efficient e)\<rparr>"

definition pair_of :: "'f stat_entry \<Rightarrow> 'f ice_candidate_pair_stats" where
  "pair_of e =
     \<lparr>cp_current_round_trip_time_s = se_current_round_trip_time e,
      cp_total_round_trip_time_s = se_total_round_trip_time e,
      cp_priority = se_priority e,
      cp_state = pair_state_from_raw (se_pair_state e),
      cp_nominated = se_nominated e \<noteq> 0,
      cp_writable = se_writable e \<noteq> 0,
      cp_available_outgoing_bitrate_bps = se_available_outgoing_bitrate e,
      cp_available_incoming_bitrate_bps = se_available_incoming_bitrate e,
      cp_bytes_sent = se_bytes_sent e,
      cp_bytes_received = se_bytes_received e,
      cp_packets_sent = se_packets_sent e,
      cp_packets_received = se_pair_packets_received e,
      cp_local_candidate_type = candidate_type_from_raw (se_local_candidate_type e),
      cp_local_relay_protocol = relay_protocol_from_raw (se_local_relay_protocol e)\<rparr>"

definition channel_of :: "'f stat_entry \<Rightarrow> data_channel_stats" where
  "channel_of e =
     \<lparr>ds_label = data_channel_label e,
      ds_id = u16_try_from (se_data_channel_id e),
      ds_state = data_channel_state_from_raw (se_data_channel_state e),
      ds_messages_sent = se_messages_sent e,
      ds_bytes_sent = se_bytes_sent e,
      ds_messages_received = se_messages_received e,
      ds_bytes_received = se_bytes_received e\<rparr>"

definition sctp_of :: "sctp_metrics \<Rightarrow> sctp_stats" where
  "sctp_of m =
     \<lparr>sc_packets_sent = sm_tx_packets m,
      sc_messages_sent = sm_tx_messages m,
      sc_packets_retransmitted = sm_rtx_packets m,
      sc_bytes_retransmitted = sm_rtx_bytes m,
      sc_packets_received = sm_rx_packets m,
      sc_messages_received = sm_rx_messages m,
      sc_congestion_window_bytes = sm_cwnd_bytes m,
      sc_unacked_chunks = sm_unack_data m,
      sc_smoothed_rtt_ms = sm_srtt_ms m,
      sc_peer_receive_window_bytes = sm_peer_rwnd_bytes m,
      sc_message_interleaving = (sm_uses_message_interleaving m \<noteq> 0)\<rparr>"

definition sctp_cb :: "sctp_metrics option \<Rightarrow> int \<Rightarrow> sctp_stats option" where
  "sctp_cb m ok = (if ok = 1 \<and> m \<noteq> None then map_option sctp_of m else None)"

definition report_default :: "'f stats_report" where
  "report_default =
     \<lparr>sr_inbound_rtp = [], sr_outbound_rtp = [], sr_candidate_pairs = [], sr_data_channels = [],
      sr_sctp = None\<rparr>"

definition report_entry :: "'f stats_report \<Rightarrow> 'f stat_entry \<Rightarrow> 'f stats_report" where
  "report_entry r e =
     (if se_kind e = 0 then r\<lparr>sr_inbound_rtp := sr_inbound_rtp r @ [inbound_of e]\<rparr>
      else if se_kind e = 1 then r\<lparr>sr_outbound_rtp := sr_outbound_rtp r @ [outbound_of e]\<rparr>
      else if se_kind e = 2 then r\<lparr>sr_candidate_pairs := sr_candidate_pairs r @ [pair_of e]\<rparr>
      else if se_kind e = 3 then r\<lparr>sr_data_channels := sr_data_channels r @ [channel_of e]\<rparr>
      else r)"

text \<open>The native side gives a pointer, which may be null, and a count.\<close>

definition stats_cb :: "'f stat_entry list option \<Rightarrow> int \<Rightarrow> 'f stats_report" where
  "stats_cb entries count =
     (let slice = (case entries of None \<Rightarrow> [] | Some es \<Rightarrow> if count \<le> 0 then [] else take (nat count) es)
      in foldl report_entry report_default slice)"

text \<open>A wait that times out gives no report, or no SCTP metrics.\<close>

definition run_stats :: "'f stats_report option \<Rightarrow> 'f stats_report result" where
  "run_stats answer =
     (case answer of None \<Rightarrow> Inl (Webrtc (Text ''get_stats timed out'')) | Some r \<Rightarrow> Inr r)"

definition pc_sctp_stats :: "sctp_stats option option \<Rightarrow> sctp_stats option" where
  "pc_sctp_stats answer = (case answer of None \<Rightarrow> None | Some s \<Rightarrow> s)"

definition get_stats ::
  "('f stat_entry list option \<times> int) option \<Rightarrow> (sctp_metrics option \<times> int) option \<Rightarrow> 'f stats_report result" where
  "get_stats stats_answer sctp_answer =
     res_bind (run_stats (map_option (\<lambda>(entries, count). stats_cb entries count) stats_answer))
       (\<lambda>report. Inr (report\<lparr>sr_sctp := pc_sctp_stats (map_option (\<lambda>(m, ok). sctp_cb m ok) sctp_answer)\<rparr>))"

end
