(* ===== verification/Stats_Props.thy ===== *)
theory Stats_Props
  imports Stats
begin

text \<open>
  What the report of \<open>get_stats\<close> holds: names are never cut inside a character, and every entry
  is in the list of its kind, in order.
\<close>

section \<open>Names\<close>

lemma buffer_text:
  assumes "0 \<notin> set bs"
  shows "takeWhile (\<lambda>c. c \<noteq> 0) (bs @ replicate k (0 :: u8)) = bs"
  using assms by (cases k) (auto simp: takeWhile_append takeWhile_eq_all_conv)

lemma encoded_nonzero:
  assumes "\<forall>c \<in> set t. is_scalar c \<and> c \<noteq> 0" "b \<in> set (utf8_encode t)"
  shows "(word_of_nat b :: u8) \<noteq> 0"
proof -
  obtain c where "c \<in> set t" "b \<in> set (encode_char c)" using assms(2) by (auto simp: utf8_encode_def)
  then have "b < 256" "b \<noteq> 0" using assms(1) encode_char_bytes by blast+
  then show ?thesis by (simp add: word_of_nat_eq_0_iff nat_dvd_not_less)
qed

lemma prefix_of_cut:
  assumes "\<forall>c \<in> set t. is_scalar c \<and> c \<noteq> 0"
  shows "stat_str_prefix (map word_of_nat (take n (utf8_encode t)) @ replicate k 0)
       = (if fit n t = [] then None else Some (fit n t))"
proof -
  let ?bs = "map word_of_nat (take n (utf8_encode t)) :: bytes"
  have bs: "takeWhile (\<lambda>c. c \<noteq> 0) (?bs @ replicate k 0) = ?bs"
    using encoded_nonzero [OF assms] by (intro buffer_text) (fastforce dest: in_set_takeD)
  have scalars: "\<forall>c \<in> set t. is_scalar c" "\<forall>c \<in> set (fit n t). is_scalar c"
    using assms fit_prefix [of t n] by (auto intro: UnI1) (metis Un_iff set_append)
  have undo: "map unat ?bs = take n (utf8_encode t)"
    using encode_bytes [OF scalars(1)] by (simp add: take_map [symmetric])
  have whole: "map unat (map word_of_nat (utf8_encode (fit n t)) :: bytes) = utf8_encode (fit n t)"
    using encode_bytes [OF scalars(2)] by simp
  have cut: "take (length (utf8_encode (fit n t))) ?bs = map word_of_nat (utf8_encode (fit n t))"
    using fit_length [of n t] take_encode_fit [of n t] by (simp add: take_map min_absorb1)
  show ?thesis
    using scan_prefix [OF scalars(1), of n 0 "[]"] lossy_encode [OF scalars(2)] cut whole undo
    by (simp add: stat_str_prefix_def bs from_utf8_def from_utf8_lossy_def Let_def
        del: utf8_scan.simps utf8_lossy.simps map_map take_map split: if_splits)
qed

text \<open>A cut name loses whole characters only. The native side cuts a long codec name to the
  first bytes that fit, which can split a character. Whatever text was cut to whatever number
  of bytes, the report holds the longest beginning of the text that fits whole in them, with no
  replacement character, and nothing when that is empty; a text that fits is unchanged.\<close>
theorem names_lose_whole_characters:
  assumes "\<forall>c \<in> set t. is_scalar c \<and> c \<noteq> 0"
  shows "\<exists>kept rest. t = kept @ rest \<and> length (utf8_encode kept) \<le> n \<and>
    (\<forall>p rest'. t = p @ rest' \<and> length (utf8_encode p) \<le> n \<longrightarrow> length p \<le> length kept) \<and>
    stat_str_prefix (map word_of_nat (take n (utf8_encode t)) @ replicate k 0)
      = (if kept = [] then None else Some kept)"
  using prefix_of_cut [OF assms] fit_prefix [of t n] fit_length [of n t] fit_longest by metis

lemma names_lose_whole_characters_witness:
  "\<exists>kept rest. [72, 8364] = kept @ rest \<and> length (utf8_encode kept) \<le> 3 \<and>
    stat_str_prefix (map word_of_nat (take 3 (utf8_encode [72, 8364])) @ replicate 2 0)
      = (if kept = [] then None else Some kept)"
  using names_lose_whole_characters [of "[72, 8364]" 3 2] by (auto simp: is_scalar_def)

section \<open>Entries\<close>

text \<open>The report has every entry in the list of its kind. The streams, candidate pairs and data
  channels are converted from exactly the entries of their kind among the first \<open>count\<close>, in the
  native side's order, and an entry of another kind is left out; a null pointer or a
  count that is not positive gives an empty report. Without an answer in time there is no report,
  and the SCTP metrics, asked for apart, are absent when that second wait ends without them.\<close>
theorem report_sorts_entries:
  "get_stats stats_answer sctp_answer =
     (case stats_answer of
        None \<Rightarrow> Inl (Webrtc (Text ''get_stats timed out''))
      | Some (entries, count) \<Rightarrow>
          (let es = take (nat count) (case entries of None \<Rightarrow> [] | Some es \<Rightarrow> es);
               of_kind = (\<lambda>k. filter (\<lambda>e. se_kind e = k) es)
           in Inr \<lparr>sr_inbound_rtp = map inbound_of (of_kind 0), sr_outbound_rtp = map outbound_of (of_kind 1),
                   sr_candidate_pairs = map pair_of (of_kind 2), sr_data_channels = map channel_of (of_kind 3),
                   sr_sctp = (case sctp_answer of Some (Some m, ok) \<Rightarrow> if ok = 1 then Some (sctp_of m) else None
                              | _ \<Rightarrow> None)\<rparr>))"
proof -
  have fold: "foldl report_entry r es =
      \<lparr>sr_inbound_rtp = sr_inbound_rtp r @ map inbound_of (filter (\<lambda>e. se_kind e = 0) es),
       sr_outbound_rtp = sr_outbound_rtp r @ map outbound_of (filter (\<lambda>e. se_kind e = 1) es),
       sr_candidate_pairs = sr_candidate_pairs r @ map pair_of (filter (\<lambda>e. se_kind e = 2) es),
       sr_data_channels = sr_data_channels r @ map channel_of (filter (\<lambda>e. se_kind e = 3) es),
       sr_sctp = sr_sctp r\<rparr>" for r :: "'a stats_report" and es
    by (induction es arbitrary: r) (simp_all add: report_entry_def)
  show ?thesis
    by (auto simp: get_stats_def run_stats_def stats_cb_def fold report_default_def pc_sctp_stats_def sctp_cb_def
        Let_def split: option.split)
qed

end
