(* ===== verification/OpenH264.thy ===== *)
theory OpenH264
  imports Rust_Str
begin

text \<open>
  The installer of Cisco's OpenH264 library (\<open>crates/reactor-webrtc-sys/src/openh264.rs\<close>): the
  table of pinned archives, the check of a download against its pinned hash, and the cache, a
  library file and a sentinel file beside it.

  The network, SHA-1, bzip2 and the directory lookup are other crates and arguments. The file
  system is a map from paths, lists of components, to files; directories are not recorded, and
  each call of \<open>std::fs\<close> takes the outcome the operating system gives it from the attempt. A
  failed write says what it left: nothing new, or the first bytes of the data.
\<close>

section \<open>Errors\<close>

type_synonym io_error = string \<comment> \<open>its \<open>Display\<close> text\<close>

datatype open_h264_error =
    UnsupportedPlatform string string
  | MissingExpectedHash string
  | NoCacheDir
  | Download string
  | HashMismatch string string \<comment> \<open>expected, actual\<close>
  | Decompress string
  | Io io_error

definition EM_DASH :: string where
  "EM_DASH = [CHR 0xE2, CHR 0x80, CHR 0x94]"

fun oh_display :: "open_h264_error \<Rightarrow> string" where
  "oh_display (UnsupportedPlatform os arch) = ''no OpenH264 prebuilt for '' @ os @ ''/'' @ arch"
| "oh_display (MissingExpectedHash file) =
     ''no pinned SHA-1 for '' @ file @ '' '' @ EM_DASH @ '' see openh264.rs target_for()''"
| "oh_display NoCacheDir = ''could not resolve a cache directory''"
| "oh_display (Download msg) = ''OpenH264 download failed: '' @ msg"
| "oh_display (HashMismatch expected actual) =
     ''OpenH264 download hash mismatch: expected '' @ expected @ '', got '' @ actual"
| "oh_display (Decompress msg) = ''OpenH264 decompress failed: '' @ msg"
| "oh_display (Io e) = ''OpenH264 cache I/O failed: '' @ e"

section \<open>The pinned archives\<close>

definition OPENH264_VERSION :: string where "OPENH264_VERSION = ''2.6.0''"
definition CISCO_CDN_BASE :: string where "CISCO_CDN_BASE = ''http://ciscobinary.openh264.org''"

record target =
  tg_archive_name :: string
  tg_sha1 :: string

definition target_for :: "string \<Rightarrow> string \<Rightarrow> open_h264_error + target" where
  "target_for os arch =
     (if os = ''linux'' \<and> arch = ''x86_64'' then
        Inr \<lparr>tg_archive_name = ''libopenh264-2.6.0-linux64.8.so.bz2'',
             tg_sha1 = ''1ae7464e33a249c1cd0b6998d09f9ada5937b64d''\<rparr>
      else if os = ''linux'' \<and> arch = ''aarch64'' then
        Inr \<lparr>tg_archive_name = ''libopenh264-2.6.0-linux-arm64.8.so.bz2'',
             tg_sha1 = ''16727ec3b37dbea3c8616418ba0c4bc87e0eb4aa''\<rparr>
      else if os = ''windows'' \<and> arch = ''x86_64'' then
        Inr \<lparr>tg_archive_name = ''openh264-2.6.0-win64.dll.bz2'',
             tg_sha1 = ''78661d7bf890e3c526acae6904679afd05941fbe''\<rparr>
      else if os = ''windows'' \<and> arch = ''aarch64'' then
        Inr \<lparr>tg_archive_name = ''openh264-2.6.0-win-arm64.dll.bz2'',
             tg_sha1 = ''34c17127d00ea0be6f3b96b8e91c667357bef800''\<rparr>
      else Inl (UnsupportedPlatform os arch))"

section \<open>Paths and files\<close>

type_synonym path = "string list"

record cached_file =
  fl_data :: bytes
  fl_mode :: u32

type_synonym filesystem = "path \<Rightarrow> cached_file option"

definition cache_paths :: "path \<Rightarrow> string \<Rightarrow> path \<times> path" where
  "cache_paths cache_root lib_filename = (cache_root @ [lib_filename], cache_root @ [lib_filename @ ''.ok''])"

text \<open>\<open>fs::write\<close>: creates the file or empties the one there, keeping its mode, and writes the
  bytes one after another; it may fail before it has opened the file or after any of them.\<close>

datatype write_outcome = Written | Failed io_error "nat option"

fun fs_write :: "u32 \<Rightarrow> filesystem \<Rightarrow> path \<Rightarrow> bytes \<Rightarrow> write_outcome \<Rightarrow> (io_error + unit) \<times> filesystem" where
  "fs_write new_mode fs p data outcome =
     (let mode = (case fs p of Some f \<Rightarrow> fl_mode f | None \<Rightarrow> new_mode) in
      case outcome of
        Written \<Rightarrow> (Inr (), fs(p \<mapsto> \<lparr>fl_data = data, fl_mode = mode\<rparr>))
      | Failed e None \<Rightarrow> (Inl e, fs)
      | Failed e (Some n) \<Rightarrow> (Inl e, fs(p \<mapsto> \<lparr>fl_data = take n data, fl_mode = mode\<rparr>)))"

text \<open>What the build and the machine fix, and what one call meets.\<close>

record host =
  ho_os :: string
  ho_arch :: string
  ho_unix :: bool
  ho_cache_dir :: "path option"
  ho_new_mode :: u32
  ho_sha1 :: "bytes \<Rightarrow> bytes"
  ho_bunzip2 :: "bytes \<Rightarrow> string + bytes"

record attempt =
  at_create_dir :: "io_error + unit"
  at_get :: "string \<Rightarrow> string + (string + bytes)" \<comment> \<open>the request, then the reading of its body\<close>
  at_write_lib :: write_outcome
  at_metadata :: "io_error + unit"
  at_set_permissions :: "io_error + unit"
  at_write_sentinel :: write_outcome

text \<open>The mode bits 0o111 are 73.\<close>

definition mark_executable :: "host \<Rightarrow> attempt \<Rightarrow> path \<Rightarrow> filesystem \<Rightarrow> (io_error + unit) \<times> filesystem" where
  "mark_executable h a p fs =
     (if \<not> ho_unix h then (Inr (), fs)
      else case (at_metadata a, fs p) of
        (Inr _, Some f) \<Rightarrow>
          (case at_set_permissions a of
             Inl e \<Rightarrow> (Inl e, fs)
           | Inr _ \<Rightarrow> (Inr (), fs(p \<mapsto> f\<lparr>fl_mode := fl_mode f OR 73\<rparr>)))
      | (Inl e, _) \<Rightarrow> (Inl e, fs)
      | (Inr _, None) \<Rightarrow> (Inl ''not found'', fs))"

section \<open>Download and check\<close>

definition download :: "(string \<Rightarrow> string + (string + bytes)) \<Rightarrow> string \<Rightarrow> open_h264_error + bytes" where
  "download get url = res_bind (map_err Download (get url)) (\<lambda>response. map_err Download response)"

definition hex_digit :: "nat \<Rightarrow> char" where
  "hex_digit n = ''0123456789abcdef'' ! n"

definition hex_encode :: "bytes \<Rightarrow> string" where
  "hex_encode data = concat (map (\<lambda>b. [hex_digit (unat b div 16), hex_digit (unat b mod 16)]) data)"

definition verify_sha1 :: "(bytes \<Rightarrow> bytes) \<Rightarrow> bytes \<Rightarrow> string \<Rightarrow> open_h264_error + unit" where
  "verify_sha1 sha1 data expected_hex =
     (let actual_hex = hex_encode (sha1 data) in
      if \<not> eq_ignore_ascii_case actual_hex expected_hex then Inl (HashMismatch expected_hex actual_hex)
      else Inr ())"

definition decompress_bz2 :: "(bytes \<Rightarrow> string + bytes) \<Rightarrow> bytes \<Rightarrow> open_h264_error + bytes" where
  "decompress_bz2 bunzip2 data = map_err Decompress (bunzip2 data)"

section \<open>The call\<close>

definition lib_filename :: "target \<Rightarrow> string" where
  "lib_filename t =
     (let name = tg_archive_name t; keep = length name - length ''.bz2'' in
      if drop keep name = ''.bz2'' then take keep name else name)"

text \<open>Downloading, checking and unpacking: nothing is written yet.\<close>

definition fetch :: "host \<Rightarrow> attempt \<Rightarrow> target \<Rightarrow> open_h264_error + bytes" where
  "fetch h a t =
     res_bind (download (at_get a) (CISCO_CDN_BASE @ ''/'' @ tg_archive_name t)) (\<lambda>compressed.
     res_bind (verify_sha1 (ho_sha1 h) compressed (tg_sha1 t)) (\<lambda>_.
     decompress_bz2 (ho_bunzip2 h) compressed))"

definition store :: "host \<Rightarrow> attempt \<Rightarrow> path \<Rightarrow> path \<Rightarrow> bytes \<Rightarrow> filesystem \<Rightarrow> (open_h264_error + path) \<times> filesystem" where
  "store h a lib_path sentinel decompressed fs =
     (case fs_write (ho_new_mode h) fs lib_path decompressed (at_write_lib a) of
        (Inl e, fs) \<Rightarrow> (Inl (Io e), fs)
      | (Inr _, fs) \<Rightarrow>
          (let (_, fs) = mark_executable h a lib_path fs in
           case fs_write (ho_new_mode h) fs sentinel [111, 107] (at_write_sentinel a) of
             (Inl e, fs) \<Rightarrow> (Inl (Io e), fs)
           | (Inr _, fs) \<Rightarrow> (Inr lib_path, fs)))"

definition cache_root :: "host \<Rightarrow> path option \<Rightarrow> open_h264_error + path" where
  "cache_root h cache_dir =
     res_bind (case cache_dir of Some p \<Rightarrow> Inr p
               | None \<Rightarrow> (case ho_cache_dir h of Some p \<Rightarrow> Inr p | None \<Rightarrow> Inl NoCacheDir))
       (\<lambda>p. Inr (p @ [''reactor-webrtc'', ''openh264'', OPENH264_VERSION]))"

definition ensure_available :: "host \<Rightarrow> attempt \<Rightarrow> path option \<Rightarrow> filesystem \<Rightarrow> (open_h264_error + path) \<times> filesystem" where
  "ensure_available h a cache_dir fs =
     (case target_for (ho_os h) (ho_arch h) of
        Inl e \<Rightarrow> (Inl e, fs)
      | Inr t \<Rightarrow>
          if tg_sha1 t = [] then (Inl (MissingExpectedHash (tg_archive_name t)), fs)
          else (case cache_root h cache_dir of
             Inl e \<Rightarrow> (Inl e, fs)
           | Inr root \<Rightarrow>
               (case at_create_dir a of
                  Inl e \<Rightarrow> (Inl (Io e), fs)
                | Inr _ \<Rightarrow>
                    (let (lib_path, sentinel) = cache_paths root (lib_filename t) in
                     if fs lib_path \<noteq> None \<and> fs sentinel \<noteq> None then (Inr lib_path, fs)
                     else case fetch h a t of
                       Inl e \<Rightarrow> (Inl e, fs)
                     | Inr decompressed \<Rightarrow> store h a lib_path sentinel decompressed fs))))"

section \<open>The pinned hashes\<close>

lemma hex_digit_range:
  assumes "n < 16"
  shows "hex_digit n \<in> set ''0123456789abcdef''"
  unfolding hex_digit_def by (rule nth_mem) (use assms in simp)

lemma to_ascii_lowercase_hex: "c \<in> set ''0123456789abcdef'' \<Longrightarrow> to_ascii_lowercase c = c"
  by (auto simp: to_ascii_lowercase_def)

lemma hex_encode_digits: "c \<in> set (hex_encode data) \<Longrightarrow> c \<in> set ''0123456789abcdef''"
proof -
  assume "c \<in> set (hex_encode data)"
  then obtain b :: u8 where b: "c = hex_digit (unat b div 16) \<or> c = hex_digit (unat b mod 16)"
    by (auto simp: hex_encode_def)
  have "unat b < 2 ^ LENGTH(8)" by (rule unsigned_less)
  then have "unat b div 16 < 16" "unat b mod 16 < 16" by simp_all
  with b hex_digit_range show "c \<in> set ''0123456789abcdef''" by blast
qed

lemma hex_encode_lowercase: "map to_ascii_lowercase (hex_encode data) = hex_encode data"
  by (rule map_idI) (rule to_ascii_lowercase_hex [OF hex_encode_digits])

lemma target_cases:
  assumes "target_for os arch = Inr t"
  shows "length (tg_sha1 t) = 40" "set (tg_sha1 t) \<subseteq> set ''0123456789abcdef''"
    "lib_filename t \<noteq> []"
  using assms by (auto simp: target_for_def lib_filename_def split: if_splits)

text \<open>The table pins lower case digits, so ignoring case in the comparison changes nothing.\<close>

lemma verify_pinned:
  assumes "target_for os arch = Inr t"
  shows "verify_sha1 sha1 data (tg_sha1 t) = Inr () \<longleftrightarrow> hex_encode (sha1 data) = tg_sha1 t"
proof -
  have "map to_ascii_lowercase (tg_sha1 t) = tg_sha1 t"
    using target_cases(2) [OF assms] to_ascii_lowercase_hex by (intro map_idI) blast
  then show ?thesis
    by (simp add: verify_sha1_def eq_ignore_ascii_case_def hex_encode_lowercase Let_def)
qed

section \<open>What is served was verified\<close>

definition verified :: "host \<Rightarrow> target \<Rightarrow> bytes \<Rightarrow> bool" where
  "verified h t data \<longleftrightarrow>
     (\<exists>archive. hex_encode (ho_sha1 h archive) = tg_sha1 t \<and> ho_bunzip2 h archive = Inr data)"

text \<open>Wherever a sentinel is, the library beside it is there and was verified.\<close>

definition cache_ok :: "host \<Rightarrow> target \<Rightarrow> filesystem \<Rightarrow> bool" where
  "cache_ok h t fs \<longleftrightarrow>
     (\<forall>root. fs (root @ [lib_filename t @ ''.ok'']) \<noteq> None \<longrightarrow>
        (\<exists>f. fs (root @ [lib_filename t]) = Some f \<and> verified h t (fl_data f)))"

lemma fetch_verified:
  assumes "target_for os arch = Inr t" and "fetch h a t = Inr data"
  shows "verified h t data"
proof -
  from assms(2) obtain archive where "verify_sha1 (ho_sha1 h) archive (tg_sha1 t) = Inr ()"
    and "decompress_bz2 (ho_bunzip2 h) archive = Inr data"
    by (auto simp: fetch_def res_bind_eq_Inr)
  with verify_pinned [OF assms(1)] show ?thesis
    by (auto simp: verified_def decompress_bz2_def map_err_def split: sum.splits)
qed

text \<open>What a step leaves alone.\<close>

definition only_at :: "path \<Rightarrow> filesystem \<Rightarrow> filesystem \<Rightarrow> bool" where
  "only_at p fs fs' \<longleftrightarrow> (\<forall>q. q \<noteq> p \<longrightarrow> fs' q = fs q)"

lemma only_at_trans: "only_at p fs1 fs2 \<Longrightarrow> only_at p fs2 fs3 \<Longrightarrow> only_at p fs1 fs3"
  by (simp add: only_at_def)

lemma fs_write_only_at: "fs_write m fs p data w = (r, fs') \<Longrightarrow> only_at p fs fs'"
  by (auto simp: only_at_def Let_def split: write_outcome.splits option.splits)

lemma fs_write_Inr: "fs_write m fs p data w = (Inr u, fs') \<Longrightarrow> map_option fl_data (fs' p) = Some data"
  by (auto simp: Let_def split: write_outcome.splits option.splits)

lemma mark_executable_only_at: "mark_executable h a p fs = (r, fs') \<Longrightarrow> only_at p fs fs'"
  by (auto simp: mark_executable_def only_at_def split: if_splits sum.splits option.splits)

lemma mark_executable_data:
  "mark_executable h a p fs = (r, fs') \<Longrightarrow> map_option fl_data (fs' p) = map_option fl_data (fs p)"
  by (auto simp: mark_executable_def split: if_splits sum.splits option.splits)

text \<open>Writing the library where there is no sentinel, and the sentinel where the library is good.\<close>

lemma cache_ok_lib_written:
  assumes "cache_ok h t fs" and "fs (root @ [lib_filename t @ ''.ok'']) = None"
    and "only_at (root @ [lib_filename t]) fs fs'"
  shows "cache_ok h t fs'"
  unfolding cache_ok_def
proof (intro allI impI)
  fix r assume "fs' (r @ [lib_filename t @ ''.ok'']) \<noteq> None"
  then have some: "fs (r @ [lib_filename t @ ''.ok'']) \<noteq> None" using assms(3) by (simp add: only_at_def)
  then have "r \<noteq> root" using assms(2) by auto
  with some assms(1,3) show "\<exists>f. fs' (r @ [lib_filename t]) = Some f \<and> verified h t (fl_data f)"
    by (simp add: cache_ok_def only_at_def)
qed

lemma cache_ok_sentinel_written:
  assumes "cache_ok h t fs" and "map_option fl_data (fs (root @ [lib_filename t])) = Some data"
    and "verified h t data" and "only_at (root @ [lib_filename t @ ''.ok'']) fs fs'"
  shows "cache_ok h t fs'"
  unfolding cache_ok_def
proof (intro allI impI)
  fix r assume some: "fs' (r @ [lib_filename t @ ''.ok'']) \<noteq> None"
  show "\<exists>f. fs' (r @ [lib_filename t]) = Some f \<and> verified h t (fl_data f)"
  proof (cases "r = root")
    case True
    with assms(2-4) show ?thesis by (auto simp: only_at_def)
  next
    case False
    with some assms(1,4) show ?thesis by (simp add: cache_ok_def only_at_def)
  qed
qed

lemma store_good:
  assumes inv: "cache_ok h t fs" and no_sentinel: "fs (root @ [lib_filename t @ ''.ok'']) = None"
    and data: "verified h t data"
    and run: "store h a (root @ [lib_filename t]) (root @ [lib_filename t @ ''.ok'']) data fs = (r, fs')"
  shows "cache_ok h t fs'"
    and "r = Inr p \<Longrightarrow> p = root @ [lib_filename t] \<and> fs' (root @ [lib_filename t @ ''.ok'']) \<noteq> None"
    and "r = Inl e \<Longrightarrow> \<exists>x. e = Io x"
proof -
  let ?lib = "root @ [lib_filename t]" and ?ok = "root @ [lib_filename t @ ''.ok'']"
  obtain r1 fs1 where w1: "fs_write (ho_new_mode h) fs ?lib data (at_write_lib a) = (r1, fs1)" by fastforce
  obtain r2 fs2 where w2: "mark_executable h a ?lib fs1 = (r2, fs2)" by fastforce
  obtain r3 fs3 where w3: "fs_write (ho_new_mode h) fs2 ?ok [111, 107] (at_write_sentinel a) = (r3, fs3)"
    by fastforce
  note steps = fs_write_only_at [OF w1] mark_executable_only_at [OF w2] fs_write_only_at [OF w3]
  note ok1 = cache_ok_lib_written [OF inv no_sentinel steps(1)]
  note ok2 = cache_ok_lib_written [OF inv no_sentinel only_at_trans [OF steps(1,2)]]
  show "cache_ok h t fs'"
  proof (cases r1)
    case Inl
    with run w1 ok1 show ?thesis by (auto simp: store_def)
  next
    case (Inr u)
    then have "map_option fl_data (fs2 ?lib) = Some data"
      using fs_write_Inr w1 mark_executable_data [OF w2] by (cases u) metis
    from cache_ok_sentinel_written [OF ok2 this data steps(3)]
    show ?thesis using run w1 w2 w3 Inr by (auto simp: store_def simp del: fs_write.simps split: sum.splits)
  qed
  show "r = Inr p \<Longrightarrow> p = ?lib \<and> fs' ?ok \<noteq> None"
    using run w1 w2 w3 fs_write_Inr [of _ _ ?ok] by (force simp: store_def simp del: fs_write.simps split: sum.splits)
  show "r = Inl e \<Longrightarrow> \<exists>x. e = Io x"
    using run w1 w2 w3 by (auto simp: store_def simp del: fs_write.simps split: sum.splits)
qed

text \<open>One call: a hit, an error before anything is written, or a store.\<close>

definition hit :: "target \<Rightarrow> filesystem \<Rightarrow> path \<Rightarrow> bool" where
  "hit t fs root \<longleftrightarrow> fs (root @ [lib_filename t]) \<noteq> None \<and> fs (root @ [lib_filename t @ ''.ok'']) \<noteq> None"

lemma ensure_available_cases:
  assumes t: "target_for (ho_os h) (ho_arch h) = Inr t" and run: "ensure_available h a c fs = (r, fs')"
  obtains (early) e where "r = Inl e" "fs' = fs"
  | (cached) root where "cache_root h c = Inr root" "hit t fs root" "r = Inr (root @ [lib_filename t])" "fs' = fs"
  | (stored) root data where "cache_root h c = Inr root" "\<not> hit t fs root" "fetch h a t = Inr data"
      "store h a (root @ [lib_filename t]) (root @ [lib_filename t @ ''.ok'']) data fs = (r, fs')"
proof (cases "cache_root h c")
  case (Inr root)
  with run target_cases(1) [OF t] show ?thesis
    by (cases "hit t fs root"; cases "fetch h a t")
       (auto simp: ensure_available_def t cache_paths_def hit_def simp del: fs_write.simps
          split: sum.splits if_splits intro: that)
next
  case (Inl e)
  moreover have "tg_sha1 t \<noteq> []" using target_cases(1) [OF t] by auto
  ultimately show ?thesis using run that(1) [of e] by (auto simp: ensure_available_def t)
qed

lemma hit_good: "cache_ok h t fs \<Longrightarrow> hit t fs root \<longleftrightarrow> fs (root @ [lib_filename t @ ''.ok'']) \<noteq> None"
  by (auto simp: cache_ok_def hit_def)

lemma ensure_available_good:
  assumes t: "target_for (ho_os h) (ho_arch h) = Inr t" and inv: "cache_ok h t fs"
    and run: "ensure_available h a c fs = (r, fs')"
  shows "cache_ok h t fs'"
    and "r = Inr p \<Longrightarrow> \<exists>root. cache_root h c = Inr root \<and> p = root @ [lib_filename t] \<and> hit t fs' root"
    and "r = Inl e \<Longrightarrow> fs' = fs \<or> (\<exists>x. e = Io x)"
  using t run
proof (atomize (full), cases rule: ensure_available_cases)
  case (stored root data)
  with inv have miss: "fs (root @ [lib_filename t @ ''.ok'']) = None" by (simp add: hit_good)
  note good = store_good [OF inv miss fetch_verified [OF t stored(3)] stored(4)]
  from good(2,3) hit_good [OF good(1)] stored(1) good(1)
  show "cache_ok h t fs' \<and> (r = Inr p \<longrightarrow> (\<exists>root. cache_root h c = Inr root \<and> p = root @ [lib_filename t]
      \<and> hit t fs' root)) \<and> (r = Inl e \<longrightarrow> fs' = fs \<or> (\<exists>x. e = Io x))" by blast
qed (use inv in auto)

text \<open>Calls one after another, each with what it meets.\<close>

fun calls :: "host \<Rightarrow> (attempt \<times> path option) list \<Rightarrow> filesystem \<Rightarrow> filesystem" where
  "calls h [] fs = fs"
| "calls h ((a, c) # rest) fs = calls h rest (snd (ensure_available h a c fs))"

lemma calls_good:
  "target_for (ho_os h) (ho_arch h) = Inr t \<Longrightarrow> cache_ok h t fs \<Longrightarrow> cache_ok h t (calls h cs fs)"
  by (induction h cs fs rule: calls.induct) (auto intro: ensure_available_good(1) [OF _ _ prod.collapse [symmetric]])

lemma cached_call:
  assumes "target_for (ho_os h) (ho_arch h) = Inr t" and "cache_root h c = Inr root" and "hit t fs root"
    and "at_create_dir a = Inr ()"
  shows "ensure_available h a c fs = (Inr (root @ [lib_filename t]), fs)"
  using assms target_cases(1) [OF assms(1)] by (auto simp: ensure_available_def cache_paths_def hit_def)

text \<open>C39: A library that is served was verified. Starting from a cache in which every sentinel has
  its verified library beside it (an empty one, say), after any calls of \<open>ensure_available\<close>, each
  with whatever the network and the file system do to it: a call that succeeds gives the path of a
  file whose content is the unpacked form of an archive with the pinned hash; from then on a call
  for the same directory gives the same path and touches nothing, whatever the network does; and a
  call that fails has left every file as it was, unless the file system failed, and even then
  leaves no sentinel without its verified library.\<close>
theorem served_library_verified:
  assumes "target_for (ho_os h) (ho_arch h) = Inr t" and "cache_ok h t fs"
    and "ensure_available h a c (calls h cs fs) = (r, fs')"
  shows "(\<forall>p. r = Inr p \<longrightarrow> (\<exists>f. fs' p = Some f \<and> verified h t (fl_data f))
                \<and> (\<forall>b. at_create_dir b = Inr () \<longrightarrow> ensure_available h b c fs' = (Inr p, fs')))
       \<and> (\<forall>e. r = Inl e \<longrightarrow> fs' = calls h cs fs \<or> (\<exists>x. e = Io x))
       \<and> cache_ok h t fs'"
proof -
  note good = ensure_available_good [OF assms(1) calls_good [OF assms(1,2)] assms(3)]
  have "(\<exists>f. fs' p = Some f \<and> verified h t (fl_data f))
      \<and> (\<forall>b. at_create_dir b = Inr () \<longrightarrow> ensure_available h b c fs' = (Inr p, fs'))" if ok: "r = Inr p" for p
  proof -
    from good(2) [OF ok] obtain root where root: "cache_root h c = Inr root" "p = root @ [lib_filename t]"
      and "hit t fs' root" by blast
    moreover have "\<exists>f. fs' p = Some f \<and> verified h t (fl_data f)"
      using \<open>hit t fs' root\<close> good(1) unfolding root(2) hit_def cache_ok_def by blast
    ultimately show ?thesis using cached_call [OF assms(1)] by blast
  qed
  with good(1,3) show ?thesis by blast
qed

text \<open>A linux machine; the archive is three bytes and unpacks to their reverse.\<close>

definition sample_host :: host where
  "sample_host =
     \<lparr>ho_os = ''linux'', ho_arch = ''x86_64'', ho_unix = True, ho_cache_dir = Some [''/cache''], ho_new_mode = 420,
      ho_sha1 = (\<lambda>data. if data = [1, 2, 3] then
          [0x1a, 0xe7, 0x46, 0x4e, 0x33, 0xa2, 0x49, 0xc1, 0xcd, 0x0b,
           0x69, 0x98, 0xd0, 0x9f, 0x9a, 0xda, 0x59, 0x37, 0xb6, 0x4d] else []),
      ho_bunzip2 = (\<lambda>data. Inr (rev data))\<rparr>"

definition attempt_writing :: "write_outcome \<Rightarrow> attempt" where
  "attempt_writing w =
     \<lparr>at_create_dir = Inr (), at_get = (\<lambda>_. Inr (Inr [1, 2, 3])), at_write_lib = w, at_metadata = Inr (),
      at_set_permissions = Inr (), at_write_sentinel = Written\<rparr>"

definition sample_lib :: path where
  "sample_lib = [''/cache'', ''reactor-webrtc'', ''openh264'', ''2.6.0'', ''libopenh264-2.6.0-linux64.8.so'']"

definition sample_ok :: path where
  "sample_ok = [''/cache'', ''reactor-webrtc'', ''openh264'', ''2.6.0'', ''libopenh264-2.6.0-linux64.8.so.ok'']"

definition sample_target :: target where
  "sample_target = \<lparr>tg_archive_name = ''libopenh264-2.6.0-linux64.8.so.bz2'',
                    tg_sha1 = ''1ae7464e33a249c1cd0b6998d09f9ada5937b64d''\<rparr>"

lemma sample_lib_filename: "lib_filename sample_target = ''libopenh264-2.6.0-linux64.8.so''"
  unfolding lib_filename_def sample_target_def by simp

lemma sample_target_for: "target_for (ho_os sample_host) (ho_arch sample_host) = Inr sample_target"
  by (simp add: sample_host_def target_for_def sample_target_def)

lemma sample_fetch: "fetch sample_host (attempt_writing w) sample_target = Inr [3, 2, 1]"
  by (simp add: sample_host_def sample_target_def fetch_def download_def attempt_writing_def verify_sha1_def
      hex_encode_def hex_digit_def eq_ignore_ascii_case_def decompress_bz2_def)

lemma sample_call:
  "ensure_available sample_host (attempt_writing w) None fs =
     (if fs sample_lib \<noteq> None \<and> fs sample_ok \<noteq> None then (Inr sample_lib, fs)
      else store sample_host (attempt_writing w) sample_lib sample_ok [3, 2, 1] fs)"
proof -
  have "tg_sha1 sample_target \<noteq> []" "cache_root sample_host None = Inr (butlast sample_lib)"
    "at_create_dir (attempt_writing w) = Inr ()"
    "cache_paths (butlast sample_lib) (lib_filename sample_target) = (sample_lib, sample_ok)"
    by (simp_all add: cache_root_def sample_host_def sample_lib_def sample_ok_def OPENH264_VERSION_def
        attempt_writing_def cache_paths_def sample_lib_filename) (simp add: sample_target_def)
  then show ?thesis by (simp add: ensure_available_def sample_target_for sample_fetch)
qed

lemma sample_store:
  "store sample_host (attempt_writing Written) sample_lib sample_ok [3, 2, 1] Map.empty
     = (Inr sample_lib, [sample_lib \<mapsto> \<lparr>fl_data = [3, 2, 1], fl_mode = 420 OR 73\<rparr>,
                         sample_ok \<mapsto> \<lparr>fl_data = [111, 107], fl_mode = 420\<rparr>])"
  by (simp add: store_def mark_executable_def attempt_writing_def sample_host_def sample_lib_def sample_ok_def)

text \<open>The first call cannot open the file, the second one installs.\<close>

lemma served_library_verified_witness:
  "ensure_available sample_host (attempt_writing Written) None
       (calls sample_host [(attempt_writing (Failed ''no space'' None), None)] Map.empty)
     = (Inr sample_lib, [sample_lib \<mapsto> \<lparr>fl_data = [3, 2, 1], fl_mode = 420 OR 73\<rparr>,
                         sample_ok \<mapsto> \<lparr>fl_data = [111, 107], fl_mode = 420\<rparr>])
   \<and> verified sample_host sample_target [3, 2, 1]"
proof -
  let ?fs = "[sample_lib \<mapsto> \<lparr>fl_data = [3, 2, 1], fl_mode = 420 OR 73\<rparr>,
              sample_ok \<mapsto> \<lparr>fl_data = [111, 107], fl_mode = 420\<rparr>] :: filesystem"
  have "calls sample_host [(attempt_writing (Failed ''no space'' None), None)] Map.empty = Map.empty"
    by (simp add: sample_call store_def) (simp add: attempt_writing_def)
  then have run: "ensure_available sample_host (attempt_writing Written) None
       (calls sample_host [(attempt_writing (Failed ''no space'' None), None)] Map.empty) = (Inr sample_lib, ?fs)"
    by (simp add: sample_call sample_store)
  have "cache_ok sample_host sample_target Map.empty" by (simp add: cache_ok_def)
  from served_library_verified [OF sample_target_for this run]
  have "verified sample_host sample_target [3, 2, 1]" by (auto simp: sample_lib_def sample_ok_def)
  with run show ?thesis by simp
qed

text \<open>
  The hypothesis on the cache is needed. When the library was deleted and its sentinel left, a
  write that fails half way leaves a cut library beside the old sentinel, which the next call
  serves without a check.
\<close>

lemma stale_sentinel_serves_cut_library:
  "let fs = [sample_ok \<mapsto> \<lparr>fl_data = [111, 107], fl_mode = 420\<rparr>];
       fs1 = calls sample_host [(attempt_writing (Failed ''no space'' (Some 1)), None)] fs
   in ensure_available sample_host (attempt_writing Written) None fs1 = (Inr sample_lib, fs1)
      \<and> map_option fl_data (fs1 sample_lib) = Some [3]"
proof -
  have "sample_lib \<noteq> sample_ok" by (simp add: sample_lib_def sample_ok_def)
  then show ?thesis by (simp add: Let_def sample_call store_def) (simp add: attempt_writing_def)
qed

end
