(* ===== verification/Py_Values.thy ===== *)
theory Py_Values
  imports Media Session_Description Rtc_Config
begin

text \<open>
  The values of the Python bindings (\<open>crates/reactor-webrtc-py/src/lib.rs\<close>): exceptions, the
  named choices, the connection's configuration and session descriptions, with their conversions to and
  from the crate's types. An exception's text is a formatted message or the \<open>Display\<close> of a crate
  error. A \<open>i32\<close> is an integer.
\<close>

section \<open>Exceptions\<close>

datatype py_text = Said message | Shown error

datatype py_error =
    PyRuntimeError py_text
  | PyValueError py_text
  | PyTypeError py_text
  | DataChannelQueueFull py_text
  | DataChannelMessageTooLarge py_text

definition py_err :: "error \<Rightarrow> py_error" where
  "py_err e =
     (case e of
        DataChannel (QueueFull _ _ _) \<Rightarrow> DataChannelQueueFull (Shown e)
      | DataChannel (TooLarge _ _) \<Rightarrow> DataChannelMessageTooLarge (Shown e)
      | _ \<Rightarrow> PyRuntimeError (Shown e))"

section \<open>Named choices\<close>

definition py_pixel_format :: "string \<Rightarrow> py_error + pixel_format" where
  "py_pixel_format format =
     (let lower = map to_ascii_lowercase format in
      if lower = ''bgra'' then Inr Bgra
      else if lower = ''rgb24'' then Inr Rgb24
      else Inl (PyValueError (Said (Fmt ''unknown pixel format {format:?}: expected \"bgra\" or \"rgb24\"''
                  [AStr format]))))"

fun sdp_type_to_str :: "sdp_type \<Rightarrow> string" where
  "sdp_type_to_str Offer = ''offer''"
| "sdp_type_to_str PrAnswer = ''pranswer''"
| "sdp_type_to_str Answer = ''answer''"
| "sdp_type_to_str Rollback = ''rollback''"

definition parse_sdp_type :: "string \<Rightarrow> sdp_type option" where
  "parse_sdp_type s =
     (if s = ''offer'' then Some Offer
      else if s = ''pranswer'' then Some PrAnswer
      else if s = ''answer'' then Some Answer
      else if s = ''rollback'' then Some Rollback
      else None)"

definition ICE_TRANSPORT_TYPES :: string where "ICE_TRANSPORT_TYPES = ''all, relay, no_host, none''"
definition GATHERING_POLICIES :: string where "GATHERING_POLICIES = ''once, continually''"

fun ice_transport_type_to_str :: "ice_transports_type \<Rightarrow> string" where
  "ice_transport_type_to_str AllTransports = ''all''"
| "ice_transport_type_to_str RelayOnly = ''relay''"
| "ice_transport_type_to_str NoHost = ''no_host''"
| "ice_transport_type_to_str NoTransports = ''none''"

definition parse_ice_transport_type :: "string \<Rightarrow> py_error + ice_transports_type" where
  "parse_ice_transport_type s =
     (if s = ''all'' then Inr AllTransports
      else if s = ''relay'' then Inr RelayOnly
      else if s = ''no_host'' then Inr NoHost
      else if s = ''none'' then Inr NoTransports
      else Inl (PyValueError (Said (Fmt ''unknown ice_transport_type {other:?}; use one of: {ICE_TRANSPORT_TYPES}''
                  [AStr s, AStr ICE_TRANSPORT_TYPES]))))"

fun gathering_policy_to_str :: "continual_gathering_policy \<Rightarrow> string" where
  "gathering_policy_to_str GatherOnce = ''once''"
| "gathering_policy_to_str GatherContinually = ''continually''"

definition parse_gathering_policy :: "string \<Rightarrow> py_error + continual_gathering_policy" where
  "parse_gathering_policy s =
     (if s = ''once'' then Inr GatherOnce
      else if s = ''continually'' then Inr GatherContinually
      else Inl (PyValueError (Said (Fmt
             ''unknown continual_gathering_policy {other:?}; use one of: {GATHERING_POLICIES}''
             [AStr s, AStr GATHERING_POLICIES]))))"

section \<open>The configuration\<close>

text \<open>Python's own struct: absent ports and intervals are 0. Its server entries and enumerations
  have the constructors of the crate's.\<close>

record py_configuration =
  cf_servers :: "ice_server list"
  cf_transport_type :: ice_transports_type
  cf_gathering_policy :: continual_gathering_policy
  cf_min_port :: u16
  cf_max_port :: u16
  cf_bundle :: bundle_policy
  cf_receiving_timeout_ms :: int
  cf_check_interval_ms :: int
  cf_tcp_policy :: tcp_candidate_policy
  cf_metadata :: bool
  cf_snap :: bool
  cf_chunking :: bool

definition py_configuration_new ::
  "ice_server list \<Rightarrow> string \<Rightarrow> string \<Rightarrow> u16 \<Rightarrow> u16 \<Rightarrow> bundle_policy \<Rightarrow> int \<Rightarrow> int \<Rightarrow> tcp_candidate_policy
     \<Rightarrow> bool \<Rightarrow> bool \<Rightarrow> bool \<Rightarrow> py_error + py_configuration" where
  "py_configuration_new ice_servers ice_transport_type gathering min_port max_port bundle timeout interval tcp
       frame_metadata sctp_snap dc_chunking =
     res_bind (parse_ice_transport_type ice_transport_type) (\<lambda>transport.
     res_bind (parse_gathering_policy gathering) (\<lambda>policy.
     Inr \<lparr>cf_servers = ice_servers, cf_transport_type = transport, cf_gathering_policy = policy,
          cf_min_port = min_port, cf_max_port = max_port, cf_bundle = bundle,
          cf_receiving_timeout_ms = timeout, cf_check_interval_ms = interval, cf_tcp_policy = tcp,
          cf_metadata = frame_metadata, cf_snap = sctp_snap, cf_chunking = dc_chunking\<rparr>))"

text \<open>The setters of the two named choices; a refused name leaves the configuration as it was.\<close>

definition set_ice_transport_type :: "py_configuration \<Rightarrow> string \<Rightarrow> (py_error + unit) \<times> py_configuration" where
  "set_ice_transport_type c s =
     (case parse_ice_transport_type s of Inl e \<Rightarrow> (Inl e, c) | Inr t \<Rightarrow> (Inr (), c\<lparr>cf_transport_type := t\<rparr>))"

definition set_continual_gathering_policy ::
  "py_configuration \<Rightarrow> string \<Rightarrow> (py_error + unit) \<times> py_configuration" where
  "set_continual_gathering_policy c s =
     (case parse_gathering_policy s of Inl e \<Rightarrow> (Inl e, c) | Inr p \<Rightarrow> (Inr (), c\<lparr>cf_gathering_policy := p\<rparr>))"

definition configuration_from_py :: "py_configuration \<Rightarrow> rtc_configuration" where
  "configuration_from_py c =
     \<lparr>rc_ice_servers = cf_servers c,
      rc_continual_gathering_policy = cf_gathering_policy c,
      rc_ice_transport_type = cf_transport_type c,
      rc_min_port = (if cf_min_port c > 0 then Some (cf_min_port c) else None),
      rc_max_port = (if cf_max_port c > 0 then Some (cf_max_port c) else None),
      rc_bundle_policy = cf_bundle c,
      rc_ice_connection_receiving_timeout_ms =
        (if cf_receiving_timeout_ms c > 0 then Some (cf_receiving_timeout_ms c) else None),
      rc_ice_check_interval_strong_connectivity_ms =
        (if cf_check_interval_ms c > 0 then Some (cf_check_interval_ms c) else None),
      rc_tcp_candidate_policy = cf_tcp_policy c,
      rc_frame_metadata = cf_metadata c,
      rc_sctp_snap = cf_snap c,
      rc_dc_chunking = cf_chunking c\<rparr>"

section \<open>Session descriptions\<close>

record py_description =
  py_kind :: string
  py_sdp :: string

definition description_to_py :: "session_description \<Rightarrow> py_description" where
  "description_to_py s = \<lparr>py_kind = sdp_type_to_str (sd_kind s), py_sdp = sd_sdp s\<rparr>"

definition to_rust_sdp :: "py_description \<Rightarrow> py_error + session_description" where
  "to_rust_sdp s =
     (case parse_sdp_type (py_kind s) of
        None \<Rightarrow> Inl (PyRuntimeError (Said (Fmt ''unknown SDP kind: {}'' [AStr (py_kind s)])))
      | Some kind \<Rightarrow> Inr \<lparr>sd_kind = kind, sd_sdp = py_sdp s\<rparr>)"

definition as_rust_for_reading :: "py_description \<Rightarrow> session_description" where
  "as_rust_for_reading s = \<lparr>sd_kind = Offer, sd_sdp = py_sdp s\<rparr>"

definition py_ice_ufrags :: "py_description \<Rightarrow> string list" where
  "py_ice_ufrags s = ice_ufrags (as_rust_for_reading s)"

definition py_with_ice_credentials :: "py_description \<Rightarrow> string \<Rightarrow> string \<Rightarrow> py_error + py_description" where
  "py_with_ice_credentials s ufrag pwd =
     res_bind (to_rust_sdp s) (\<lambda>rust.
     res_bind (map_err (\<lambda>e. PyRuntimeError (Shown e)) (with_ice_credentials rust ufrag pwd)) (\<lambda>out.
     Inr (description_to_py out)))"

definition py_declares_frame_metadata :: "py_description \<Rightarrow> bool" where
  "py_declares_frame_metadata s = declares_frame_metadata (as_rust_for_reading s)"

definition py_with_frame_metadata :: "py_description \<Rightarrow> py_description" where
  "py_with_frame_metadata s =
     \<lparr>py_kind = py_kind s, py_sdp = sd_sdp (with_frame_metadata (as_rust_for_reading s))\<rparr>"

section \<open>What survives the conversions\<close>

lemma parse_sdp_type_iff: "parse_sdp_type s = Some k \<longleftrightarrow> s = sdp_type_to_str k"
  by (cases k) (auto simp: parse_sdp_type_def)

lemma sdp_type_to_str_simps [simp]:
  "parse_sdp_type (sdp_type_to_str k) = Some k" "sdp_type_to_str j = sdp_type_to_str k \<longleftrightarrow> j = k"
  using parse_sdp_type_iff [of "sdp_type_to_str k"] by (auto, metis option.inject)

lemma parse_ice_transport_type_iff: "parse_ice_transport_type s = Inr t \<longleftrightarrow> s = ice_transport_type_to_str t"
  by (cases t) (auto simp: parse_ice_transport_type_def)

lemma parse_gathering_policy_iff: "parse_gathering_policy s = Inr p \<longleftrightarrow> s = gathering_policy_to_str p"
  by (cases p) (auto simp: parse_gathering_policy_def)

text \<open>Descriptions cross in both directions unchanged; only an unknown kind is refused.\<close>

lemma to_rust_sdp_iff: "to_rust_sdp s = Inr d \<longleftrightarrow> s = description_to_py d"
  by (cases s; cases d)
     (auto simp: to_rust_sdp_def description_to_py_def parse_sdp_type_iff split: option.splits)

text \<open>Declaring the capability keeps the kind of the caller, known or not, and is then read back.\<close>

lemma py_with_frame_metadata_declares:
  "py_kind (py_with_frame_metadata s) = py_kind s \<and>
   (str_lines (py_sdp s) \<noteq> [] \<longrightarrow> py_declares_frame_metadata (py_with_frame_metadata s))"
  using declares_with_frame_metadata [of "as_rust_for_reading s"]
  by (simp add: py_with_frame_metadata_def py_declares_frame_metadata_def as_rust_for_reading_def fm_declares_sd)

text \<open>Substituting credentials through Python is substituting them in the crate.\<close>

lemma py_with_ice_credentials_iff:
  "py_with_ice_credentials (description_to_py d) u p = Inr s \<longleftrightarrow>
     (\<exists>d'. with_ice_credentials d u p = Inr d' \<and> s = description_to_py d')"
  using to_rust_sdp_iff [of "description_to_py d" d]
  by (cases "with_ice_credentials d u p") (auto simp: py_with_ice_credentials_def)

text \<open>A port range of two zeros and a zero or negative interval are unset; a range with one zero is
  half open and refused.\<close>

lemma py_port_range:
  "port_range (rc_min_port (configuration_from_py c)) (rc_max_port (configuration_from_py c)) = Inr (lo, hi)
     \<Longrightarrow> (lo, hi) = (int (unat (cf_min_port c)), int (unat (cf_max_port c)))"
  by (auto simp: port_range_def configuration_from_py_def word_gt_0 split: if_splits)

lemma python_configuration_reaches_native:
  assumes "to_native (configuration_from_py c) = Inr n"
  shows "nc_min_port n = int (unat (cf_min_port c)) \<and> nc_max_port n = int (unat (cf_max_port c))
    \<and> nc_ice_connection_receiving_timeout_ms n
        = (if cf_receiving_timeout_ms c > 0 then cf_receiving_timeout_ms c else - 1)
    \<and> nc_ice_check_interval_strong_connectivity_ms n
        = (if cf_check_interval_ms c > 0 then cf_check_interval_ms c else - 1)
    \<and> ice_transport_type_to_str (cf_transport_type c)
        = [''all'', ''relay'', ''no_host'', ''none''] ! nat (nc_ice_transport_type n)
    \<and> gathering_policy_to_str (cf_gathering_policy c)
        = [''once'', ''continually''] ! nat (nc_continual_gathering_policy n)"
proof -
  from assms obtain lo hi where range:
    "port_range (rc_min_port (configuration_from_py c)) (rc_max_port (configuration_from_py c)) = Inr (lo, hi)"
    and n: "nc_min_port n = lo" "nc_max_port n = hi"
      "nc_ice_connection_receiving_timeout_ms n
         = (if cf_receiving_timeout_ms c > 0 then cf_receiving_timeout_ms c else - 1)"
      "nc_ice_check_interval_strong_connectivity_ms n
         = (if cf_check_interval_ms c > 0 then cf_check_interval_ms c else - 1)"
      "nc_ice_transport_type n = transports_to_wire (cf_transport_type c)"
      "nc_continual_gathering_policy n = gathering_to_wire (cf_gathering_policy c)"
    by (auto simp: to_native_def res_bind_eq_Inr) (simp add: configuration_from_py_def)
  from py_port_range [OF range] n show ?thesis
    by (cases "cf_transport_type c"; cases "cf_gathering_policy c") simp_all
qed

end
