(* ===== verification/Py_Track.thy ===== *)
theory Py_Track
  imports Py_Values Encoder_Registry Media_Props
begin

text \<open>
  Tracks and frames in the Python bindings (\<open>crates/reactor-webrtc-py/src/lib.rs\<close>): pushing
  video and PCM, what the frame callbacks are given, the wrapper around a frame-transform callback
  and around an inline encoder, and the hand-off totals. A Python callback is what its call gives:
  an exception or a value. The GIL is the order of the calls. Allocating a Python object does not
  fail, seconds as floats are their nanoseconds.
\<close>

section \<open>Tracks\<close>

text \<open>\<open>pt_inner\<close> is None once the object was dropped; the native track has its kind.\<close>

record handoff_sums =
  hs_convert_ns :: nat
  hs_handoff_ns :: nat
  hs_count :: nat

definition handoff_default :: handoff_sums where
  "handoff_default = \<lparr>hs_convert_ns = 0, hs_handoff_ns = 0, hs_count = 0\<rparr>"

text \<open>The elapsed times are in nanoseconds, of any size; the count is an \<open>u64\<close> that is never near
  its end.\<close>

definition handoff_add :: "nat \<Rightarrow> nat \<Rightarrow> handoff_sums \<Rightarrow> handoff_sums" where
  "handoff_add convert elapsed s =
     (let ns = (\<lambda>d. min d U64_MAX) in
      \<lparr>hs_convert_ns = min (hs_convert_ns s + ns convert) U64_MAX,
       hs_handoff_ns = min (hs_handoff_ns s + ns elapsed) U64_MAX,
       hs_count = hs_count s + 1\<rparr>)"

record py_track =
  pt_inner :: "track option"
  pt_handoff :: handoff_sums

definition from_native :: "track \<Rightarrow> py_track" where
  "from_native t = \<lparr>pt_inner = Some t, pt_handoff = handoff_default\<rparr>"

definition py_video :: "py_track \<Rightarrow> py_error + track" where
  "py_video t =
     (case pt_inner t of
        Some n \<Rightarrow> if tk_kind n = Video then Inr n
                  else Inl (PyRuntimeError (Said (Text ''track is an audio track'')))
      | None \<Rightarrow> Inl (PyRuntimeError (Said (Text ''Track used after being dropped''))))"

definition py_audio :: "py_track \<Rightarrow> py_error + track" where
  "py_audio t =
     (case pt_inner t of
        Some n \<Rightarrow> if tk_kind n = Audio then Inr n
                  else Inl (PyRuntimeError (Said (Text ''track is a video track'')))
      | None \<Rightarrow> Inl (PyRuntimeError (Said (Text ''Track used after being dropped''))))"

definition py_track_kind :: "py_track \<Rightarrow> py_error + media_kind" where
  "py_track_kind t =
     (case pt_inner t of
        Some n \<Rightarrow> Inr (tk_kind n)
      | None \<Rightarrow> Inl (PyRuntimeError (Said (Text ''Track used after being dropped''))))"

section \<open>Pushing\<close>

definition put_inner :: "py_track \<Rightarrow> unit result \<times> track \<Rightarrow> (py_error + unit) \<times> py_track" where
  "put_inner t r = (map_err py_err (fst r), t\<lparr>pt_inner := Some (snd r)\<rparr>)"

definition expected_bytes :: "u32 \<Rightarrow> u32 \<Rightarrow> nat \<Rightarrow> py_error + nat" where
  "expected_bytes width height bpp =
     (case Option.bind (checked_mul (unat width) (unat height)) (\<lambda>n. checked_mul n bpp) of
        Some n \<Rightarrow> Inr n
      | None \<Rightarrow> Inl (PyRuntimeError (Said (Fmt ''frame dimensions overflow: {width}x{height}x{bpp} exceeds usize''
                  [ANat (unat width), ANat (unat height), ANat bpp]))))"

definition check_pixels :: "bytes \<Rightarrow> u32 \<Rightarrow> u32 \<Rightarrow> nat \<Rightarrow> py_error + unit" where
  "check_pixels pixels width height bpp =
     res_bind (expected_bytes width height bpp) (\<lambda>expected.
       if length pixels < expected
       then Inl (PyRuntimeError (Said (Fmt
              ''pixel buffer too short: need {expected} bytes for {width}x{height}, got {}''
              [ANat expected, ANat (unat width), ANat (unat height), ANat (length pixels)])))
       else Inr ())"

definition py_push_video_frame ::
  "py_track \<Rightarrow> int \<Rightarrow> bytes \<Rightarrow> u32 \<Rightarrow> u32 \<Rightarrow> bytes option \<Rightarrow> int option \<Rightarrow> string \<Rightarrow> (py_error + unit) \<times> py_track" where
  "py_push_video_frame t now pixels width height user_data capture_time_us format =
     (case res_bind (py_pixel_format format) (\<lambda>format.
           res_bind (check_pixels pixels width height (bytes_per_pixel format)) (\<lambda>_.
           res_bind (py_video t) (\<lambda>native. Inr (format, native)))) of
        Inl e \<Rightarrow> (Inl e, t)
      | Inr (format, native) \<Rightarrow>
          (let frame = with_format (vf_new pixels width height) format in
           put_inner t
             (case (user_data, capture_time_us) of
                (Some ud, Some us) \<Rightarrow> vt_push_frame_with_metadata_at native now frame ud us
              | (Some ud, None) \<Rightarrow> vt_push_frame_with_metadata native now frame ud
              | (None, Some us) \<Rightarrow> vt_push_frame_at native now frame us
              | (None, None) \<Rightarrow> vt_push_frame native now frame)))"

text \<open>\<open>i16::from_le_bytes\<close> and \<open>to_le_bytes\<close>; \<open>chunks_exact(2)\<close> leaves a last odd byte.\<close>

fun samples_of :: "bytes \<Rightarrow> 16 word list" where
  "samples_of (lo # hi # rest) = (ucast lo OR push_bit 8 (ucast hi)) # samples_of rest"
| "samples_of _ = []"

definition bytes_of :: "16 word list \<Rightarrow> bytes" where
  "bytes_of pcm = concat (map (\<lambda>s. [ucast s, ucast (drop_bit 8 s)]) pcm)"

definition odd_pcm :: py_error where
  "odd_pcm = PyRuntimeError (Said (Text ''pcm byte length must be even''))"

definition py_push_pcm ::
  "py_track \<Rightarrow> bytes \<Rightarrow> u32 \<Rightarrow> u32 \<Rightarrow> int option \<Rightarrow> (py_error + unit) \<times> py_track" where
  "py_push_pcm t pcm sample_rate channels capture_time_us =
     (if length pcm mod 2 \<noteq> 0 then (Inl odd_pcm, t)
      else case py_audio t of
        Inl e \<Rightarrow> (Inl e, t)
      | Inr native \<Rightarrow>
          (let frame = af_new (samples_of pcm) sample_rate channels in
           put_inner t
             (case capture_time_us of
                Some us \<Rightarrow> at_push_frame_at native frame us
              | None \<Rightarrow> at_push_frame native frame)))"

text \<open>The arguments of an audio callback.\<close>

definition audio_callback_args :: "audio_frame \<Rightarrow> bytes \<times> u32 \<times> u32 \<times> u32" where
  "audio_callback_args f = (bytes_of (af_pcm f), af_sample_rate f, af_channels f, af_frames f)"

section \<open>Video callbacks\<close>

text \<open>What a call of the callback gives, and the calls made for one frame: the metadata argument, if
  there is one. Without metadata a failed call is repeated with three arguments.\<close>

datatype callback_args =
    WithMeta bytes u32 u32 frame_metadata
  | WithNone bytes u32 u32
  | Legacy bytes u32 u32

definition video_callback :: "(callback_args \<Rightarrow> bool) \<Rightarrow> video_frame \<Rightarrow> callback_args list" where
  "video_callback succeeds f =
     (case vf_metadata f of
        Some m \<Rightarrow> [WithMeta (vf_pixels f) (vf_width f) (vf_height f) m]
      | None \<Rightarrow>
          (let first = WithNone (vf_pixels f) (vf_width f) (vf_height f) in
           first # (if \<not> succeeds first then [Legacy (vf_pixels f) (vf_width f) (vf_height f)] else [])))"

section \<open>Frame transforms\<close>

record py_encoded_frame =
  pe_data :: bytes
  pe_is_key_frame :: bool
  pe_ssrc :: u32
  pe_timestamp :: u32
  pe_capture_time_ms :: int

datatype action_value = Raised | ReturnedAction frame_action | ReturnedOther

text \<open>The caller's code: the replacement payload it set, if any, and what its call gave.\<close>

type_synonym py_transform = "py_encoded_frame \<Rightarrow> bytes option \<times> action_value"

definition frame_snapshot :: "encoded_frame \<Rightarrow> py_encoded_frame" where
  "frame_snapshot f =
     \<lparr>pe_data = ef_data f, pe_is_key_frame = ef_is_key_frame f, pe_ssrc = ef_ssrc f,
      pe_timestamp = ef_timestamp f, pe_capture_time_ms = ef_capture_time_ms f\<rparr>"

definition frame_transform_new :: "py_transform \<Rightarrow> encoded_cb" where
  "frame_transform_new cb f =
     (let (replacement, r) = cb (frame_snapshot f);
          action = (case r of ReturnedAction a \<Rightarrow> a | _ \<Rightarrow> Forward)
      in (action, case replacement of Some new_data \<Rightarrow> replace_data f new_data | None \<Rightarrow> f))"

section \<open>Inline encoders\<close>

text \<open>What an inline encoder's call gives; of a tuple, its items and the truth of the second, whose
  test may itself raise.\<close>

datatype py_object = PyNone | PyBytes bytes | PyPair py_object "bool option" | PyOther

record raw_frame_info =
  ri_codec :: video_codec
  ri_width :: u32
  ri_height :: u32
  ri_rtp_timestamp :: u32
  ri_request_key_frame :: bool
  ri_y :: bytes
  ri_u :: bytes
  ri_v :: bytes

definition raw_info :: "raw_video_frame \<Rightarrow> raw_frame_info" where
  "raw_info raw =
     \<lparr>ri_codec = rv_codec raw, ri_width = rv_width raw, ri_height = rv_height raw,
      ri_rtp_timestamp = rv_rtp_timestamp raw, ri_request_key_frame = rv_request_key_frame raw,
      ri_y = rv_y raw, ri_u = rv_u raw, ri_v = rv_v raw\<rparr>"

definition inline_frame :: "raw_video_frame \<Rightarrow> bytes \<Rightarrow> bool \<Rightarrow> encoded_video_frame" where
  "inline_frame raw data is_key =
     \<lparr>vd_data = data, vd_is_key_frame = is_key, vd_width = 0, vd_height = 0,
      vd_rtp_timestamp = rv_rtp_timestamp raw\<rparr>"

definition inline_encoder :: "(raw_frame_info \<Rightarrow> py_object option) \<Rightarrow> raw_video_frame \<Rightarrow> encoded_video_frame option" where
  "inline_encoder cb raw =
     (case cb (raw_info raw) of
        None \<Rightarrow> None
      | Some PyNone \<Rightarrow> None
      | Some (PyBytes data) \<Rightarrow> Some (inline_frame raw data (rv_request_key_frame raw))
      | Some (PyPair (PyBytes data) truth) \<Rightarrow>
          Some (inline_frame raw data (case truth of Some b \<Rightarrow> b | None \<Rightarrow> False))
      | Some _ \<Rightarrow> None)"

section \<open>Samples\<close>

lemma bits_of_sample [simp]:
  fixes lo hi :: u8
  defines "s \<equiv> ucast lo OR push_bit 8 (ucast hi) :: 16 word"
  shows "ucast s = lo" "ucast (drop_bit 8 s) = hi"
  by (rule bit_word_eqI, auto simp: s_def bit_simps)+

lemma sample_of_bits: "ucast (ucast s :: u8) OR push_bit 8 (ucast (ucast (drop_bit 8 s) :: u8)) = (s :: 16 word)"
  by (rule bit_word_eqI) (auto simp: bit_simps)

lemma bytes_of_simps [simp]: "bytes_of [] = []" "bytes_of (s # pcm) = ucast s # ucast (drop_bit 8 s) # bytes_of pcm"
  by (simp_all add: bytes_of_def)

lemma samples_of_bytes_of [simp]: "samples_of (bytes_of pcm) = pcm"
  by (induction pcm) (simp_all add: sample_of_bits)

lemma bytes_of_samples_of: "length b mod 2 = 0 \<Longrightarrow> bytes_of (samples_of b) = b"
  by (induction b rule: samples_of.induct) (simp_all del: drop_bit_or)

lemma length_samples_of [simp]: "length (samples_of b) = length b div 2"
  by (induction b rule: samples_of.induct) auto

lemma length_bytes_of [simp]: "length (bytes_of pcm) = 2 * length pcm"
  by (induction pcm) auto

text \<open>What an audio callback receives, pushed into another track, is the same audio.\<close>

lemma received_audio_pushes_back:
  assumes "audio_callback_args f = (b, rate, channels, frames)"
  shows "length b mod 2 = 0 \<and> samples_of b = af_pcm f \<and> rate = af_sample_rate f \<and> channels = af_channels f"
  using assms by (auto simp: audio_callback_args_def)

section \<open>Callbacks\<close>

text \<open>A callback that fails for whatever reason, and takes three arguments as well, is called twice.\<close>

lemma failing_callback_called_twice:
  assumes "vf_metadata f = None" and "\<not> succeeds (WithNone (vf_pixels f) (vf_width f) (vf_height f))"
  shows "video_callback succeeds f
     = [WithNone (vf_pixels f) (vf_width f) (vf_height f), Legacy (vf_pixels f) (vf_width f) (vf_height f)]"
  using assms by (simp add: video_callback_def)

text \<open>An exception in a transform forwards the frame, with the payload set before it.\<close>

lemma raising_transform_forwards:
  "cb (frame_snapshot f) = (replacement, Raised) \<Longrightarrow>
   frame_transform_new cb f = (Forward, case replacement of Some d \<Rightarrow> replace_data f d | None \<Rightarrow> f)"
  by (simp add: frame_transform_new_def)

lemma handoff_bounded:
  "hs_convert_ns (handoff_add c e s) \<le> U64_MAX \<and> hs_handoff_ns (handoff_add c e s) \<le> U64_MAX"
  by (simp add: handoff_add_def Let_def)

section \<open>Which pushes reach the crate\<close>

text \<open>The crate's push a Python push makes.\<close>

definition crate_push :: "track \<Rightarrow> int \<Rightarrow> video_frame \<Rightarrow> bytes option \<Rightarrow> int option \<Rightarrow> unit result \<times> track" where
  "crate_push n now f user_data us =
     (case (user_data, us) of
        (Some ud, Some us) \<Rightarrow> vt_push_frame_with_metadata_at n now f ud us
      | (Some ud, None) \<Rightarrow> vt_push_frame_with_metadata n now f ud
      | (None, Some us) \<Rightarrow> vt_push_frame_at n now f us
      | (None, None) \<Rightarrow> vt_push_frame n now f)"

definition push_buffer :: "native_push \<Rightarrow> bytes" where
  "push_buffer p =
     (case p of PushNow b _ _ \<Rightarrow> b | PushTs b _ _ _ \<Rightarrow> b | PushFormatTs b _ _ _ _ \<Rightarrow> b | PushPcmTs _ _ _ _ _ \<Rightarrow> [])"

lemma push_unmarked_native:
  assumes "tk_kind n = Video"
  shows "\<exists>p. tk_native (push_unmarked n now f us) = tk_native n @ [p] \<and> push_buffer p = vf_pixels f"
  using push_unmarked_video [OF assms]
  by (auto simp: native_push_def plain_push_def push_buffer_def split: pixel_format.split option.split)

lemma push_metadata_native:
  assumes "tk_kind n = Video"
  shows "\<exists>p. tk_native (push_metadata_frame n now b w h ud us pf) = tk_native n @ [p] \<and> push_buffer p = b"
  using assms
  by (simp add: push_metadata_frame_def push_pixels_ts_def insert_sender_meta_def next_frame_id_def
      alloc_send_capture_us_def next_unique_capture_ms_def native_push_def push_buffer_def Let_def split_def)

lemma crate_push_cases:
  assumes "tk_kind n = Video"
  shows "(fst (crate_push n now f ud us) = Inr () \<longleftrightarrow> \<not> tk_is_remote n \<and> check_frame f = Inr ())
    \<and> (fst (crate_push n now f ud us) = Inr () \<longrightarrow>
         (\<exists>p. tk_native (snd (crate_push n now f ud us)) = tk_native n @ [p] \<and> push_buffer p = vf_pixels f))
    \<and> (fst (crate_push n now f ud us) \<noteq> Inr () \<longrightarrow> snd (crate_push n now f ud us) = n)"
proof -
  have "crate_push n now f ud us = checked n f (if ud \<noteq> None \<and> tk_metadata_enabled n
      then push_metadata_frame n now (vf_pixels f) (vf_width f) (vf_height f) (the ud) us (pf_raw (vf_format f))
      else push_unmarked n now f us)"
    by (simp add: crate_push_def vt_push_frame_with_metadata_at_def vt_push_frame_with_metadata_def
        vt_push_frame_at_def vt_push_frame_def push_with_metadata_def split: option.split)
  then show ?thesis
    using push_unmarked_native [OF assms] push_metadata_native [OF assms]
    by (simp add: checked_def guard_remote_def split: sum.split)
qed

text \<open>Pushing video from Python. A push succeeds exactly when the format is known, the object
  still has its native video track, the track is local, the size is not zero, and the buffer holds
  width times height pixels of the format, computed without overflow; the native track then gets
  exactly one push, with the caller's buffer. A push that fails raises and leaves the track as it
  was.\<close>
theorem python_pushes_checked:
  "(fst (py_push_video_frame t now pixels w h ud us format) = Inr () \<longleftrightarrow>
      (\<exists>pf n. py_pixel_format format = Inr pf \<and> pt_inner t = Some n \<and> tk_kind n = Video \<and> \<not> tk_is_remote n
         \<and> w \<noteq> 0 \<and> h \<noteq> 0 \<and> unat w * unat h * bytes_per_pixel pf < 2 ^ 64
         \<and> unat w * unat h * bytes_per_pixel pf \<le> length pixels))
   \<and> (fst (py_push_video_frame t now pixels w h ud us format) = Inr () \<longrightarrow>
      (\<exists>n n' p. pt_inner t = Some n
         \<and> snd (py_push_video_frame t now pixels w h ud us format) = t\<lparr>pt_inner := Some n'\<rparr>
         \<and> tk_native n' = tk_native n @ [p] \<and> push_buffer p = pixels))
   \<and> (fst (py_push_video_frame t now pixels w h ud us format) \<noteq> Inr () \<longrightarrow>
      snd (py_push_video_frame t now pixels w h ud us format) = t)"
proof (cases "py_pixel_format format")
  case (Inr pf)
  define f where "f = with_format (vf_new pixels w h) pf"
  have f: "vf_pixels f = pixels" "vf_width f = w" "vf_height f = h" "vf_format f = pf"
    by (simp_all add: f_def with_format_def vf_new_def)
  let ?need = "unat w * unat h * bytes_per_pixel pf"
  have ok: "check_frame f = Inr () \<longleftrightarrow> w \<noteq> 0 \<and> h \<noteq> 0 \<and> ?need < 2 ^ 64 \<and> ?need \<le> length pixels"
    by (simp add: check_frame_ok frame_bytes_def f)
  show ?thesis
  proof (cases "?need < 2 ^ 64 \<and> ?need \<le> length pixels \<and> (\<exists>n. py_video t = Inr n)")
    case True
    then obtain n where n: "pt_inner t = Some n" "tk_kind n = Video" "py_video t = Inr n"
      by (auto simp: py_video_def split: option.splits if_splits)
    have "py_push_video_frame t now pixels w h ud us format = put_inner t (crate_push n now f ud us)"
      using True n Inr by (simp add: py_push_video_frame_def check_pixels_def expected_bytes_def checked_size
          crate_push_def f_def Let_def)
    moreover have "t\<lparr>pt_inner := Some n\<rparr> = t" using n(1) by (cases t) simp
    ultimately show ?thesis
      using crate_push_cases [OF n(2), of now f ud us] n Inr True ok f
      by (cases "fst (crate_push n now f ud us)") (auto simp: put_inner_def)
  next
    case False
    then have "\<exists>e. py_push_video_frame t now pixels w h ud us format = (Inl e, t)"
      using Inr by (cases "py_video t")
        (auto simp: py_push_video_frame_def check_pixels_def expected_bytes_def checked_size)
    then show ?thesis using Inr False by (auto simp: py_video_def)
  qed
qed (simp add: py_push_video_frame_def)

lemma python_pushes_checked_witness:
  "\<exists>n'. py_push_video_frame (from_native sample_track) 9 (replicate 18 0) 3 2 None None ''RGB24''
      = (Inr (), from_native n') \<and> length (tk_native n') = 1"
proof -
  let ?run = "py_push_video_frame (from_native sample_track) 9 (replicate 18 0) 3 2 None None ''RGB24''"
  have "py_pixel_format ''RGB24'' = Inr Rgb24"
    by (simp add: py_pixel_format_def to_ascii_lowercase_def) code_simp
  then have ok: "fst ?run = Inr ()"
    using python_pushes_checked [of "from_native sample_track" 9 "replicate 18 0" 3 2 None None "''RGB24''"]
    by (simp add: from_native_def sample_track_def from_raw_with_registry_def)
  with python_pushes_checked [of "from_native sample_track" 9 "replicate 18 0" 3 2 None None "''RGB24''"]
  obtain n' p where "snd ?run = (from_native sample_track)\<lparr>pt_inner := Some n'\<rparr>"
    "tk_native n' = tk_native sample_track @ [p]" by (auto simp: from_native_def)
  with ok show ?thesis
    by (intro exI [of _ n']) (auto simp: from_native_def sample_track_def from_raw_with_registry_def prod_eq_iff)
qed

end
