(* ===== verification/Py_Factory.thy ===== *)
theory Py_Factory
  imports Py_Track Factory_Props
begin

text \<open>
  Factories in the Python bindings (\<open>crates/reactor-webrtc-py/src/lib.rs\<close>): the process-wide flag
  that admits one factory at a time, the builder that is used up by its build, track options, and a
  pre-encoded track made with its factory. A call runs with the GIL held from start to end, so it is
  one step of the process. Seconds as floats are what \<open>try_from_secs_f64\<close> makes of them, and
  texts leave them out.
\<close>

section \<open>The flag\<close>

text \<open>\<open>FACTORY_LIVE\<close> is passed and returned.\<close>

definition already_alive :: py_error where
  "already_alive = PyRuntimeError (Said (Text
     (''a PeerConnectionFactory is already alive in this process; '' @ ''drop it before creating another'')))"

definition claim_factory :: "bool \<Rightarrow> (py_error + unit) \<times> bool" where
  "claim_factory live = (if live then (Inl already_alive, live) else (Inr (), True))"

text \<open>The end of the two constructors: a failed build gives the flag back.\<close>

definition claimed_build :: "factory result \<Rightarrow> (py_error + factory) \<times> bool" where
  "claimed_build r = (case r of Inr f \<Rightarrow> (Inr f, True) | Inl e \<Rightarrow> (Inl (py_err e), False))"

definition py_factory_new ::
  "(factory_options \<Rightarrow> string + nat) \<Rightarrow> bool \<Rightarrow> apm_config \<Rightarrow> bool \<Rightarrow> (py_error + factory) \<times> bool" where
  "py_factory_new create platform_adm apm live =
     (case claim_factory live of
        (Inl e, live) \<Rightarrow> (Inl e, live)
      | (Inr _, _) \<Rightarrow>
          claimed_build (build create
            (with_apm (with_adm pb_new (if platform_adm then PlatformAdm else SyntheticAdm)) apm)))"

definition py_factory_drop :: "bool \<Rightarrow> bool" where
  "py_factory_drop live = False"

section \<open>The builder\<close>

record py_builder =
  bd_pending :: "factory_builder option"

definition py_builder_new :: py_builder where
  "py_builder_new = \<lparr>bd_pending = Some pb_new\<rparr>"

definition consumed :: py_error where
  "consumed = PyRuntimeError (Said (Text ''builder already consumed by build()''))"

text \<open>The pattern of every setter: take the builder, put the changed one back.\<close>

definition edit_pending :: "(factory_builder \<Rightarrow> factory_builder) \<Rightarrow> py_builder \<Rightarrow> (py_error + unit) \<times> py_builder" where
  "edit_pending f b =
     (case bd_pending b of
        None \<Rightarrow> (Inl consumed, b)
      | Some p \<Rightarrow> (Inr (), b\<lparr>bd_pending := Some (f p)\<rparr>))"

definition py_with_adm :: "bool \<Rightarrow> py_builder \<Rightarrow> (py_error + unit) \<times> py_builder" where
  "py_with_adm platform = edit_pending (\<lambda>b. with_adm b (if platform then PlatformAdm else SyntheticAdm))"

definition py_with_platform_adm :: "py_builder \<Rightarrow> (py_error + unit) \<times> py_builder" where
  "py_with_platform_adm = edit_pending with_platform_adm"

definition py_with_synthetic_adm :: "py_builder \<Rightarrow> (py_error + unit) \<times> py_builder" where
  "py_with_synthetic_adm = edit_pending with_synthetic_adm"

definition py_with_apm :: "bool \<Rightarrow> bool \<Rightarrow> bool \<Rightarrow> bool \<Rightarrow> py_builder \<Rightarrow> (py_error + unit) \<times> py_builder" where
  "py_with_apm echo_canceller noise_suppression agc high_pass_filter =
     edit_pending (\<lambda>b. with_apm b
       \<lparr>ap_echo_canceller = echo_canceller, ap_noise_suppression = noise_suppression, ap_agc = agc,
        ap_high_pass_filter = high_pass_filter\<rparr>)"

definition py_with_metadata :: "bool \<Rightarrow> py_builder \<Rightarrow> (py_error + unit) \<times> py_builder" where
  "py_with_metadata enabled = edit_pending (\<lambda>b. with_metadata b enabled)"

definition py_with_dtls_in_stun :: "bool \<Rightarrow> py_builder \<Rightarrow> (py_error + unit) \<times> py_builder" where
  "py_with_dtls_in_stun enabled = edit_pending (\<lambda>b. with_dtls_in_stun b enabled)"

definition py_with_dc_chunking :: "nat \<Rightarrow> nat \<Rightarrow> nat \<Rightarrow> nat \<Rightarrow> py_builder \<Rightarrow> (py_error + unit) \<times> py_builder" where
  "py_with_dc_chunking burst message_size buffer_limit chunk =
     edit_pending (\<lambda>b. with_dc_chunking_settings b
       (dc_chunking_default\<lparr>dk_max_burst := burst, dk_max_message_size := message_size,
          dk_send_buffer_limit := buffer_limit, dk_chunk_size := chunk\<rparr>))"

definition py_with_dc_callbacks_on_network_thread :: "bool \<Rightarrow> py_builder \<Rightarrow> (py_error + unit) \<times> py_builder" where
  "py_with_dc_callbacks_on_network_thread enabled =
     edit_pending (\<lambda>b. with_dc_callbacks_on_network_thread b enabled)"

text \<open>\<open>Option::or\<close>.\<close>

definition opt_or :: "'a option \<Rightarrow> 'a option \<Rightarrow> 'a option" where
  "opt_or a b = (case a of Some x \<Rightarrow> Some x | None \<Rightarrow> b)"

definition py_with_sctp_tuning :: "bool \<Rightarrow> sctp_tuning \<Rightarrow> py_builder \<Rightarrow> (py_error + unit) \<times> py_builder" where
  "py_with_sctp_tuning low given =
     edit_pending (\<lambda>b.
       (let t = (if low then low_latency else sctp_tuning_default) in
        with_sctp_tuning b
          \<lparr>st_initial_cwnd_mtus = opt_or (st_initial_cwnd_mtus given) (st_initial_cwnd_mtus t),
           st_min_cwnd_mtus = opt_or (st_min_cwnd_mtus given) (st_min_cwnd_mtus t),
           st_rto_initial_ms = opt_or (st_rto_initial_ms given) (st_rto_initial_ms t),
           st_rto_min_ms = opt_or (st_rto_min_ms given) (st_rto_min_ms t),
           st_delayed_ack_max_ms = opt_or (st_delayed_ack_max_ms given) (st_delayed_ack_max_ms t),
           st_immediate_sack_under_cwnd_mtus =
             opt_or (st_immediate_sack_under_cwnd_mtus given) (st_immediate_sack_under_cwnd_mtus t)\<rparr>))"

text \<open>A number of seconds that is negative, infinite, NaN or too large is None.\<close>

definition py_playout_delay :: "nat option \<Rightarrow> nat option \<Rightarrow> py_error + playout_delay" where
  "py_playout_delay min_s max_s =
     (case min_s of
        None \<Rightarrow> Inl (PyValueError (Said (Text ''min_s must be a finite, non-negative number of seconds'')))
      | Some lo \<Rightarrow>
          (case max_s of
             None \<Rightarrow> Inl (PyValueError (Said (Text ''max_s must be a finite, non-negative number of seconds'')))
           | Some hi \<Rightarrow>
               if lo > hi then Inl (PyValueError (Said (Text ''min_s must not be larger than max_s'')))
               else if hi > PD_MAX then Inl (PyValueError (Said (Text ''max_s is beyond the extension's'')))
               else Inr \<lparr>pd_min = lo, pd_max = hi\<rparr>))"

definition py_with_send_playout_delay ::
  "nat option \<Rightarrow> nat option \<Rightarrow> py_builder \<Rightarrow> (py_error + unit) \<times> py_builder" where
  "py_with_send_playout_delay min_s max_s b =
     (case py_playout_delay min_s max_s of
        Inl e \<Rightarrow> (Inl e, b)
      | Inr delay \<Rightarrow> edit_pending (\<lambda>p. with_send_playout_delay p delay) b)"

definition py_with_receive_playout_delay ::
  "nat option \<Rightarrow> nat option \<Rightarrow> py_builder \<Rightarrow> (py_error + unit) \<times> py_builder" where
  "py_with_receive_playout_delay min_s max_s b =
     (case py_playout_delay min_s max_s of
        Inl e \<Rightarrow> (Inl e, b)
      | Inr delay \<Rightarrow> edit_pending (\<lambda>p. with_receive_playout_delay p delay) b)"

definition py_with_openh264 :: "string \<Rightarrow> py_builder \<Rightarrow> (py_error + unit) \<times> py_builder" where
  "py_with_openh264 lib_path = edit_pending (\<lambda>b. with_openh264 b lib_path)"

text \<open>The builder is taken before the flag is claimed.\<close>

definition py_build ::
  "(factory_options \<Rightarrow> string + nat) \<Rightarrow> py_builder \<Rightarrow> bool \<Rightarrow> (py_error + factory) \<times> py_builder \<times> bool" where
  "py_build create b live =
     (case bd_pending b of
        None \<Rightarrow> (Inl consumed, b, live)
      | Some p \<Rightarrow>
          (let b = b\<lparr>bd_pending := None\<rparr> in
           case claim_factory live of
             (Inl e, live) \<Rightarrow> (Inl e, b, live)
           | (Inr _, _) \<Rightarrow> (let (r, live) = claimed_build (build create p) in (r, b, live))))"

section \<open>Tracks\<close>

definition py_video_options ::
  "(u32 \<times> u32) option \<Rightarrow> nat option \<Rightarrow> h264_backend option \<Rightarrow> bool option \<Rightarrow> py_error + video_track_options" where
  "py_video_options pre_encoded inline backend frame_metadata =
     (let no_backend = PyRuntimeError (Said (Text (''h264_backend with a custom encoder: the track's bytes come '' @
                         ''from your own pipeline - there is no backend to route to''))) in
      if pre_encoded \<noteq> None \<and> inline \<noteq> None
      then Inl (PyRuntimeError (Said (Text ''pre_encoded and inline_encoder are mutually exclusive'')))
      else if pre_encoded \<noteq> None \<and> backend \<noteq> None then Inl no_backend
      else case pre_encoded of
        Some (w, h) \<Rightarrow> Inr \<lparr>vo_encoder = Some (PreEncoded w h), vo_h264_backend = backend,
                            vo_frame_metadata = frame_metadata\<rparr>
      | None \<Rightarrow>
          (case inline of
             Some cb \<Rightarrow> if backend \<noteq> None then Inl no_backend
                        else Inr \<lparr>vo_encoder = Some (InlineEncoder cb), vo_h264_backend = backend,
                                  vo_frame_metadata = frame_metadata\<rparr>
           | None \<Rightarrow> Inr \<lparr>vo_encoder = None, vo_h264_backend = backend, vo_frame_metadata = frame_metadata\<rparr>))"

definition py_create_video_track_with_options ::
  "bool \<Rightarrow> (string \<Rightarrow> nat option) \<Rightarrow> factory \<Rightarrow> process \<Rightarrow> string \<Rightarrow> (u32 \<times> u32) option \<Rightarrow> nat option
     \<Rightarrow> h264_backend option \<Rightarrow> bool option \<Rightarrow> (py_error + local_video_track) \<times> factory \<times> process" where
  "py_create_video_track_with_options apple native_track f p name pre_encoded inline backend frame_metadata =
     (case py_video_options pre_encoded inline backend frame_metadata of
        Inl e \<Rightarrow> (Inl e, f, p)
      | Inr options \<Rightarrow>
          (let (r, f, p) = create_video_track_with_options apple native_track f p name options
           in (map_err py_err r, f, p)))"

text \<open>A factory with its pre-encoded track; when the track fails the factory is dropped.\<close>

definition with_encoded_video_track ::
  "(factory_options \<Rightarrow> string + nat) \<Rightarrow> bool \<Rightarrow> (string \<Rightarrow> nat option) \<Rightarrow> process \<Rightarrow> string \<Rightarrow> u32 \<Rightarrow> u32 \<Rightarrow> bool
     \<Rightarrow> (py_error + factory \<times> encoded_video_track) \<times> process \<times> bool" where
  "with_encoded_video_track create apple native_track p name width height live =
     (case claim_factory live of
        (Inl e, live) \<Rightarrow> (Inl e, p, live)
      | (Inr _, _) \<Rightarrow>
          (case build create pb_new of
             Inl e \<Rightarrow> (Inl (py_err e), p, False)
           | Inr f \<Rightarrow>
               (case create_video_track_with_options apple native_track f p name
                       (video_track_options_default\<lparr>vo_encoder := Some (PreEncoded width height)\<rparr>) of
                  (Inl e, _, p) \<Rightarrow> (Inl (py_err e), p, False)
                | (Inr (RawTrack _), _, p) \<Rightarrow>
                    (Inl (py_err (Webrtc (Text ''pre-encoded track came back raw''))), p, False)
                | (Inr (EncodedTrack t), f, p) \<Rightarrow> (Inr (f, t), p, True))))"

section \<open>What the wrappers keep\<close>

text \<open>A delay Python accepts passes the check of the build, and the other way round.\<close>

lemma py_playout_delay_valid:
  "py_playout_delay (Some lo) (Some hi) = Inr d \<longleftrightarrow>
     d = \<lparr>pd_min = lo, pd_max = hi\<rparr> \<and> is_ok (pd_validate d)"
  by (auto simp: py_playout_delay_def pd_validate_def)

text \<open>Setters on a builder that was not used up are the crate's setters, and nothing revives a used one.\<close>

lemma edit_pending_cases:
  "edit_pending f \<lparr>bd_pending = Some p\<rparr> = (Inr (), \<lparr>bd_pending = Some (f p)\<rparr>)"
  "edit_pending f \<lparr>bd_pending = None\<rparr> = (Inl consumed, \<lparr>bd_pending = None\<rparr>)"
  by (simp_all add: edit_pending_def)

text \<open>A build refused because a factory is alive has used up its builder all the same.\<close>

lemma refused_build_uses_up_builder:
  "py_build create \<lparr>bd_pending = Some p\<rparr> True = (Inl already_alive, \<lparr>bd_pending = None\<rparr>, True)"
  by (simp add: py_build_def claim_factory_def)

text \<open>The options Python lets through are those the crate does not refuse for their combination.\<close>

lemma py_video_options_combination:
  "py_video_options pre_encoded inline backend md = Inr opts \<Longrightarrow>
     \<not> (vo_encoder opts \<noteq> None \<and> vo_h264_backend opts \<noteq> None)"
  by (auto simp: py_video_options_def Let_def split: if_splits option.splits)

section \<open>One factory at a time\<close>

text \<open>
  A process: the flag, the Python factory objects, and how many other objects (tracks,
  connections) hold the handle of each native factory, which is destroyed with the last holder. In a
  \<open>tidy\<close> process a factory object goes away after everything made from it.
\<close>

record py_world =
  pw_live :: bool
  pw_object :: "nat \<Rightarrow> bool"
  pw_handles :: "nat \<Rightarrow> nat"
  pw_next :: nat

definition pw_new :: py_world where
  "pw_new = \<lparr>pw_live = False, pw_object = (\<lambda>_. False), pw_handles = (\<lambda>_. 0), pw_next = 0\<rparr>"

definition native_alive :: "py_world \<Rightarrow> nat \<Rightarrow> bool" where
  "native_alive w k \<longleftrightarrow> pw_object w k \<or> pw_handles w k > 0"

text \<open>A constructor answered: a new object under the next number, with \<open>n\<close> handles beside it.\<close>

fun made :: "py_world \<Rightarrow> nat \<Rightarrow> (py_error + 'a) \<times> bool \<Rightarrow> py_world" where
  "made w n (Inl e, live) = w\<lparr>pw_live := live\<rparr>"
| "made w n (Inr f, live) =
     w\<lparr>pw_live := live, pw_object := (pw_object w)(pw_next w := True),
       pw_handles := (pw_handles w)(pw_next w := n), pw_next := pw_next w + 1\<rparr>"

inductive py_step :: "bool \<Rightarrow> py_world \<Rightarrow> py_world \<Rightarrow> bool" for tidy where
  construct: "py_step tidy w (made w 0 (py_factory_new create platform apm (pw_live w)))"
| build: "py_build create b (pw_live w) = (r, b', live) \<Longrightarrow> py_step tidy w (made w 0 (r, live))"
| encoded:
    "with_encoded_video_track create apple native_track p name width height (pw_live w) = (r, p', live) \<Longrightarrow>
     py_step tidy w (made w 1 (r, live))"
| hold: "native_alive w k \<Longrightarrow> py_step tidy w (w\<lparr>pw_handles := (pw_handles w)(k := pw_handles w k + 1)\<rparr>)"
| let_go:
    "0 < pw_handles w k \<Longrightarrow> py_step tidy w (w\<lparr>pw_handles := (pw_handles w)(k := pw_handles w k - 1)\<rparr>)"
| drop:
    "pw_object w k \<Longrightarrow> (tidy \<longrightarrow> pw_handles w k = 0) \<Longrightarrow>
     py_step tidy w (w\<lparr>pw_live := py_factory_drop (pw_live w), pw_object := (pw_object w)(k := False)\<rparr>)"

inductive py_reachable :: "bool \<Rightarrow> py_world \<Rightarrow> bool" for tidy where
  start: "py_reachable tidy pw_new"
| step: "py_reachable tidy w \<Longrightarrow> py_step tidy w w' \<Longrightarrow> py_reachable tidy w'"

text \<open>Each constructor: refused while the flag is set; otherwise the flag says whether it succeeded.\<close>

definition guarded :: "bool \<Rightarrow> (py_error + 'a) \<times> bool \<Rightarrow> bool" where
  "guarded live r \<longleftrightarrow> (if live then snd r \<and> \<not> is_ok (fst r) else snd r = is_ok (fst r))"

lemma constructors_guarded:
  "guarded live (py_factory_new create platform apm live)"
  "py_build create b live = (r, b', live') \<Longrightarrow> guarded live (r, live')"
  "with_encoded_video_track create apple native_track p name width height live = (r', p', live') \<Longrightarrow>
     guarded live (r', live')"
  by (auto simp: guarded_def py_factory_new_def py_build_def with_encoded_video_track_def claim_factory_def
      claimed_build_def Let_def split: if_splits option.splits sum.splits local_video_track.splits prod.splits)

definition world_inv :: "bool \<Rightarrow> py_world \<Rightarrow> bool" where
  "world_inv tidy w \<longleftrightarrow>
     (pw_live w \<longleftrightarrow> (\<exists>k. pw_object w k)) \<and>
     (\<forall>j k. pw_object w j \<and> pw_object w k \<longrightarrow> j = k) \<and>
     (\<forall>k. native_alive w k \<longrightarrow> k < pw_next w) \<and>
     (tidy \<longrightarrow> (\<forall>k. 0 < pw_handles w k \<longrightarrow> pw_object w k))"

lemma world_inv_made:
  assumes "world_inv tidy w" and "guarded (pw_live w) r"
  shows "world_inv tidy (made w n r)"
proof (cases r)
  case (Pair a live)
  with assms show ?thesis
    by (cases a) (auto simp: guarded_def world_inv_def native_alive_def less_Suc_eq split: if_splits)
qed

lemma world_inv_parts:
  assumes "world_inv tidy w"
  shows "pw_live w \<longleftrightarrow> (\<exists>k. pw_object w k)" "pw_object w j \<Longrightarrow> pw_object w k \<Longrightarrow> j = k"
    "native_alive w k \<Longrightarrow> k < pw_next w" "tidy \<Longrightarrow> 0 < pw_handles w k \<Longrightarrow> pw_object w k"
  using assms unfolding world_inv_def by blast+

lemma world_inv_handles:
  assumes inv: "world_inv tidy w" and k: "native_alive w k"
  shows "world_inv tidy (w\<lparr>pw_handles := (pw_handles w)(k := n)\<rparr>)"
proof -
  have "\<forall>j. native_alive (w\<lparr>pw_handles := (pw_handles w)(k := n)\<rparr>) j \<longrightarrow> native_alive w j"
    using k by (simp add: native_alive_def)
  moreover have "tidy \<Longrightarrow> pw_object w k" using k world_inv_parts(4) [OF inv] by (auto simp: native_alive_def)
  ultimately show ?thesis using inv by (simp add: world_inv_def)
qed

lemma world_inv_drop:
  assumes inv: "world_inv tidy w" and k: "pw_object w k" "tidy \<longrightarrow> pw_handles w k = 0"
  shows "world_inv tidy (w\<lparr>pw_live := py_factory_drop (pw_live w), pw_object := (pw_object w)(k := False)\<rparr>)"
    (is "world_inv tidy ?w'")
proof -
  have other: "\<not> pw_object w j" if "j \<noteq> k" for j using world_inv_parts(2) [OF inv k(1)] that by blast
  then have none: "\<not> pw_object ?w' j" for j by simp
  have "pw_handles w j = 0" if tidy for j
    using that k(2) other [of j] world_inv_parts(4) [OF inv that, of j] by (cases "j = k") auto
  moreover have "native_alive w j" if "native_alive ?w' j" for j
    using that none [of j] by (simp add: native_alive_def)
  ultimately show ?thesis using none world_inv_parts(3) [OF inv]
    unfolding world_inv_def by (simp add: py_factory_drop_def)
qed

lemma world_inv_step:
  assumes step: "py_step tidy w w'" and inv: "world_inv tidy w"
  shows "world_inv tidy w'"
  using step
proof cases
  case (hold k)
  then show ?thesis using world_inv_handles [OF inv] by simp
next
  case (let_go k)
  then show ?thesis using world_inv_handles [OF inv] by (simp add: native_alive_def)
next
  case (drop k)
  then show ?thesis using world_inv_drop [OF inv] by simp
next
  case construct
  then show ?thesis using world_inv_made [OF inv constructors_guarded(1)] by simp
next
  case build
  then show ?thesis using world_inv_made [OF inv constructors_guarded(2)] by simp
next
  case encoded
  then show ?thesis using world_inv_made [OF inv constructors_guarded(3)] by simp
qed

lemma world_inv_reachable: "py_reachable tidy w \<Longrightarrow> world_inv tidy w"
proof (induction rule: py_reachable.induct)
  case start
  show ?case by (simp add: world_inv_def pw_new_def native_alive_def)
qed (rule world_inv_step)

text \<open>C33: One factory object at a time. However a process constructs factories (directly, by a
  builder, with a pre-encoded track), makes and releases tracks and connections and drops factories:
  the flag is set exactly while a factory object exists, and there is at most one; every constructor is
  refused while there is one. In a process that drops a factory only after everything made from it,
  at most one native factory is alive. In any other process that is not so: a track or a connection
  keeps the native factory it was made from, which the flag does not count.\<close>
theorem one_factory_object:
  assumes "py_reachable tidy w"
  shows "(pw_live w \<longleftrightarrow> (\<exists>k. pw_object w k))
       \<and> (\<forall>j k. pw_object w j \<and> pw_object w k \<longrightarrow> j = k)
       \<and> (\<forall>create platform apm k. pw_object w k \<longrightarrow>
            py_factory_new create platform apm (pw_live w) = (Inl already_alive, True))
       \<and> (tidy \<longrightarrow> (\<forall>j k. native_alive w j \<and> native_alive w k \<longrightarrow> j = k))"
  using world_inv_reachable [OF assms]
  by (auto simp: world_inv_def native_alive_def py_factory_new_def claim_factory_def)

text \<open>A factory, a track made from it, the factory dropped, another factory.\<close>

definition any_native :: "factory_options \<Rightarrow> string + nat" where
  "any_native options = Inr 7"

lemma default_build: "\<exists>f. py_factory_new any_native False apm_default False = (Inr f, True)"
  by (simp add: py_factory_new_def claim_factory_def claimed_build_def build_def check_opt_def pb_new_def
      with_apm_def with_adm_def create_from_options_def any_native_def)

lemma made_step:
  assumes "py_reachable tidy w" and "\<not> pw_live w"
  shows "py_reachable tidy (w\<lparr>pw_live := True, pw_object := (pw_object w)(pw_next w := True),
    pw_handles := (pw_handles w)(pw_next w := 0), pw_next := pw_next w + 1\<rparr>)"
proof -
  obtain f where "py_factory_new any_native False apm_default False = (Inr f, True)" using default_build by blast
  with py_reachable.step [OF assms(1) py_step.construct [of tidy w any_native False apm_default]] assms(2)
  show ?thesis by simp
qed

lemma two_native_factories: "\<exists>w. py_reachable False w \<and> native_alive w 0 \<and> native_alive w 1"
proof -
  note r1 = made_step [OF py_reachable.start [of False]]
  note r2 = py_reachable.step [OF r1 py_step.hold [of _ 0]]
  note r3 = py_reachable.step [OF r2 py_step.drop [of _ 0]]
  note r4 = made_step [OF r3]
  show ?thesis
    by (rule exI, rule conjI, rule r4) (simp_all add: pw_new_def native_alive_def py_factory_drop_def)
qed

lemma one_factory_object_witness:
  "\<exists>w. py_reachable True w \<and> pw_object w 0
     \<and> py_factory_new any_native True apm_default (pw_live w) = (Inl already_alive, True)"
proof -
  note r1 = made_step [OF py_reachable.start [of True]]
  let ?w = "pw_new\<lparr>pw_live := True, pw_object := (pw_object pw_new)(pw_next pw_new := True),
    pw_handles := (pw_handles pw_new)(pw_next pw_new := 0), pw_next := pw_next pw_new + 1\<rparr>"
  have r: "py_reachable True ?w" by (rule r1) (simp add: pw_new_def)
  have obj: "pw_object ?w 0" by (simp add: pw_new_def)
  from one_factory_object [OF r] r obj show ?thesis by blast
qed

end
