(* ===== verification/Py_Handler.thy ===== *)
theory Py_Handler
  imports Py_Track
begin

text \<open>
  Setting the message callback of a data channel from Python (\<open>crates/reactor-webrtc-py/src/lib.rs\<close>,
  \<open>DataChannel::on_message\<close> and \<open>handoff_stats\<close>, over \<open>DataChannel::on_message\<close>, \<open>deliver\<close> and
  \<open>ensure_registered\<close> of \<open>crates/reactor-webrtc/src/peer_connection.rs\<close>): any number of threads that
  run Python, and the signalling thread that delivers messages, with the locks they take: the GIL,
  \<open>registering\<close>, and the one of each callback.

  Each thread has a stack of where it is in that code. A callback is numbered by the call that set
  it; the totals made with it have its number.
\<close>

section \<open>The process\<close>

type_synonym message = "bytes \<times> bool"

datatype place =
    Running \<comment> \<open>Python code, with the GIL or waiting to have it back\<close>
  | Asking nat \<comment> \<open>in \<open>on_message\<close>, before \<open>registering\<close>\<close>
  | Installing nat
  | Flushing nat "message list" \<comment> \<open>with what was held and has not been handed over\<close>
  | Registering nat
  | Dispatched nat \<comment> \<open>waiting for the signalling thread to register the observer\<close>
  | Publishing nat
  | Finishing \<comment> \<open>about to let go of \<open>registering\<close>\<close>
  | Delivering nat message \<comment> \<open>the callback was read from its slot\<close>
  | Handing nat message \<comment> \<open>its lock is taken, the closure wants the GIL\<close>
  | InCallback nat
  | InOther \<comment> \<open>a callback of another object\<close>

type_synonym thread = nat

definition SIGNALING :: thread where "SIGNALING = 0"

record py_channel =
  py_stack :: "thread \<Rightarrow> place list" \<comment> \<open>innermost first\<close>
  py_gil :: "thread option"
  py_registering :: "thread option"
  py_lock :: "nat \<Rightarrow> thread option" \<comment> \<open>of a callback\<close>
  py_slot :: "nat option" \<comment> \<open>the callback messages go to\<close>
  py_handoff :: nat \<comment> \<open>the totals \<open>handoff_stats\<close> reads\<close>
  py_totals :: "nat \<Rightarrow> handoff_sums"
  py_calls :: "nat \<Rightarrow> message list" \<comment> \<open>the calls of each Python callback\<close>
  py_held :: "message list"
  py_chunked :: bool
  py_registered :: bool
  py_next :: nat

text \<open>A new channel: its totals are the default ones, of no callback.\<close>

definition py_channel_new :: py_channel where
  "py_channel_new =
     \<lparr>py_stack = (\<lambda>_. []), py_gil = None, py_registering = None, py_lock = (\<lambda>_. None), py_slot = None,
      py_handoff = 0, py_totals = (\<lambda>_. handoff_default), py_calls = (\<lambda>_. []), py_held = [],
      py_chunked = False, py_registered = False, py_next = 1\<rparr>"

definition at :: "thread \<Rightarrow> place list \<Rightarrow> py_channel \<Rightarrow> py_channel" where
  "at t places p = p\<lparr>py_stack := (py_stack p)(t := places)\<rparr>"

section \<open>\<open>on_message\<close>\<close>

text \<open>Called from Python: new totals, and the GIL is released.\<close>

definition call_on_message :: "thread \<Rightarrow> py_channel \<Rightarrow> py_channel" where
  "call_on_message t p =
     (at t (Asking (py_next p) # py_stack p t) p)
       \<lparr>py_totals := (py_totals p)(py_next p := handoff_default), py_next := py_next p + 1, py_gil := None\<rparr>"

definition lock_registering :: "thread \<Rightarrow> nat \<Rightarrow> place list \<Rightarrow> py_channel \<Rightarrow> py_channel" where
  "lock_registering t n rest p = (at t (Installing n # rest) p)\<lparr>py_registering := Some t\<rparr>"

text \<open>The crate: the callback goes into its slot, locked, and what was held is taken out.\<close>

definition install_callback :: "thread \<Rightarrow> nat \<Rightarrow> place list \<Rightarrow> py_channel \<Rightarrow> py_channel" where
  "install_callback t n rest p =
     (at t (Flushing n (if py_chunked p then py_held p else []) # rest) p)
       \<lparr>py_slot := Some n, py_lock := (py_lock p)(n := Some t),
        py_held := (if py_chunked p then [] else py_held p)\<rparr>"

text \<open>The closure around the Python callback: with the GIL, the totals, then the call.\<close>

definition hand_over :: "thread \<Rightarrow> nat \<Rightarrow> message \<Rightarrow> nat \<Rightarrow> py_channel \<Rightarrow> py_channel" where
  "hand_over t n m elapsed p =
     p\<lparr>py_gil := Some t, py_totals := (py_totals p)(n := handoff_add 0 elapsed (py_totals p n)),
       py_calls := (py_calls p)(n := py_calls p n @ [m])\<rparr>"

definition flush_one :: "thread \<Rightarrow> nat \<Rightarrow> message \<Rightarrow> message list \<Rightarrow> nat \<Rightarrow> place list \<Rightarrow> py_channel \<Rightarrow> py_channel" where
  "flush_one t n m ms elapsed rest p = hand_over t n m elapsed (at t (Running # Flushing n ms # rest) p)"

definition flush_done :: "thread \<Rightarrow> nat \<Rightarrow> place list \<Rightarrow> py_channel \<Rightarrow> py_channel" where
  "flush_done t n rest p = (at t (Registering n # rest) p)\<lparr>py_lock := (py_lock p)(n := None)\<rparr>"

text \<open>\<open>ensure_registered\<close>: only the first call registers, which waits for the signalling thread.\<close>

definition py_ensure_registered :: "thread \<Rightarrow> nat \<Rightarrow> place list \<Rightarrow> py_channel \<Rightarrow> py_channel" where
  "py_ensure_registered t n rest p =
     (if py_registered p then at t (Publishing n # rest) p
      else (at t (Dispatched n # rest) p)\<lparr>py_registered := True\<rparr>)"

definition publish_totals :: "thread \<Rightarrow> nat \<Rightarrow> place list \<Rightarrow> py_channel \<Rightarrow> py_channel" where
  "publish_totals t n rest p = (at t (Finishing # rest) p)\<lparr>py_handoff := n\<rparr>"

definition finish_on_message :: "thread \<Rightarrow> place list \<Rightarrow> py_channel \<Rightarrow> py_channel" where
  "finish_on_message t rest p = (at t rest p)\<lparr>py_registering := None\<rparr>"

definition py_handoff_stats :: "py_channel \<Rightarrow> handoff_sums" where
  "py_handoff_stats p = py_totals p (py_handoff p)"

section \<open>Messages\<close>

text \<open>\<open>deliver\<close> on a chunked channel, \<open>dc_on_message\<close> on another: the callback of the slot, or none.\<close>

definition message_arrives :: "message \<Rightarrow> py_channel \<Rightarrow> py_channel" where
  "message_arrives m p =
     (case py_slot p of
        Some n \<Rightarrow> at SIGNALING [Delivering n m] p
      | None \<Rightarrow> if py_chunked p then p\<lparr>py_held := py_held p @ [m]\<rparr> else p)"

definition lock_callback :: "nat \<Rightarrow> message \<Rightarrow> py_channel \<Rightarrow> py_channel" where
  "lock_callback n m p = (at SIGNALING [Handing n m] p)\<lparr>py_lock := (py_lock p)(n := Some SIGNALING)\<rparr>"

definition call_callback :: "nat \<Rightarrow> message \<Rightarrow> nat \<Rightarrow> py_channel \<Rightarrow> py_channel" where
  "call_callback n m elapsed p = hand_over SIGNALING n m elapsed (at SIGNALING [Running, InCallback n] p)"

text \<open>Python code returns: to the flush, to the delivery, or from the thread's own code.\<close>

definition python_returns :: "thread \<Rightarrow> place list \<Rightarrow> py_channel \<Rightarrow> py_channel" where
  "python_returns t rest p =
     (let p = p\<lparr>py_gil := None\<rparr> in
      case rest of
        InCallback n # rest' \<Rightarrow> (at t rest' p)\<lparr>py_lock := (py_lock p)(n := None)\<rparr>
      | InOther # rest' \<Rightarrow> at t rest' p
      | _ \<Rightarrow> at t rest p)"

section \<open>The steps\<close>

inductive py_step :: "thread \<Rightarrow> py_channel \<Rightarrow> py_channel \<Rightarrow> bool" where
  python_begins: "py_stack p t = [] \<Longrightarrow> t \<noteq> SIGNALING \<Longrightarrow> py_step t p (at t [Running] p)"
| gil_taken: "py_stack p t = Running # rest \<Longrightarrow> py_gil p = None \<Longrightarrow> py_step t p (p\<lparr>py_gil := Some t\<rparr>)"
| gil_switched: "py_gil p = Some t \<Longrightarrow> py_step t p (p\<lparr>py_gil := None\<rparr>)"
| returns: "py_stack p t = Running # rest \<Longrightarrow> py_gil p = Some t \<Longrightarrow> py_step t p (python_returns t rest p)"
| asks: "py_stack p t = Running # rest \<Longrightarrow> py_gil p = Some t \<Longrightarrow> py_step t p (call_on_message t p)"
| locks: "py_stack p t = Asking n # rest \<Longrightarrow> py_registering p = None \<Longrightarrow>
    py_step t p (lock_registering t n rest p)"
| installs: "py_stack p t = Installing n # rest \<Longrightarrow> py_step t p (install_callback t n rest p)"
| flushes: "py_stack p t = Flushing n (m # ms) # rest \<Longrightarrow> py_gil p = None \<Longrightarrow>
    py_step t p (flush_one t n m ms elapsed rest p)"
| flushed: "py_stack p t = Flushing n [] # rest \<Longrightarrow> py_step t p (flush_done t n rest p)"
| registers: "py_stack p t = Registering n # rest \<Longrightarrow> py_step t p (py_ensure_registered t n rest p)"
| dispatched: "py_stack p t = Dispatched n # rest \<Longrightarrow> t = SIGNALING \<or> py_stack p SIGNALING = [] \<Longrightarrow>
    py_step t p (at t (Publishing n # rest) p)"
| publishes: "py_stack p t = Publishing n # rest \<Longrightarrow> py_step t p (publish_totals t n rest p)"
| finishes: "py_stack p t = Finishing # rest \<Longrightarrow> py_step t p (finish_on_message t rest p)"
| decides: "py_step t p (p\<lparr>py_chunked := True, py_registered := True\<rparr>)"
| arrives: "py_stack p SIGNALING = [] \<Longrightarrow> py_registered p \<Longrightarrow> py_step SIGNALING p (message_arrives m p)"
| delivers: "py_stack p SIGNALING = [Delivering n m] \<Longrightarrow> py_lock p n = None \<Longrightarrow>
    py_step SIGNALING p (lock_callback n m p)"
| calls: "py_stack p SIGNALING = [Handing n m] \<Longrightarrow> py_gil p = None \<Longrightarrow>
    py_step SIGNALING p (call_callback n m elapsed p)"
| other_begins: "py_stack p SIGNALING = [] \<Longrightarrow> py_gil p = None \<Longrightarrow>
    py_step SIGNALING p ((at SIGNALING [Running, InOther] p)\<lparr>py_gil := Some SIGNALING\<rparr>)"

inductive py_reachable :: "py_channel \<Rightarrow> bool" where
  start: "py_reachable py_channel_new"
| step: "py_reachable p \<Longrightarrow> py_step t p p' \<Longrightarrow> py_reachable p'"

section \<open>Where threads are\<close>

text \<open>Inside \<open>on_message\<close>, and there with \<open>registering\<close> held.\<close>

fun holding :: "place \<Rightarrow> bool" where
  "holding (Installing n) = True"
| "holding (Flushing n ms) = True"
| "holding (Registering n) = True"
| "holding (Dispatched n) = True"
| "holding (Publishing n) = True"
| "holding Finishing = True"
| "holding _ = False"

fun in_on_message :: "place \<Rightarrow> bool" where
  "in_on_message (Asking n) = True"
| "in_on_message x = holding x"

text \<open>Python calls \<open>on_message\<close>, and is called by a flush and by the signalling thread.\<close>

inductive stacked :: "thread \<Rightarrow> place list \<Rightarrow> bool" where
  idle: "stacked t []"
| own: "t \<noteq> SIGNALING \<Longrightarrow> stacked t [Running]"
| callback: "stacked SIGNALING [Running, InCallback n]"
| other: "stacked SIGNALING [Running, InOther]"
| delivering: "stacked SIGNALING [Delivering n m]"
| handing: "stacked SIGNALING [Handing n m]"
| inside: "stacked t (Running # rest) \<Longrightarrow> in_on_message x \<Longrightarrow> stacked t (x # Running # rest)"
| flush: "stacked t (Flushing n ms # rest) \<Longrightarrow> stacked t (Running # Flushing n ms # rest)"

inductive_simps stacked_simps:
  "stacked t []"
  "stacked t (Asking n # rest)" "stacked t (Installing n # rest)" "stacked t (Flushing n ms # rest)"
  "stacked t (Registering n # rest)" "stacked t (Dispatched n # rest)" "stacked t (Publishing n # rest)"
  "stacked t (Finishing # rest)" "stacked t (Delivering n m # rest)" "stacked t (Handing n m # rest)"
  "stacked t (InCallback n # rest)" "stacked t (InOther # rest)"

inductive_cases stacked_running: "stacked t (Running # rest)"

lemmas py_op_defs = at_def call_on_message_def lock_registering_def install_callback_def hand_over_def
  flush_one_def flush_done_def py_ensure_registered_def publish_totals_def finish_on_message_def
  message_arrives_def lock_callback_def call_callback_def python_returns_def Let_def

lemma stacked_step:
  assumes "py_step t p p'" and "\<forall>u. stacked u (py_stack p u)"
  shows "\<forall>u. stacked u (py_stack p' u)"
proof
  fix u
  have ws: "stacked u (py_stack p u)" "stacked t (py_stack p t)" "stacked SIGNALING (py_stack p SIGNALING)"
    using assms(2) by blast+
  show "stacked u (py_stack p' u)"
    using assms(1) ws
    by cases (auto simp: py_op_defs stacked_simps split: place.splits list.splits option.splits
        elim: stacked_running intro: stacked.intros)
qed

section \<open>Who holds \<open>registering\<close>\<close>

definition holds :: "py_channel \<Rightarrow> thread \<Rightarrow> place list" where
  "holds p t = filter holding (py_stack p t)"

definition held_by :: "py_channel \<Rightarrow> thread \<Rightarrow> bool" where
  "held_by p t \<longleftrightarrow>
     (if py_registering p = Some t then \<exists>x. holds p t = [x] else holds p t = [])"

lemma running_rest:
  "stacked t (Running # rest) \<Longrightarrow>
   rest = [] \<or> (\<exists>n. rest = [InCallback n]) \<or> rest = [InOther] \<or> (\<exists>n ms rest'. rest = Flushing n ms # rest')"
  by (erule stacked_running) auto

lemma registering_step:
  assumes "py_step t p p'" and "\<forall>u. stacked u (py_stack p u)" and "\<forall>u. held_by p u"
  shows "\<forall>u. held_by p' u"
proof
  fix u
  have h: "held_by p u" "held_by p t" "held_by p SIGNALING" "stacked t (py_stack p t)" using assms(2,3) by blast+
  show "held_by p' u"
    using assms(1)
  proof cases
    case (returns rest)
    have "stacked t (Running # rest)" using h(4) returns(2) by simp
    then show ?thesis
      using running_rest [of t rest] h returns by (auto simp: py_op_defs held_by_def holds_def)
  qed (use h in \<open>auto simp: py_op_defs held_by_def holds_def split: option.splits if_splits\<close>)
qed

section \<open>The totals\<close>

fun numbered :: "place \<Rightarrow> nat option" where
  "numbered (Asking n) = Some n"
| "numbered (Installing n) = Some n"
| "numbered (Flushing n ms) = Some n"
| "numbered (Registering n) = Some n"
| "numbered (Dispatched n) = Some n"
| "numbered (Publishing n) = Some n"
| "numbered (Delivering n m) = Some n"
| "numbered (Handing n m) = Some n"
| "numbered (InCallback n) = Some n"
| "numbered _ = None"

text \<open>Numbers are given out in turn, and each callback has totals of its own.\<close>

fun within :: "nat \<Rightarrow> nat option \<Rightarrow> bool" where
  "within b (Some n) = (0 < n \<and> n < b)"
| "within b None = True"

lemma within_Suc: "within b x \<Longrightarrow> within (Suc b) x"
  by (cases x) auto

lemma all_within_Suc: "list_all (\<lambda>x. within b (numbered x)) xs \<Longrightarrow> list_all (\<lambda>x. within (Suc b) (numbered x)) xs"
  by (auto simp: list_all_iff intro: within_Suc)

definition numbers_ok :: "py_channel \<Rightarrow> bool" where
  "numbers_ok p \<longleftrightarrow> 0 < py_next p \<and> within (py_next p) (py_slot p) \<and> py_handoff p < py_next p \<and>
     (\<forall>t. list_all (\<lambda>x. within (py_next p) (numbered x)) (py_stack p t))"

definition totals_ok :: "py_channel \<Rightarrow> bool" where
  "totals_ok p \<longleftrightarrow> (\<forall>n. hs_count (py_totals p n) = length (py_calls p n)) \<and>
     (\<forall>n. n = 0 \<or> py_next p \<le> n \<longrightarrow> py_calls p n = []) \<and> py_totals p 0 = handoff_default"

lemma numbers_step:
  assumes "py_step t p p'" and "numbers_ok p"
  shows "numbers_ok p'"
proof -
  have n: "0 < py_next p" "within (py_next p) (py_slot p)" "py_handoff p < py_next p"
    "list_all (\<lambda>x. within (py_next p) (numbered x)) (py_stack p u)" for u
    using assms(2) by (auto simp: numbers_ok_def)
  note st = n(4) [of t] n(4) [of SIGNALING]
  show ?thesis
    using assms(1)
  proof cases
    case (returns rest)
    then show ?thesis
      using n st by (auto simp: numbers_ok_def py_op_defs split: place.splits list.splits)
  next
    case asks
    then show ?thesis
      using n st by (auto simp: numbers_ok_def py_op_defs within_Suc all_within_Suc)
  next
    case arrives
    then show ?thesis
      using n by (cases "py_slot p") (auto simp: numbers_ok_def py_op_defs)
  qed (use n st in \<open>simp_all add: numbers_ok_def py_op_defs\<close>)
qed

lemma totals_step:
  assumes "py_step t p p'" and "numbers_ok p" and "totals_ok p"
  shows "totals_ok p'"
proof -
  have n: "0 < py_next p" "list_all (\<lambda>x. within (py_next p) (numbered x)) (py_stack p u)" for u
    using assms(2) by (auto simp: numbers_ok_def)
  note st = n(2) [of t] n(2) [of SIGNALING]
  show ?thesis
    using assms(1)
  proof cases
    case (returns rest)
    then show ?thesis
      using assms(3) by (auto simp: totals_ok_def py_op_defs split: place.splits list.splits)
  next
    case arrives
    then show ?thesis using assms(3) by (simp add: totals_ok_def py_op_defs split: option.split)
  qed (use n st assms(3) in \<open>auto simp: totals_ok_def py_op_defs handoff_add_def handoff_default_def Let_def\<close>)
qed

section \<open>The installed callback and the published totals\<close>

definition settled :: "py_channel \<Rightarrow> bool" where
  "settled p \<longleftrightarrow> py_slot p = (if py_handoff p = 0 then None else Some (py_handoff p))"

text \<open>What the holder of \<open>registering\<close> has done so far.\<close>

fun stage_ok :: "py_channel \<Rightarrow> place \<Rightarrow> bool" where
  "stage_ok p (Installing n) = settled p"
| "stage_ok p Finishing = settled p"
| "stage_ok p (Flushing n ms) = (py_slot p = Some n)"
| "stage_ok p (Registering n) = (py_slot p = Some n)"
| "stage_ok p (Dispatched n) = (py_slot p = Some n)"
| "stage_ok p (Publishing n) = (py_slot p = Some n)"
| "stage_ok p _ = True"

definition stages_ok :: "py_channel \<Rightarrow> bool" where
  "stages_ok p \<longleftrightarrow> (case py_registering p of None \<Rightarrow> settled p | Some t \<Rightarrow> list_all (stage_ok p) (holds p t))"

lemma holder_is: "held_by p t \<Longrightarrow> py_stack p t = x # rest \<Longrightarrow> holding x \<Longrightarrow> py_registering p = Some t \<and> filter holding rest = []"
  by (auto simp: held_by_def holds_def split: if_splits)

lemma stage_same: "py_slot p' = py_slot p \<Longrightarrow> py_handoff p' = py_handoff p \<Longrightarrow> stage_ok p' x = stage_ok p x"
  by (cases x) (simp_all add: settled_def)

lemma stages_same:
  assumes "py_slot p' = py_slot p" "py_handoff p' = py_handoff p" "py_registering p' = py_registering p"
    and "\<And>u. py_registering p = Some u \<Longrightarrow> holds p' u = holds p u"
    and "stages_ok p"
  shows "stages_ok p'"
  using assms(5) unfolding stages_ok_def settled_def
  by (simp add: assms(1-4) list_all_iff stage_same [OF assms(1,2)] split: option.splits)

lemma stages_holder:
  assumes "held_by p t" "py_stack p t = x # rest" "holding x" "stages_ok p"
  shows "stage_ok p x" "py_registering p = Some t" "filter holding rest = []"
  using holder_is [OF assms(1-3)] assms(2-4) by (auto simp: stages_ok_def holds_def)

lemma stages_step:
  assumes "py_step t p p'" and "\<forall>u. stacked u (py_stack p u)" and "\<forall>u. held_by p u"
    and "numbers_ok p" and "stages_ok p"
  shows "stages_ok p'"
proof -
  have ws: "stacked t (py_stack p t)" using assms(2) by blast
  have nums: "list_all (\<lambda>x. within (py_next p) (numbered x)) (py_stack p t)"
    using assms(4) by (simp add: numbers_ok_def)
  note h = stages_holder [OF assms(3) [rule_format, of t] _ _ assms(5)]
  show ?thesis
    using assms(1)
  proof cases
    case (returns rest)
    have "stacked t (Running # rest)" using ws returns(2) by simp
    then have "holds p' u = holds p u" for u
      using running_rest [of t rest] returns by (auto simp: holds_def py_op_defs)
    then show ?thesis
      using returns assms(5)
      by (intro stages_same [of p' p]) (auto simp: py_op_defs split: place.splits list.splits)
  next
    case (locks n rest)
    then have "holds p t = []" using assms(3) by (metis held_by_def option.distinct(1))
    then show ?thesis using locks assms(5) by (simp add: stages_ok_def holds_def py_op_defs settled_def)
  next
    case (installs n rest)
    then show ?thesis using h [of "Installing n" rest] by (simp add: stages_ok_def holds_def py_op_defs)
  next
    case (publishes n rest)
    then show ?thesis
      using h [of "Publishing n" rest] nums by (simp add: stages_ok_def holds_def py_op_defs settled_def)
  next
    case (finishes rest)
    then show ?thesis
      using h [of Finishing rest] by (simp add: stages_ok_def holds_def py_op_defs settled_def)
  next
    case (flushed n rest)
    then show ?thesis using h [of "Flushing n []" rest] by (simp add: stages_ok_def holds_def py_op_defs)
  next
    case (flushes n m ms rest elapsed)
    then show ?thesis using h [of "Flushing n (m # ms)" rest] by (simp add: stages_ok_def holds_def py_op_defs)
  next
    case (registers n rest)
    then show ?thesis using h [of "Registering n" rest] by (simp add: stages_ok_def holds_def py_op_defs)
  next
    case (dispatched n rest)
    then show ?thesis using h [of "Dispatched n" rest] by (simp add: stages_ok_def holds_def py_op_defs)
  next
    case arrives
    show ?thesis
      by (rule stages_same [OF _ _ _ _ assms(5)])
        (use arrives in \<open>auto simp: py_op_defs holds_def split: option.split\<close>)
  qed (rule stages_same [OF _ _ _ _ assms(5)]; auto simp: py_op_defs holds_def)+
qed

definition py_inv :: "py_channel \<Rightarrow> bool" where
  "py_inv p \<longleftrightarrow> (\<forall>u. stacked u (py_stack p u)) \<and> (\<forall>u. held_by p u) \<and> numbers_ok p \<and> totals_ok p \<and> stages_ok p"

lemma py_inv_new: "py_inv py_channel_new"
  by (auto simp: py_inv_def py_channel_new_def held_by_def holds_def numbers_ok_def totals_ok_def stages_ok_def
      settled_def handoff_default_def intro: stacked.intros)

lemma py_inv_step: "py_step t p p' \<Longrightarrow> py_inv p \<Longrightarrow> py_inv p'"
  unfolding py_inv_def using stacked_step registering_step numbers_step totals_step stages_step by blast

lemma py_inv_reachable: "py_reachable p \<Longrightarrow> py_inv p"
  by (induction rule: py_reachable.induct) (auto intro: py_inv_new py_inv_step)

text \<open>C36: Concurrent registrations leave the totals of the callback installed last. In every
  reachable state, with any number of threads in \<open>on_message\<close> and messages arriving meanwhile: once
  nobody is inside \<open>registering\<close>, \<open>handoff_stats\<close> reads the totals of the callback messages go to,
  all zero when there is none; and whatever totals it reads count the calls of one Python
  callback.\<close>
theorem published_totals_are_installed:
  assumes "py_reachable p"
  shows "(py_registering p = None \<longrightarrow>
      py_handoff_stats p = (case py_slot p of None \<Rightarrow> handoff_default | Some n \<Rightarrow> py_totals p n)) \<and>
    hs_count (py_handoff_stats p) = length (py_calls p (py_handoff p))"
  using py_inv_reachable [OF assms]
  by (auto simp: py_inv_def stages_ok_def settled_def py_handoff_stats_def totals_ok_def split: option.split if_splits)

section \<open>Who waits for whom\<close>

text \<open>A thread that wants the GIL waits for one that may give it up at any time; the other waits are
  for a lock, or for the signalling thread to come back to its loop.\<close>

definition waits_for :: "py_channel \<Rightarrow> thread \<Rightarrow> thread \<Rightarrow> bool" where
  "waits_for p t u =
     (case py_stack p t of
        Asking n # _ \<Rightarrow> py_registering p = Some u
      | Dispatched n # _ \<Rightarrow> t \<noteq> SIGNALING \<and> u = SIGNALING \<and> py_stack p SIGNALING \<noteq> []
      | Delivering n m # _ \<Rightarrow> py_lock p n = Some u
      | _ \<Rightarrow> False)"

definition wants_gil :: "py_channel \<Rightarrow> thread \<Rightarrow> bool" where
  "wants_gil p t =
     (case py_stack p t of
        Running # _ \<Rightarrow> py_gil p \<noteq> Some t
      | Flushing n (m # ms) # _ \<Rightarrow> True
      | Handing n m # _ \<Rightarrow> True
      | _ \<Rightarrow> False)"

text \<open>The two ways to stand still: a callback that is handed a held message replaces itself, and a
  callback on the signalling thread sets the handler that another thread is registering.\<close>

definition replaces_while_flushed :: "py_channel \<Rightarrow> thread \<Rightarrow> bool" where
  "replaces_while_flushed p h =
     (case py_stack p h of Asking n # Running # Flushing m ms # _ \<Rightarrow> True | _ \<Rightarrow> False)"

definition registers_against_callback :: "py_channel \<Rightarrow> thread \<Rightarrow> bool" where
  "registers_against_callback p h =
     ((case py_stack p h of Dispatched n # _ \<Rightarrow> True | _ \<Rightarrow> False) \<and> h \<noteq> SIGNALING \<and>
      (case py_stack p SIGNALING of
         [Asking n, Running, InOther] \<Rightarrow> True
       | [Asking n, Running, InCallback k] \<Rightarrow> True
       | _ \<Rightarrow> False))"

fun locking :: "place \<Rightarrow> nat option" where
  "locking (Flushing n ms) = Some n"
| "locking (Handing n m) = Some n"
| "locking (InCallback n) = Some n"
| "locking _ = None"

definition locks_ok :: "py_channel \<Rightarrow> bool" where
  "locks_ok p \<longleftrightarrow> (\<forall>n t. py_lock p n = Some t \<longrightarrow> list_ex (\<lambda>x. locking x = Some n) (py_stack p t))"

lemma locks_step:
  assumes "py_step t p p'" and "\<forall>u. stacked u (py_stack p u)" and "locks_ok p"
  shows "locks_ok p'"
proof -
  have ws: "stacked t (py_stack p t)" using assms(2) by blast
  have l: "py_lock p n = Some u \<Longrightarrow> list_ex (\<lambda>x. locking x = Some n) (py_stack p u)" for n u
    using assms(3) by (simp add: locks_ok_def)
  show ?thesis
    using assms(1)
  proof cases
    case (returns rest)
    have "stacked t (Running # rest)" using ws returns(2) by simp
    then show ?thesis
      using running_rest [of t rest] returns l [of _ t] l by (auto simp: locks_ok_def py_op_defs split: if_splits)
  qed (use l l [of _ t] l [of _ SIGNALING] in \<open>auto simp: locks_ok_def py_op_defs split: option.splits if_splits\<close>)
qed

lemma locks_reachable: "py_reachable p \<Longrightarrow> locks_ok p"
proof (induction rule: py_reachable.induct)
  case start
  then show ?case by (simp add: locks_ok_def py_channel_new_def)
next
  case (step p t p')
  then show ?case using locks_step py_inv_reachable [OF step(1)] by (auto simp: py_inv_def)
qed

lemma locking_holding: "in_on_message x \<Longrightarrow> locking x = Some n \<Longrightarrow> holding x"
  by (cases x) auto

lemma stacked_flushing: "stacked t fs \<Longrightarrow> list_ex (\<lambda>x. locking x = Some n) fs \<Longrightarrow>
   t = SIGNALING \<or> (\<exists>x \<in> set (filter holding fs). locking x = Some n)"
  by (induction rule: stacked.induct) (auto dest: locking_holding)

lemma holder_unique: "held_by p t \<Longrightarrow> holds p t \<noteq> [] \<Longrightarrow> py_registering p = Some t \<and> (\<exists>x. holds p t = [x])"
  by (auto simp: held_by_def split: if_splits)

lemma waits_cases:
  assumes "py_inv p" "locks_ok p" "waits_for p t u"
  shows "py_registering p = Some u \<or> (py_registering p = Some t \<and> t \<noteq> SIGNALING \<and> u = SIGNALING \<and>
           (\<exists>n rest. py_stack p t = Dispatched n # rest))"
proof -
  have inv: "stacked v (py_stack p v)" "held_by p v" for v using assms(1) by (auto simp: py_inv_def)
  from assms(3) consider (ask) "py_registering p = Some u"
    | (dispatch) n rest where "py_stack p t = Dispatched n # rest" "t \<noteq> SIGNALING" "u = SIGNALING"
    | (deliver) n m rest where "py_stack p t = Delivering n m # rest" "py_lock p n = Some u"
    by (auto simp: waits_for_def split: list.splits place.splits)
  then show ?thesis
  proof cases
    case ask
    then show ?thesis by simp
  next
    case dispatch
    then have "holds p t \<noteq> []" by (simp add: holds_def)
    then show ?thesis using holder_unique [OF inv(2)] dispatch by blast
  next
    case deliver
    then have "t = SIGNALING" "py_stack p SIGNALING = [Delivering n m]"
      using inv(1) [of t] by (auto simp: stacked_simps)
    moreover have "list_ex (\<lambda>x. locking x = Some n) (py_stack p u)"
      using assms(2) deliver(2) by (simp add: locks_ok_def)
    ultimately have "u \<noteq> SIGNALING" by auto
    then have "holds p u \<noteq> []"
      using stacked_flushing [OF inv(1) \<open>list_ex _ _\<close>] by (force simp: holds_def)
    then show ?thesis using holder_unique [OF inv(2)] by blast
  qed
qed

text \<open>The wait of the holder itself.\<close>

lemma holder_waits:
  assumes inv: "py_inv p" "locks_ok p" and h: "py_registering p = Some h" and w: "waits_for p h u"
  shows "u = h \<and> replaces_while_flushed p h \<or> u = SIGNALING \<and> h \<noteq> SIGNALING \<and> (\<exists>n rest. py_stack p h = Dispatched n # rest)"
proof -
  have ws: "stacked h (py_stack p h)" and "held_by p h" using inv(1) by (auto simp: py_inv_def)
  then obtain x where x: "holds p h = [x]" using h by (auto simp: held_by_def)
  from w consider (ask) n rest where "py_stack p h = Asking n # rest" "u = h"
    | (dispatch) "u = SIGNALING" "h \<noteq> SIGNALING" "\<exists>n rest. py_stack p h = Dispatched n # rest"
    | (deliver) n m rest where "py_stack p h = Delivering n m # rest"
    using h by (auto simp: waits_for_def split: list.splits place.splits)
  then show ?thesis
  proof cases
    case ask
    then obtain rest' where "rest = Running # rest'" "stacked h (Running # rest')"
      using ws by (auto simp: stacked_simps)
    then show ?thesis
      using running_rest [of h rest'] x ask by (auto simp: holds_def replaces_while_flushed_def)
  next
    case deliver
    then show ?thesis using ws x by (auto simp: stacked_simps holds_def)
  qed blast
qed

lemma signaling_waits:
  assumes inv: "py_inv p" "locks_ok p" and h: "py_registering p = Some h" "h \<noteq> SIGNALING"
    and d: "py_stack p h = Dispatched n # rest" and w: "waits_for p SIGNALING u"
  shows "registers_against_callback p h"
proof -
  have ws: "stacked v (py_stack p v)" and held: "held_by p v" for v using inv(1) by (auto simp: py_inv_def)
  have none: "holds p SIGNALING = []" using held [of SIGNALING] h by (simp add: held_by_def)
  have only: "filter holding rest = []" using held [of h] h d by (auto simp: held_by_def holds_def)
  from w consider (ask) k fs where "py_stack p SIGNALING = Asking k # fs"
    | (deliver) k m fs where "py_stack p SIGNALING = Delivering k m # fs" "py_lock p k = Some u"
    by (auto simp: waits_for_def split: list.splits place.splits)
  then show ?thesis
  proof cases
    case ask
    then obtain fs' where "fs = Running # fs'" "stacked SIGNALING (Running # fs')"
      using ws [of SIGNALING] by (auto simp: stacked_simps)
    then show ?thesis
      using none ask h d running_rest [of SIGNALING fs']
      by (auto simp: holds_def registers_against_callback_def elim: stacked_running)
  next
    case deliver
    then have stack: "py_stack p SIGNALING = [Delivering k m]" using ws [of SIGNALING] by (simp add: stacked_simps)
    have ex: "list_ex (\<lambda>x. locking x = Some k) (py_stack p u)" using inv(2) deliver(2) by (simp add: locks_ok_def)
    with stack have "u \<noteq> SIGNALING" by auto
    then obtain x where x: "x \<in> set (holds p u)" "locking x = Some k"
      using stacked_flushing [OF ws ex] by (auto simp: holds_def)
    then have "holds p u \<noteq> []" by auto
    then have "u = h" using holder_unique [OF held, of u] h(1) by auto
    then show ?thesis using x d only by (auto simp: holds_def)
  qed
qed

lemma wait_cycle:
  assumes inv: "py_inv p" "locks_ok p" and cycle: "(waits_for p)\<^sup>+\<^sup>+ t t"
  shows "\<exists>h. py_registering p = Some h \<and> (replaces_while_flushed p h \<or> registers_against_callback p h)"
proof -
  obtain h where h: "py_registering p = Some h" and hh: "(waits_for p)\<^sup>+\<^sup>+ h h"
  proof -
    from cycle obtain u where u: "waits_for p t u" "(waits_for p)\<^sup>*\<^sup>* u t" by (meson tranclpD)
    then have "(waits_for p)\<^sup>+\<^sup>+ u u" by (meson rtranclp_into_tranclp1)
    then show ?thesis using waits_cases [OF inv u(1)] that cycle by blast
  qed
  from hh obtain u where u: "waits_for p h u" "(waits_for p)\<^sup>*\<^sup>* u h" by (meson tranclpD)
  from holder_waits [OF inv h u(1)] show ?thesis
  proof
    assume "u = h \<and> replaces_while_flushed p h"
    then show ?thesis using h by blast
  next
    assume d: "u = SIGNALING \<and> h \<noteq> SIGNALING \<and> (\<exists>n rest. py_stack p h = Dispatched n # rest)"
    then have "(waits_for p)\<^sup>+\<^sup>+ SIGNALING h" using u(2) by (metis rtranclpD)
    then obtain v where "waits_for p SIGNALING v" by (meson tranclpD)
    then show ?thesis using signaling_waits [OF inv h] d h by blast
  qed
qed

definition moves :: "py_channel \<Rightarrow> thread \<Rightarrow> bool" where
  "moves p t \<longleftrightarrow> (\<exists>p'. py_step t p p' \<and> (py_stack p' t \<noteq> py_stack p t \<or> py_gil p \<noteq> Some t \<and> py_gil p' = Some t))"

lemma movesI: "py_step t p p' \<Longrightarrow> py_stack p' t \<noteq> py_stack p t \<Longrightarrow> moves p t"
  by (auto simp: moves_def)

lemma moves_on:
  assumes fs: "py_stack p t = x # rest" and ws: "stacked t (py_stack p t)"
  shows "(\<exists>u. waits_for p t u) \<or> wants_gil p t \<and> py_gil p \<noteq> None \<or> moves p t"
proof (cases x)
  case Running
  consider "py_gil p = None" | "py_gil p = Some t" | u where "py_gil p = Some u" "u \<noteq> t" by fastforce
  then show ?thesis
  proof cases
    case 1
    then have "py_step t p (p\<lparr>py_gil := Some t\<rparr>)" using fs Running by (intro gil_taken) auto
    then show ?thesis using 1 by (auto simp: moves_def)
  next
    case 2
    have "py_stack (python_returns t rest p) t \<noteq> py_stack p t"
      using fs Running by (auto simp: python_returns_def at_def Let_def split: list.splits place.splits)
    then show ?thesis using returns [of p t rest] fs Running 2 by (auto intro: movesI)
  next
    case 3
    then show ?thesis using fs Running by (simp add: wants_gil_def)
  qed
next
  case (Asking n)
  then show ?thesis
    using fs locks [of p t n rest]
    by (cases "py_registering p") (auto simp: waits_for_def py_op_defs intro!: movesI)
next
  case (Flushing n ms)
  then show ?thesis
    using fs flushed [of p t n rest] flushes [of p t n "hd ms" "tl ms" rest 0]
    by (cases ms; cases "py_gil p") (auto simp: wants_gil_def py_op_defs intro!: movesI)
next
  case (Dispatched n)
  then show ?thesis
    using fs by (cases "t = SIGNALING \<or> py_stack p SIGNALING = []")
      (auto simp: waits_for_def at_def intro!: movesI [OF dispatched])
next
  case (Delivering n m)
  then have "t = SIGNALING" "rest = []" using ws fs by (auto simp: stacked_simps)
  then show ?thesis
    using fs Delivering delivers [of p n m]
    by (cases "py_lock p n") (auto simp: waits_for_def py_op_defs intro!: movesI)
next
  case (Handing n m)
  then have "t = SIGNALING" "rest = []" using ws fs by (auto simp: stacked_simps)
  then show ?thesis
    using fs Handing calls [of p n m 0]
    by (cases "py_gil p") (auto simp: wants_gil_def py_op_defs intro!: movesI)
next
  case (Installing n)
  then show ?thesis using fs installs [of p t n rest] by (auto simp: py_op_defs intro!: movesI)
next
  case (Registering n)
  then show ?thesis
    using fs registers [of p t n rest] by (auto simp: py_op_defs intro!: movesI split: if_splits)
next
  case (Publishing n)
  then show ?thesis using fs publishes [of p t n rest] by (auto simp: py_op_defs intro!: movesI)
next
  case Finishing
  then show ?thesis using fs finishes [of p t rest] by (auto simp: py_op_defs intro!: movesI)
next
  case (InCallback n)
  then show ?thesis using fs ws by (auto simp: stacked_simps)
next
  case InOther
  then show ?thesis using fs ws by (auto simp: stacked_simps)
qed


section \<open>Both ways are reached\<close>

text \<open>A message came before the handler was set; the handler replaces itself when it is handed it.\<close>

definition some_message :: message where "some_message = ([], False)"

definition handed_held :: py_channel where
  "handed_held =
     flush_one 1 1 some_message [] 0 [Running]
       (install_callback 1 1 [Running]
         (lock_registering 1 1 [Running]
           (call_on_message 1
             ((at 1 [Running]
               (message_arrives some_message (py_channel_new\<lparr>py_chunked := True, py_registered := True\<rparr>)))
              \<lparr>py_gil := Some 1\<rparr>))))"

lemmas py_sample_simps = py_op_defs py_channel_new_def SIGNALING_def some_message_def

lemma handed_held_fields:
  "py_stack handed_held 1 = [Running, Flushing 1 [], Running]" "py_gil handed_held = Some 1"
  "py_registering handed_held = Some 1" "py_calls handed_held 1 = [some_message]"
  by (simp_all add: handed_held_def py_sample_simps)

lemma handed_held_reachable: "py_reachable handed_held"
proof -
  let ?d = "py_channel_new\<lparr>py_chunked := True, py_registered := True\<rparr>"
  let ?m = "message_arrives some_message ?d"
  let ?g = "(at 1 [Running] ?m)\<lparr>py_gil := Some 1\<rparr>"
  have "py_reachable ?d" by (rule py_reachable.step [OF start decides])
  then have "py_reachable ?m"
    by (rule py_reachable.step) (rule arrives; simp add: py_sample_simps)
  then have "py_reachable (at 1 [Running] ?m)"
    by (rule py_reachable.step) (rule python_begins; simp add: py_sample_simps)
  then have "py_reachable ?g"
    by (rule py_reachable.step) (rule gil_taken [where rest = "[]"]; simp add: py_sample_simps)
  then have "py_reachable (call_on_message 1 ?g)"
    by (rule py_reachable.step) (rule asks [where rest = "[]"]; simp add: py_sample_simps)
  then have "py_reachable (lock_registering 1 1 [Running] (call_on_message 1 ?g))"
    by (rule py_reachable.step) (rule locks; simp add: py_sample_simps)
  then have "py_reachable (install_callback 1 1 [Running] (lock_registering 1 1 [Running] (call_on_message 1 ?g)))"
    by (rule py_reachable.step) (rule installs; simp add: py_sample_simps)
  then show ?thesis
    unfolding handed_held_def by (rule py_reachable.step) (rule flushes; simp add: py_sample_simps)
qed

text \<open>The crate lets a handler that is handed a held message replace itself; from Python it waits for
  itself for ever.\<close>

lemma self_replacing_handler_hangs:
  "\<exists>p. py_reachable p \<and> py_calls p 1 = [some_message] \<and> waits_for p 1 1 \<and> replaces_while_flushed p 1"
proof (intro exI conjI)
  show "py_reachable (call_on_message 1 handed_held)"
    by (rule py_reachable.step [OF handed_held_reachable]) (rule asks [where rest = "[Flushing 1 [], Running]"]; simp add: handed_held_fields del: One_nat_def)
  show "py_calls (call_on_message 1 handed_held) 1 = [some_message]"
    by (simp add: call_on_message_def at_def handed_held_fields del: One_nat_def)
  show "waits_for (call_on_message 1 handed_held) 1 1" "replaces_while_flushed (call_on_message 1 handed_held) 1"
    by (simp_all add: waits_for_def replaces_while_flushed_def call_on_message_def at_def handed_held_fields
        del: One_nat_def)
qed

text \<open>Another callback on the signalling thread sets the handler while a first registration waits for
  that thread.\<close>

definition crossed :: py_channel where
  "crossed =
     py_ensure_registered 1 1 [Running]
       (flush_done 1 1 [Running]
         (install_callback 1 1 [Running]
           (lock_registering 1 1 [Running]
             (call_on_message SIGNALING
               ((at SIGNALING [Running, InOther]
                 (call_on_message 1 ((at 1 [Running] py_channel_new)\<lparr>py_gil := Some 1\<rparr>)))
                \<lparr>py_gil := Some SIGNALING\<rparr>)))))"

lemma crossed_reachable: "py_reachable crossed"
proof -
  let ?a = "call_on_message 1 ((at 1 [Running] py_channel_new)\<lparr>py_gil := Some 1\<rparr>)"
  let ?b = "(at SIGNALING [Running, InOther] ?a)\<lparr>py_gil := Some SIGNALING\<rparr>"
  let ?c = "lock_registering 1 1 [Running] (call_on_message SIGNALING ?b)"
  have "py_reachable (at 1 [Running] py_channel_new)"
    by (rule py_reachable.step [OF start]) (rule python_begins; simp add: py_sample_simps)
  then have "py_reachable ((at 1 [Running] py_channel_new)\<lparr>py_gil := Some 1\<rparr>)"
    by (rule py_reachable.step) (rule gil_taken [where rest = "[]"]; simp add: py_sample_simps)
  then have "py_reachable ?a"
    by (rule py_reachable.step) (rule asks [where rest = "[]"]; simp add: py_sample_simps)
  then have "py_reachable ?b"
    by (rule py_reachable.step) (rule other_begins; simp add: py_sample_simps)
  then have "py_reachable (call_on_message SIGNALING ?b)"
    by (rule py_reachable.step) (rule asks [where rest = "[InOther]"]; simp add: py_sample_simps)
  then have "py_reachable ?c"
    by (rule py_reachable.step) (rule locks; simp add: py_sample_simps)
  then have "py_reachable (install_callback 1 1 [Running] ?c)"
    by (rule py_reachable.step) (rule installs; simp add: py_sample_simps)
  then have "py_reachable (flush_done 1 1 [Running] (install_callback 1 1 [Running] ?c))"
    by (rule py_reachable.step) (rule flushed; simp add: py_sample_simps)
  then show ?thesis
    unfolding crossed_def by (rule py_reachable.step) (rule registers; simp add: py_sample_simps)
qed

lemma crossed_waits: "waits_for crossed 1 SIGNALING" "waits_for crossed SIGNALING 1"
  by (simp_all add: waits_for_def crossed_def py_sample_simps)


text \<open>The handler that leaves itself alone: set, with one call counted.\<close>

definition handler_set :: py_channel where
  "handler_set =
     finish_on_message 1 [Running]
       (publish_totals 1 1 [Running]
         (py_ensure_registered 1 1 [Running]
           (flush_done 1 1 [Running] (python_returns 1 [Flushing 1 [], Running] handed_held))))"

lemma handler_set_reachable: "py_reachable handler_set"
proof -
  let ?a = "python_returns 1 [Flushing 1 [], Running] handed_held"
  note defs = py_sample_simps handed_held_def
  have "py_reachable ?a"
    by (rule py_reachable.step [OF handed_held_reachable]) (rule returns; simp add: handed_held_fields del: One_nat_def)
  then have "py_reachable (flush_done 1 1 [Running] ?a)"
    by (rule py_reachable.step) (rule flushed; simp add: defs)
  then have "py_reachable (py_ensure_registered 1 1 [Running] (flush_done 1 1 [Running] ?a))"
    by (rule py_reachable.step) (rule registers; simp add: defs)
  then have "py_reachable (publish_totals 1 1 [Running] (py_ensure_registered 1 1 [Running] (flush_done 1 1 [Running] ?a)))"
    by (rule py_reachable.step) (rule publishes; simp add: defs)
  then show ?thesis
    unfolding handler_set_def by (rule py_reachable.step) (rule finishes; simp add: defs)
qed

lemma published_totals_are_installed_witness:
  "py_handoff_stats handler_set = py_totals handler_set 1 \<and> hs_count (py_handoff_stats handler_set) = 1"
proof -
  have "py_registering handler_set = None" "py_slot handler_set = Some 1" "py_handoff handler_set = 1"
    "py_calls handler_set 1 = [some_message]"
    by (simp_all add: handler_set_def py_sample_simps handed_held_def)
  then show ?thesis using published_totals_are_installed [OF handler_set_reachable] by (simp del: One_nat_def) (metis One_nat_def length_Cons list.size(3))
qed

end
