(* ===== verification/Py_Connection.thy ===== *)
theory Py_Connection
  imports Py_Track Peer_Agreement
begin

text \<open>
  Connections, transceivers, observers and data channels in the Python bindings
  (\<open>crates/reactor-webrtc-py/src/lib.rs\<close>), over the crate's model: what each wrapper refuses before
  it calls the crate, what it converts, and how an awaitable call ends. At the end, two Python
  applications that negotiate with each other are shown to be two connections of
  \<open>Peer_Agreement\<close>.

  An awaitable call runs the crate on a blocking task. A task that never ran, because the runtime
  was shut down, is an error of its own; the crate was then not called. A call on an object after
  its drop is refused, except on a connection, where there is none.
\<close>

section \<open>Awaitable calls\<close>

definition join_err :: "string \<Rightarrow> py_error" where
  "join_err e = PyRuntimeError (Said (Fmt ''task join: {e}'' [AStr e]))"

text \<open>\<open>cancelled\<close> is why the task did not run. A task works on a state.\<close>

definition spawn_blocking :: "string option \<Rightarrow> ('s \<Rightarrow> 'a \<times> 's) \<Rightarrow> 's \<Rightarrow> (string + 'a) \<times> 's" where
  "spawn_blocking cancelled task s =
     (case cancelled of Some e \<Rightarrow> (Inl e, s) | None \<Rightarrow> map_prod Inr id (task s))"

definition awaited :: "string + 'a result \<Rightarrow> py_error + 'a" where
  "awaited r = (case r of Inl e \<Rightarrow> Inl (join_err e) | Inr answer \<Rightarrow> map_err py_err answer)"

text \<open>A task that leaves no trace.\<close>

definition await_pure :: "string option \<Rightarrow> 'a result \<Rightarrow> py_error + 'a" where
  "await_pure cancelled answer = awaited (fst (spawn_blocking cancelled (Pair answer) ()))"

definition convert :: "('a \<Rightarrow> 'b) \<Rightarrow> py_error + 'a \<Rightarrow> py_error + 'b" where
  "convert f r = res_bind r (\<lambda>x. Inr (f x))"

section \<open>Timeouts\<close>

text \<open>A Python float of seconds: NaN, or a number of nanoseconds, or beyond every \<open>Duration\<close>.\<close>

datatype py_seconds = NotANumber | Nanos int | Infinite | NegInfinite

definition DURATION_MAX :: nat where
  "DURATION_MAX = u64_max * 1000000000 + 999999999"

definition try_from_secs :: "py_seconds \<Rightarrow> nat option" where
  "try_from_secs s =
     (case s of Nanos n \<Rightarrow> if 0 \<le> n \<and> nat n \<le> DURATION_MAX then Some (nat n) else None | _ \<Rightarrow> None)"

definition max_zero :: "py_seconds \<Rightarrow> py_seconds" where
  "max_zero s = (case s of Nanos n \<Rightarrow> Nanos (max n 0) | Infinite \<Rightarrow> Infinite | _ \<Rightarrow> Nanos 0)"

definition timeout_secs :: "string \<Rightarrow> py_seconds \<Rightarrow> py_error + nat" where
  "timeout_secs name secs =
     (if secs = NotANumber
      then Inl (PyValueError (Said (Fmt ''{name} must be a number, not NaN'' [AStr name])))
      else Inr (case try_from_secs (max_zero secs) of Some d \<Rightarrow> d | None \<Rightarrow> DURATION_MAX))"

text \<open>Every timeout but NaN is taken, monotonically: the negative ones are no wait at all, and what no
  \<open>Duration\<close> holds is the longest one.\<close>

lemma timeout_secs_cases:
  "timeout_secs name (Nanos n) = Inr (min (nat n) DURATION_MAX)"
  "timeout_secs name Infinite = Inr DURATION_MAX"
  "timeout_secs name NegInfinite = Inr 0"
  by (auto simp: timeout_secs_def max_zero_def try_from_secs_def min_def)

section \<open>Transceivers\<close>

type_synonym py_transceiver = "transceiver option"

definition py_tc :: "py_transceiver \<Rightarrow> py_error + transceiver" where
  "py_tc t =
     (case t of Some tc \<Rightarrow> Inr tc
      | None \<Rightarrow> Inl (PyRuntimeError (Said (Text ''Transceiver used after being dropped''))))"

definition py_mid :: "py_transceiver \<Rightarrow> int \<times> string \<Rightarrow> py_error + string option" where
  "py_mid t answer = convert (\<lambda>_. tc_mid answer) (py_tc t)"

definition py_kind_of :: "py_transceiver \<Rightarrow> py_error + media_kind" where
  "py_kind_of t = convert tc_kind (py_tc t)"

text \<open>A pre-encoded track, and anything a caller may pass as a track.\<close>

definition py_native_encoded :: "encoded_video_track option \<Rightarrow> py_error + encoded_video_track" where
  "py_native_encoded t =
     (case t of Some et \<Rightarrow> Inr et
      | None \<Rightarrow> Inl (PyRuntimeError (Said (Text ''EncodedVideoTrack used after being dropped''))))"

datatype py_any = ATrack py_track | AnEncodedTrack "encoded_video_track option" | AnythingElse

text \<open>The native track of either, for a sender.\<close>

definition track_of_kind :: "py_track \<Rightarrow> py_error + track" where
  "track_of_kind t =
     res_bind (py_track_kind t) (\<lambda>kind. if kind = Audio then py_audio t else py_video t)"

definition track_argument :: "py_any \<Rightarrow> py_error + track" where
  "track_argument arg =
     (case arg of
        ATrack t \<Rightarrow> track_of_kind t
      | AnEncodedTrack t \<Rightarrow> convert et_track (py_native_encoded t)
      | AnythingElse \<Rightarrow> Inl (PyTypeError (Said (Text ''track must be a Track or EncodedVideoTrack''))))"

text \<open>\<open>native\<close> is libwebrtc's answer and the transceiver it leaves.\<close>

definition py_set_track ::
  "(nat \<Rightarrow> bool) \<Rightarrow> attach_answers \<Rightarrow> string option \<Rightarrow> (transceiver \<Rightarrow> track \<Rightarrow> int \<times> transceiver)
     \<Rightarrow> py_transceiver \<Rightarrow> py_any \<Rightarrow> conn_world \<Rightarrow> (py_error + unit) \<times> conn_world" where
  "py_set_track alive attach cancelled native t arg w =
     (case res_bind (py_tc t) (\<lambda>tc. convert (Pair tc) (track_argument arg)) of
        Inl e \<Rightarrow> (Inl e, w)
      | Inr (tc, track) \<Rightarrow>
          (case native tc track of
             (ok, tc') \<Rightarrow> map_prod awaited id (spawn_blocking cancelled (set_track alive attach ok tc') w)))"

definition py_set_direction ::
  "string option \<Rightarrow> (int \<Rightarrow> int) \<Rightarrow> py_transceiver \<Rightarrow> transceiver_direction \<Rightarrow> py_error + unit" where
  "py_set_direction cancelled native t direction =
     res_bind (py_tc t) (\<lambda>_. await_pure cancelled (set_direction native direction))"

definition py_set_jitter_buffer_minimum_delay ::
  "string option \<Rightarrow> (int \<Rightarrow> nat \<Rightarrow> int) \<Rightarrow> py_transceiver \<Rightarrow> py_seconds option \<Rightarrow> py_error + unit" where
  "py_set_jitter_buffer_minimum_delay cancelled native t delay_s =
     res_bind
       (case delay_s of
          None \<Rightarrow> Inr None
        | Some s \<Rightarrow>
            (case try_from_secs s of
               Some d \<Rightarrow> Inr (Some d)
             | None \<Rightarrow> Inl (PyValueError (Said (Text
                 ''delay_s must be a finite, non-negative number of seconds'')))))
       (\<lambda>delay.
     res_bind (py_tc t) (\<lambda>_.
       case fst (spawn_blocking cancelled (Pair (set_jitter_buffer_minimum_delay native delay)) ()) of
         Inl e \<Rightarrow> Inl (join_err e)
       | Inr answer \<Rightarrow> map_err (\<lambda>e. PyValueError (Shown e)) answer))"

definition py_set_codec_preferences ::
  "string option \<Rightarrow> (string list \<Rightarrow> int) \<Rightarrow> py_transceiver \<Rightarrow> video_codec list \<Rightarrow> py_error + unit" where
  "py_set_codec_preferences cancelled native t codecs =
     res_bind (py_tc t) (\<lambda>_. await_pure cancelled (set_codec_preferences native codecs))"

definition py_set_send_bitrate ::
  "string option \<Rightarrow> (int \<Rightarrow> int \<Rightarrow> int \<times> string) \<Rightarrow> py_transceiver \<Rightarrow> int option \<Rightarrow> int option \<Rightarrow> py_error + unit" where
  "py_set_send_bitrate cancelled native t min_bps max_bps =
     res_bind (py_tc t) (\<lambda>_. await_pure cancelled (set_send_bitrate native min_bps max_bps))"

text \<open>Not awaitable: the GIL is released, and the call is made.\<close>

definition on_transceiver ::
  "(transceiver \<Rightarrow> conn_world \<Rightarrow> 'a result \<times> conn_world) \<Rightarrow> py_transceiver \<Rightarrow> conn_world
     \<Rightarrow> (py_error + 'a) \<times> conn_world" where
  "on_transceiver f t w = (case py_tc t of Inl e \<Rightarrow> (Inl e, w) | Inr tc \<Rightarrow> map_prod (map_err py_err) id (f tc w))"

definition py_set_sender_transform ::
  "attach_answers \<Rightarrow> py_transceiver \<Rightarrow> encoded_cb \<Rightarrow> conn_world \<Rightarrow> (py_error + unit) \<times> conn_world" where
  "py_set_sender_transform attach t transform w =
     on_transceiver (\<lambda>tc. set_sender_transform attach tc transform) t w"

definition py_set_receiver_transform ::
  "attach_answers \<Rightarrow> py_transceiver \<Rightarrow> encoded_cb \<Rightarrow> conn_world \<Rightarrow> (py_error + unit) \<times> conn_world" where
  "py_set_receiver_transform attach t transform w =
     on_transceiver (\<lambda>tc. set_receiver_transform attach tc transform) t w"

section \<open>Data channels\<close>

definition py_send ::
  "'n native_api \<Rightarrow> 'n \<Rightarrow> channel \<Rightarrow> bytes \<Rightarrow> bool \<Rightarrow> ((py_error + unit) \<times> 'n \<times> channel \<times> bytes list) option" where
  "py_send api w ch data binary =
     map_option (\<lambda>(r, w, ch, fs). (map_err py_err r, w, ch, fs)) (dc_send api w ch data binary)"

text \<open>\<open>deadline\<close> adds a duration to the clock, when the sum fits. The channel is as it was when the
  task never ran.\<close>

definition py_drain ::
  "'n native_api \<Rightarrow> nat \<Rightarrow> (nat \<Rightarrow> nat option) \<Rightarrow> string option \<Rightarrow> py_seconds \<Rightarrow> 'n \<Rightarrow> channel
     \<Rightarrow> ((py_error + bool) \<times> 'n \<times> channel \<times> bytes list) option" where
  "py_drain api polls deadline cancelled timeout w ch =
     (case timeout_secs ''timeout'' timeout of
        Inl e \<Rightarrow> Some (Inl e, w, ch, [])
      | Inr d \<Rightarrow>
          (case cancelled of
             Some e \<Rightarrow> Some (Inl (join_err e), w, ch, [])
           | None \<Rightarrow> map_option (\<lambda>(b, rest). (Inr b, rest)) (dc_drain api polls (deadline d) w ch)))"

definition py_close ::
  "'n native_api \<Rightarrow> nat \<Rightarrow> (nat \<Rightarrow> nat option) \<Rightarrow> py_seconds \<Rightarrow> 'n \<Rightarrow> channel
     \<Rightarrow> ((py_error + unit) \<times> 'n \<times> channel \<times> bytes list) option" where
  "py_close api polls deadline drain_timeout w ch =
     (case timeout_secs ''drain_timeout'' drain_timeout of
        Inl e \<Rightarrow> Some (Inl e, w, ch, [])
      | Inr d \<Rightarrow> map_option (\<lambda>rest. (Inr (), rest)) (dc_close api polls (deadline d) w ch))"

section \<open>Observers\<close>

text \<open>Which attributes were set. The builder sets the crate's callbacks one after another.\<close>

record py_observer =
  po_connection_state_change :: bool
  po_ice_gathering_change :: bool
  po_ice_candidate :: bool
  po_track :: bool
  po_data_channel :: bool

definition build_rust_observer :: "py_observer \<Rightarrow> observer" where
  "build_rust_observer ob =
     (let obs = observer_new;
          obs = (if po_connection_state_change ob then on_connection_state_change obs else obs);
          obs = (if po_ice_gathering_change ob then on_ice_gathering_change obs else obs);
          obs = (if po_ice_candidate ob then on_ice_candidate obs else obs);
          obs = (if po_track ob then on_track obs else obs)
      in if po_data_channel ob then on_data_channel obs else obs)"

record py_candidate =
  pn_candidate :: string
  pn_sdp_mid :: "string option"
  pn_sdp_mline_index :: "u16 option"

definition candidate_to_py :: "ice_candidate \<Rightarrow> py_candidate" where
  "candidate_to_py c =
     \<lparr>pn_candidate = ic_candidate c, pn_sdp_mid = ic_sdp_mid c, pn_sdp_mline_index = ic_sdp_mline_index c\<rparr>"

definition candidate_from_py :: "py_candidate \<Rightarrow> ice_candidate" where
  "candidate_from_py c =
     \<lparr>ic_candidate = pn_candidate c, ic_sdp_mid = pn_sdp_mid c, ic_sdp_mline_index = pn_sdp_mline_index c\<rparr>"

text \<open>What the Python callbacks are given: a candidate; a kind and a track, whose own kind it is.\<close>

definition py_on_ice_candidate :: "py_observer \<Rightarrow> string option \<Rightarrow> int \<Rightarrow> string option \<Rightarrow> py_candidate option" where
  "py_on_ice_candidate ob mid index candidate =
     map_option candidate_to_py (tramp_ice (build_rust_observer ob) mid index candidate)"

definition track_callback_args :: "track \<Rightarrow> media_kind \<times> py_track" where
  "track_callback_args t = (if tk_kind t = Video then Video else Audio, from_native t)"

section \<open>Connections\<close>

definition py_create_peer_connection ::
  "(nat \<Rightarrow> native_config \<Rightarrow> callbacks \<Rightarrow> string + nat) \<Rightarrow> factory \<Rightarrow> py_configuration \<Rightarrow> py_observer \<Rightarrow> nat
     \<Rightarrow> conn_world \<Rightarrow> (py_error + peer_connection) \<times> conn_world" where
  "py_create_peer_connection create f config ob gate w =
     map_prod (map_err py_err) id
       (create_peer_connection create f (configuration_from_py config) (build_rust_observer ob) gate w)"

definition py_create_offer :: "string option \<Rightarrow> peer_connection \<Rightarrow> sdp_answer \<Rightarrow> py_error + py_description" where
  "py_create_offer cancelled pc native = convert description_to_py (await_pure cancelled (create_offer pc native))"

definition py_create_answer ::
  "string option \<Rightarrow> peer_connection \<Rightarrow> conn_world \<Rightarrow> sdp_answer \<Rightarrow> py_error + py_description" where
  "py_create_answer cancelled pc w native =
     convert description_to_py (await_pure cancelled (create_answer pc w native))"

definition py_set_local_description ::
  "string option \<Rightarrow> (nat \<Rightarrow> bool) \<Rightarrow> attach_answers \<Rightarrow> native_transceiver option list \<Rightarrow> complete_answer
     \<Rightarrow> peer_connection \<Rightarrow> py_description \<Rightarrow> conn_world \<Rightarrow> (py_error + unit) \<times> peer_connection \<times> conn_world" where
  "py_set_local_description cancelled alive attach natives answer pc sdp w =
     (case to_rust_sdp sdp of
        Inl e \<Rightarrow> (Inl e, pc, w)
      | Inr rust \<Rightarrow>
          map_prod awaited id
            (spawn_blocking cancelled (\<lambda>(pc, w). set_local_description alive attach natives answer pc rust w) (pc, w)))"

definition py_set_remote_description ::
  "string option \<Rightarrow> (nat \<Rightarrow> bool) \<Rightarrow> attach_answers \<Rightarrow> native_transceiver option list \<Rightarrow> complete_answer
     \<Rightarrow> peer_connection \<Rightarrow> py_description \<Rightarrow> conn_world \<Rightarrow> (py_error + unit) \<times> peer_connection \<times> conn_world" where
  "py_set_remote_description cancelled alive attach natives answer pc sdp w =
     (case to_rust_sdp sdp of
        Inl e \<Rightarrow> (Inl e, pc, w)
      | Inr rust \<Rightarrow>
          map_prod awaited id
            (spawn_blocking cancelled (\<lambda>(pc, w). set_remote_description alive attach natives answer pc rust w) (pc, w)))"

definition py_add_ice_candidate ::
  "string option \<Rightarrow> (string \<Rightarrow> int \<Rightarrow> string \<Rightarrow> complete_answer) \<Rightarrow> py_candidate \<Rightarrow> py_error + unit" where
  "py_add_ice_candidate cancelled native candidate =
     await_pure cancelled (add_ice_candidate native (candidate_from_py candidate))"

text \<open>\<open>native\<close> is libwebrtc's answer for a track, with the transceivers it has then.\<close>

definition py_add_track ::
  "(nat \<Rightarrow> bool) \<Rightarrow> attach_answers \<Rightarrow> (track \<Rightarrow> int \<times> native_transceiver option list) \<Rightarrow> peer_connection
     \<Rightarrow> py_track \<Rightarrow> conn_world \<Rightarrow> (py_error + unit) \<times> conn_world" where
  "py_add_track alive attach native pc t w =
     (case track_of_kind t of
        Inl e \<Rightarrow> (Inl e, w)
      | Inr track \<Rightarrow>
          (case native track of (ok, natives) \<Rightarrow>
             map_prod (map_err py_err) id (add_track alive attach ok natives pc w)))"

definition py_add_transceiver ::
  "(int \<Rightarrow> int \<Rightarrow> native_transceiver option) \<Rightarrow> peer_connection \<Rightarrow> media_kind \<Rightarrow> transceiver_direction
     \<Rightarrow> py_error + py_transceiver" where
  "py_add_transceiver native pc kind direction =
     (if kind = UnknownKind then Inl (PyRuntimeError (Said (Text ''need Audio or Video'')))
      else convert Some (map_err py_err (add_transceiver native pc kind direction)))"

definition py_create_data_channel :: "(string \<Rightarrow> bool) \<Rightarrow> peer_connection \<Rightarrow> string \<Rightarrow> py_error + channel" where
  "py_create_data_channel native pc label = map_err py_err (create_data_channel native pc label)"

definition py_transceivers ::
  "string option \<Rightarrow> peer_connection \<Rightarrow> native_transceiver option list \<Rightarrow> py_error + py_transceiver list" where
  "py_transceivers cancelled pc natives =
     (case fst (spawn_blocking cancelled (Pair (transceivers pc natives)) ()) of
        Inl e \<Rightarrow> Inl (join_err e)
      | Inr ts \<Rightarrow> Inr (map Some ts))"

definition py_set_bitrate ::
  "string option \<Rightarrow> (int \<Rightarrow> int \<Rightarrow> int \<Rightarrow> int \<times> string) \<Rightarrow> int option \<Rightarrow> int option \<Rightarrow> int option
     \<Rightarrow> py_error + unit" where
  "py_set_bitrate cancelled native min_bps start_bps max_bps =
     await_pure cancelled (set_bitrate native min_bps start_bps max_bps)"

section \<open>Pre-encoded tracks\<close>

definition py_push_encoded_frame ::
  "encoded_video_track option \<Rightarrow> encoder_world \<Rightarrow> int \<Rightarrow> bytes \<Rightarrow> bool \<Rightarrow> u32 \<Rightarrow> u32 \<Rightarrow> u32 \<Rightarrow> bytes option
     \<Rightarrow> (py_error + unit) \<times> encoded_video_track option \<times> encoder_world" where
  "py_push_encoded_frame t w now data is_key_frame width height rtp_timestamp user_data =
     (case py_native_encoded t of
        Inl e \<Rightarrow> (Inl e, t, w)
      | Inr native \<Rightarrow>
          (let frame = \<lparr>vd_data = data, vd_is_key_frame = is_key_frame, vd_width = width, vd_height = height,
                        vd_rtp_timestamp = rtp_timestamp\<rparr> in
           case (case user_data of
                   Some ud \<Rightarrow> evt_push_frame_with_metadata native w now frame ud
                 | None \<Rightarrow> evt_push_frame native w now frame) of
             (r, native, w) \<Rightarrow> (map_err py_err r, Some native, w)))"

definition py_add_to_peer_connection ::
  "(nat \<Rightarrow> bool) \<Rightarrow> attach_answers \<Rightarrow> (track \<Rightarrow> int \<times> native_transceiver option list) \<Rightarrow> peer_connection
     \<Rightarrow> encoded_video_track option \<Rightarrow> conn_world \<Rightarrow> (py_error + unit) \<times> conn_world" where
  "py_add_to_peer_connection alive attach native pc t w =
     (case py_native_encoded t of
        Inl e \<Rightarrow> (Inl e, w)
      | Inr et \<Rightarrow>
          (case native (et_track et) of (ok, natives) \<Rightarrow>
             map_prod (map_err py_err) id (add_track alive attach ok natives pc w)))"

text \<open>The transceiver, then the track on it.\<close>

definition py_encoded_add_transceiver ::
  "(nat \<Rightarrow> bool) \<Rightarrow> attach_answers \<Rightarrow> (int \<Rightarrow> int \<Rightarrow> native_transceiver option)
     \<Rightarrow> (transceiver \<Rightarrow> track \<Rightarrow> int \<times> transceiver) \<Rightarrow> peer_connection \<Rightarrow> encoded_video_track option
     \<Rightarrow> transceiver_direction \<Rightarrow> conn_world \<Rightarrow> (py_error + py_transceiver) \<times> conn_world" where
  "py_encoded_add_transceiver alive attach native native_set_track pc t direction w =
     (case res_bind (py_native_encoded t) (\<lambda>et.
           convert (Pair (et_track et)) (map_err py_err (add_transceiver native pc Video direction))) of
        Inl e \<Rightarrow> (Inl e, w)
      | Inr (track, tc) \<Rightarrow>
          (case native_set_track tc track of (ok, tc') \<Rightarrow>
             map_prod (\<lambda>r. convert (\<lambda>_. Some tc') (map_err py_err r)) id (set_track alive attach ok tc' w)))"

section \<open>What the wrappers keep\<close>

lemma await_pure_eq: "await_pure cancelled r = (case cancelled of Some e \<Rightarrow> Inl (join_err e) | None \<Rightarrow> map_err py_err r)"
  by (simp add: await_pure_def awaited_def spawn_blocking_def split: option.split)

lemma map_err_eq_Inr: "map_err f r = Inr x \<longleftrightarrow> r = Inr x"
  by (cases r) auto

lemma convert_eq_Inr: "convert f r = Inr y \<longleftrightarrow> (\<exists>x. r = Inr x \<and> y = f x)"
  by (auto simp: convert_def res_bind_eq_Inr)

lemma to_rust_round: "to_rust_sdp (description_to_py d) = Inr d"
  by (cases "sd_kind d") (simp_all add: to_rust_sdp_def description_to_py_def parse_sdp_type_def)

lemma created_offer_py:
  "py_create_offer cancelled pc native = Inr d \<Longrightarrow> \<exists>r. create_offer pc native = Inr r \<and> to_rust_sdp d = Inr r"
  by (auto simp: py_create_offer_def await_pure_eq convert_eq_Inr map_err_eq_Inr to_rust_round split: option.splits)

lemma created_answer_py:
  "py_create_answer cancelled pc w native = Inr d \<Longrightarrow> \<exists>r. create_answer pc w native = Inr r \<and> to_rust_sdp d = Inr r"
  by (auto simp: py_create_answer_def await_pure_eq convert_eq_Inr map_err_eq_Inr to_rust_round split: option.splits)

text \<open>A candidate survives the way to Python and back, a track is given with its own kind.\<close>

lemma candidate_round: "candidate_from_py (candidate_to_py c) = c" "candidate_to_py (candidate_from_py p) = p"
  by (simp_all add: candidate_from_py_def candidate_to_py_def)

section \<open>Two Python applications\<close>

text \<open>As in \<open>Peer_Agreement\<close>, with Python descriptions in between. A description is passed on as it
  is, or retyped to a provisional answer.\<close>

record py_duo =
  pd_pc :: "side \<Rightarrow> peer_connection"
  pd_world :: "side \<Rightarrow> conn_world"
  pd_signaling :: "side \<Rightarrow> signaling"
  pd_sent :: "side \<Rightarrow> py_description list"
  pd_heard :: "side \<Rightarrow> session_description option"

definition py_taken :: "py_description \<Rightarrow> complete_answer \<Rightarrow> bool" where
  "py_taken d answer = (case to_rust_sdp d of Inl _ \<Rightarrow> False | Inr r \<Rightarrow> taken r answer)"

definition py_in_time :: "py_description \<Rightarrow> complete_answer \<Rightarrow> bool" where
  "py_in_time d answer = (case to_rust_sdp d of Inl _ \<Rightarrow> False | Inr r \<Rightarrow> in_time r answer)"

definition py_applies_local ::
  "string option \<Rightarrow> surroundings \<Rightarrow> complete_answer \<Rightarrow> py_duo \<Rightarrow> side \<Rightarrow> py_description \<Rightarrow> signaling \<Rightarrow> py_duo" where
  "py_applies_local cancelled su answer s x d sig =
     (case py_set_local_description cancelled (su_alive su) (su_attach su) (su_natives su) answer
             (pd_pc s x) d (pd_world s x) of
        (_, pc, w) \<Rightarrow>
          s\<lparr>pd_pc := (pd_pc s)(x := pc), pd_world := (pd_world s)(x := w),
            pd_signaling := (pd_signaling s)(x := sig)\<rparr>)"

definition py_applies_remote ::
  "string option \<Rightarrow> surroundings \<Rightarrow> complete_answer \<Rightarrow> py_duo \<Rightarrow> side \<Rightarrow> py_description \<Rightarrow> signaling \<Rightarrow> py_duo" where
  "py_applies_remote cancelled su answer s x d sig =
     (case py_set_remote_description cancelled (su_alive su) (su_attach su) (su_natives su) answer
             (pd_pc s x) d (pd_world s x) of
        (_, pc, w) \<Rightarrow>
          s\<lparr>pd_pc := (pd_pc s)(x := pc), pd_world := (pd_world s)(x := w),
            pd_signaling := (pd_signaling s)(x := sig),
            pd_heard := (if cancelled = None \<and> py_in_time d answer
                         then (pd_heard s)(x := Some (projr (to_rust_sdp d))) else pd_heard s)\<rparr>)"

definition py_sends :: "side \<Rightarrow> py_description \<Rightarrow> py_duo \<Rightarrow> py_duo" where
  "py_sends x d s = s\<lparr>pd_sent := (pd_sent s)(x := d # pd_sent s x)\<rparr>"

inductive py_duo_step :: "bool \<Rightarrow> py_duo \<Rightarrow> py_duo \<Rightarrow> bool" for timely where
  py_offers:
    "pd_signaling s x \<noteq> HaveRemoteOffer \<Longrightarrow> generates Offer native \<Longrightarrow>
     py_create_offer None (pd_pc s x) native = Inr d \<Longrightarrow> py_taken d answer \<Longrightarrow> timely \<longrightarrow> py_in_time d answer \<Longrightarrow>
     py_duo_step timely s (py_sends x d (py_applies_local None su answer s x d HaveLocalOffer))"
| py_hears_offer:
    "pd_signaling s x \<noteq> HaveLocalOffer \<Longrightarrow> d \<in> set (pd_sent s (other x)) \<Longrightarrow> py_kind d = ''offer'' \<Longrightarrow>
     py_taken d answer \<Longrightarrow> timely \<longrightarrow> py_in_time d answer \<Longrightarrow>
     py_duo_step timely s (py_applies_remote None su answer s x d HaveRemoteOffer)"
| py_answers:
    "pd_signaling s x = HaveRemoteOffer \<Longrightarrow> generates Answer native \<Longrightarrow>
     py_create_answer None (pd_pc s x) (pd_world s x) native = Inr d \<Longrightarrow> py_taken d answer \<Longrightarrow>
     timely \<longrightarrow> py_in_time d answer \<Longrightarrow>
     py_duo_step timely s (py_sends x d (py_applies_local None su answer s x d Stable))"
| py_hears_answer:
    "pd_signaling s x = HaveLocalOffer \<Longrightarrow> d \<in> set (pd_sent s (other x)) \<Longrightarrow> py_kind d = ''answer'' \<Longrightarrow>
     py_taken d answer \<Longrightarrow> timely \<longrightarrow> py_in_time d answer \<Longrightarrow>
     py_duo_step timely s (py_applies_remote None su answer s x d Stable)"
| py_answers_provisionally:
    "pd_signaling s x = HaveRemoteOffer \<Longrightarrow> generates Answer native \<Longrightarrow>
     py_create_answer None (pd_pc s x) (pd_world s x) native = Inr d \<Longrightarrow> d' = d\<lparr>py_kind := ''pranswer''\<rparr> \<Longrightarrow>
     py_taken d' answer \<Longrightarrow> timely \<longrightarrow> py_in_time d' answer \<Longrightarrow>
     py_duo_step timely s (py_sends x d' (py_applies_local None su answer s x d' HaveRemoteOffer))"
| py_hears_provisional:
    "pd_signaling s x = HaveLocalOffer \<Longrightarrow> d \<in> set (pd_sent s (other x)) \<Longrightarrow> py_kind d = ''pranswer'' \<Longrightarrow>
     py_taken d answer \<Longrightarrow> timely \<longrightarrow> py_in_time d answer \<Longrightarrow>
     py_duo_step timely s (py_applies_remote None su answer s x d HaveLocalOffer)"
| py_rolls_back_local:
    "pd_signaling s x = HaveLocalOffer \<Longrightarrow> d = \<lparr>py_kind = ''rollback'', py_sdp = ''''\<rparr> \<Longrightarrow>
     py_taken d answer \<Longrightarrow> timely \<longrightarrow> py_in_time d answer \<Longrightarrow>
     py_duo_step timely s (py_applies_local None su answer s x d Stable)"
| py_rolls_back_remote:
    "pd_signaling s x = HaveRemoteOffer \<Longrightarrow> d = \<lparr>py_kind = ''rollback'', py_sdp = ''''\<rparr> \<Longrightarrow>
     py_taken d answer \<Longrightarrow> timely \<longrightarrow> py_in_time d answer \<Longrightarrow>
     py_duo_step timely s (py_applies_remote None su answer s x d Stable)"
| py_raises_local:
    "cancelled \<noteq> None \<or> \<not> py_taken d answer \<Longrightarrow>
     py_duo_step timely s (py_applies_local cancelled su answer s x d (pd_signaling s x))"
| py_raises_remote:
    "cancelled \<noteq> None \<or> \<not> py_taken d answer \<Longrightarrow>
     py_duo_step timely s (py_applies_remote cancelled su answer s x d (pd_signaling s x))"

inductive py_duo_reachable :: "bool \<Rightarrow> py_duo \<Rightarrow> py_duo \<Rightarrow> bool" for timely s0 where
  py_start: "py_duo_reachable timely s0 s0"
| py_next: "py_duo_reachable timely s0 s \<Longrightarrow> py_duo_step timely s s' \<Longrightarrow> py_duo_reachable timely s0 s'"

definition abs_duo :: "py_duo \<Rightarrow> duo" where
  "abs_duo s =
     \<lparr>du_pc = pd_pc s, du_world = pd_world s, du_signaling = pd_signaling s,
      du_sent = (\<lambda>x. List.map_filter (\<lambda>d. case to_rust_sdp d of Inl _ \<Rightarrow> None | Inr r \<Rightarrow> Some r) (pd_sent s x)),
      du_heard = pd_heard s\<rparr>"

lemma abs_duo_fields [simp]:
  "du_pc (abs_duo s) = pd_pc s" "du_world (abs_duo s) = pd_world s" "du_signaling (abs_duo s) = pd_signaling s"
  "du_heard (abs_duo s) = pd_heard s"
  by (simp_all add: abs_duo_def)

lemma abs_sent: "d \<in> set (pd_sent s x) \<Longrightarrow> to_rust_sdp d = Inr r \<Longrightarrow> r \<in> set (du_sent (abs_duo s) x)"
  by (auto simp: abs_duo_def List.map_filter_def image_iff intro!: bexI [of _ d])

lemma abs_py_sends: "to_rust_sdp d = Inr r \<Longrightarrow> abs_duo (py_sends x d s) = sends x r (abs_duo s)"
  by (auto simp: abs_duo_def py_sends_def sends_def List.map_filter_simps fun_eq_iff)

lemma awaited_applies:
  assumes "to_rust_sdp d = Inr r"
  shows "abs_duo (py_applies_local None su answer s x d sig) = applies_local su answer (abs_duo s) x r sig"
    and "abs_duo (py_applies_remote None su answer s x d sig) = applies_remote su answer (abs_duo s) x r sig"
  by (simp_all add: abs_duo_def py_applies_local_def py_applies_remote_def applies_local_def applies_remote_def
      py_set_local_description_def py_set_remote_description_def spawn_blocking_def py_in_time_def assms
      split: prod.split)

lemma raised_applies:
  assumes "cancelled \<noteq> None \<or> to_rust_sdp d = Inl e"
  shows "abs_duo (py_applies_local cancelled su answer s x d (pd_signaling s x)) = abs_duo s"
    and "abs_duo (py_applies_remote cancelled su answer s x d (pd_signaling s x)) = abs_duo s"
  using assms
  by (auto simp: abs_duo_def py_applies_local_def py_applies_remote_def py_set_local_description_def
      py_set_remote_description_def spawn_blocking_def py_in_time_def split: sum.split)

lemma kind_of_rust: "to_rust_sdp d = Inr r \<Longrightarrow> sdp_type_to_str (sd_kind r) = py_kind d"
  by (auto simp: to_rust_sdp_def parse_sdp_type_iff split: option.splits)

lemma rust_of_kind: "to_rust_sdp d = Inr r \<Longrightarrow> py_kind d = sdp_type_to_str k \<Longrightarrow> sd_kind r = k"
  using kind_of_rust [of d r] by (cases k; cases "sd_kind r") simp_all

lemmas rust_kinds = rust_of_kind [of _ _ Offer, simplified] rust_of_kind [of _ _ Answer, simplified]
  rust_of_kind [of _ _ PrAnswer, simplified]

lemma py_taken_eq: "py_taken d answer \<longleftrightarrow> (\<exists>r. to_rust_sdp d = Inr r \<and> taken r answer)"
  "to_rust_sdp d = Inr r \<Longrightarrow> py_in_time d answer = in_time r answer"
  by (auto simp: py_taken_def py_in_time_def split: sum.split)

lemma rollback_rust: "to_rust_sdp \<lparr>py_kind = ''rollback'', py_sdp = []\<rparr> = Inr \<lparr>sd_kind = Rollback, sd_sdp = []\<rparr>"
  by (simp add: to_rust_sdp_def parse_sdp_type_def)

lemma retyped_rust: "to_rust_sdp d = Inr r \<Longrightarrow> to_rust_sdp (d\<lparr>py_kind := ''pranswer''\<rparr>) = Inr (r\<lparr>sd_kind := PrAnswer\<rparr>)"
  by (auto simp: to_rust_sdp_def parse_sdp_type_def split: option.splits if_splits)

lemma py_duo_step_simulates:
  assumes "py_duo_step timely s s'"
  shows "duo_step timely (abs_duo s) (abs_duo s') \<or> abs_duo s' = abs_duo s"
  using assms
proof cases
  case (py_offers x native d answer su)
  then obtain r where r: "create_offer (pd_pc s x) native = Inr r" "to_rust_sdp d = Inr r"
    using created_offer_py by blast
  show ?thesis
    unfolding py_offers abs_py_sends [OF r(2)] awaited_applies [OF r(2)]
    by (rule disjI1, rule duo_step.offers) (use py_offers r in \<open>auto simp: py_taken_eq\<close>)
next
  case (py_hears_offer x d answer su)
  then obtain r where r: "to_rust_sdp d = Inr r" by (auto simp: py_taken_eq)
  show ?thesis
    unfolding py_hears_offer awaited_applies [OF r]
    by (rule disjI1, rule duo_step.hears_offer)
      (use py_hears_offer r rust_kinds in \<open>auto simp: py_taken_eq intro: abs_sent\<close>)
next
  case (py_answers x native d answer su)
  then obtain r where r: "create_answer (pd_pc s x) (pd_world s x) native = Inr r" "to_rust_sdp d = Inr r"
    using created_answer_py by blast
  show ?thesis
    unfolding py_answers abs_py_sends [OF r(2)] awaited_applies [OF r(2)]
    by (rule disjI1, rule duo_step.answers) (use py_answers r in \<open>auto simp: py_taken_eq\<close>)
next
  case (py_hears_answer x d answer su)
  then obtain r where r: "to_rust_sdp d = Inr r" by (auto simp: py_taken_eq)
  show ?thesis
    unfolding py_hears_answer awaited_applies [OF r]
    by (rule disjI1, rule duo_step.hears_answer)
      (use py_hears_answer r rust_kinds in \<open>auto simp: py_taken_eq intro: abs_sent\<close>)
next
  case (py_answers_provisionally x native d d' answer su)
  then obtain r where r: "create_answer (pd_pc s x) (pd_world s x) native = Inr r" "to_rust_sdp d = Inr r"
    using created_answer_py by blast
  note r' = retyped_rust [OF r(2), folded py_answers_provisionally(5)]
  show ?thesis
    unfolding py_answers_provisionally(1) abs_py_sends [OF r'] awaited_applies [OF r']
    by (rule disjI1, rule duo_step.answers_provisionally)
      (use py_answers_provisionally r r' in \<open>auto simp: py_taken_eq\<close>)
next
  case (py_hears_provisional x d answer su)
  then obtain r where r: "to_rust_sdp d = Inr r" by (auto simp: py_taken_eq)
  show ?thesis
    unfolding py_hears_provisional awaited_applies [OF r]
    by (rule disjI1, rule duo_step.hears_provisional)
      (use py_hears_provisional r rust_kinds in \<open>auto simp: py_taken_eq intro: abs_sent\<close>)
next
  case (py_rolls_back_local x d answer su)
  note r = rollback_rust [folded py_rolls_back_local(3)]
  show ?thesis
    unfolding py_rolls_back_local(1) awaited_applies [OF r]
    by (rule disjI1, rule duo_step.rolls_back_local) (use py_rolls_back_local r in \<open>auto simp: py_taken_eq\<close>)
next
  case (py_rolls_back_remote x d answer su)
  note r = rollback_rust [folded py_rolls_back_remote(3)]
  show ?thesis
    unfolding py_rolls_back_remote(1) awaited_applies [OF r]
    by (rule disjI1, rule duo_step.rolls_back_remote) (use py_rolls_back_remote r in \<open>auto simp: py_taken_eq\<close>)
next
  case (py_raises_local cancelled d answer su x)
  show ?thesis
  proof (cases "cancelled = None \<and> is_ok (to_rust_sdp d)")
    case True
    then obtain r where r: "to_rust_sdp d = Inr r" by (auto simp: is_ok_iff)
    show ?thesis
      unfolding py_raises_local conjunct1 [OF True] awaited_applies [OF r]
      by (rule disjI1) (use refused_local [of r answer timely "abs_duo s" su x] py_raises_local True r
          in \<open>auto simp: py_taken_eq\<close>)
  next
    case False
    then obtain e where "cancelled \<noteq> None \<or> to_rust_sdp d = Inl e" by (cases "to_rust_sdp d") auto
    from raised_applies(1) [OF this] show ?thesis unfolding py_raises_local by blast
  qed
next
  case (py_raises_remote cancelled d answer su x)
  show ?thesis
  proof (cases "cancelled = None \<and> is_ok (to_rust_sdp d)")
    case True
    then obtain r where r: "to_rust_sdp d = Inr r" by (auto simp: is_ok_iff)
    show ?thesis
      unfolding py_raises_remote conjunct1 [OF True] awaited_applies [OF r]
      by (rule disjI1) (use refused_remote [of r answer timely "abs_duo s" su x] py_raises_remote True r
          in \<open>auto simp: py_taken_eq\<close>)
  next
    case False
    then obtain e where "cancelled \<noteq> None \<or> to_rust_sdp d = Inl e" by (cases "to_rust_sdp d") auto
    from raised_applies(2) [OF this] show ?thesis unfolding py_raises_remote by blast
  qed
qed

lemma py_duo_refines:
  assumes "py_duo_reachable timely s0 s" and "duo_start (abs_duo s0)"
  shows "duo_reachable timely (abs_duo s0) (abs_duo s)"
  using assms(1)
proof induction
  case py_start
  then show ?case using assms(2) by (rule duo_reachable.start)
next
  case (py_next s s')
  then show ?case using py_duo_step_simulates [OF py_next(2)] by (metis duo_reachable.step)
qed

text \<open>C18: Two Python applications are two connections of the crate. Whatever they await, in any order,
  with descriptions passed on as Python objects, tasks that never ran and descriptions Python made
  up that raise, the two connections go through a run of the crate's own operations, and what
  holds of those holds of them: a gate is open only when both ends take part in frame metadata, and
  in a run without a timeout exactly when the last remote description applied was of the peer.\<close>
theorem python_connections_agree:
  assumes "py_duo_reachable timely s0 s" and "duo_start (abs_duo s0)"
  shows "duo_reachable timely (abs_duo s0) (abs_duo s) \<and>
    (\<forall>x. frame_metadata_gate (pd_pc s x) (pd_world s x) \<longrightarrow>
       pc_frame_metadata_enabled (pd_pc s0 A) \<and> pc_frame_metadata_enabled (pd_pc s0 B)) \<and>
    (timely \<longrightarrow> (\<forall>x. frame_metadata_gate (pd_pc s x) (pd_world s x) \<longleftrightarrow>
       pc_frame_metadata_enabled (pd_pc s0 A) \<and> pc_frame_metadata_enabled (pd_pc s0 B) \<and>
       heard_a_round (abs_duo s) x))"
proof -
  note run = py_duo_refines [OF assms]
  have "end_fm timely (abs_duo s0) (abs_duo s) x" for x
    using fm_inv_reachable [OF run] by (simp add: fm_inv_def)
  then have "(\<forall>x. gate_of (abs_duo s) x \<longrightarrow> all_take (abs_duo s0))"
    "timely \<longrightarrow> (\<forall>x. gate_of (abs_duo s) x \<longleftrightarrow> all_take (abs_duo s0) \<and> heard_a_round (abs_duo s) x)"
    by (auto simp: end_fm_def)
  with run show ?thesis unfolding gate_of_def all_take_def takes_part_def abs_duo_fields by blast
qed

text \<open>Python on both ends of fresh connections, one of which offers.\<close>

definition py_eager :: py_duo where
  "py_eager =
     \<lparr>pd_pc = du_pc eager_start, pd_world = du_world eager_start, pd_signaling = (\<lambda>_. Stable),
      pd_sent = (\<lambda>_. []), pd_heard = (\<lambda>_. None)\<rparr>"

lemma py_eager_abs: "abs_duo py_eager = eager_start"
  by (simp add: abs_duo_def py_eager_def eager_start_def List.map_filter_simps)

lemma python_connections_agree_witness:
  "\<exists>s. py_duo_reachable True py_eager s \<and> pd_signaling s A = HaveLocalOffer \<and> \<not> heard_a_round (abs_duo s) A \<and>
     \<not> frame_metadata_gate (pd_pc s A) (pd_world s A)"
proof -
  obtain offer where offer: "create_offer (pd_pc py_eager A) (native_sdp Offer) = Inr offer"
    using can_create(1) by blast
  let ?d = "description_to_py offer"
  have py: "py_create_offer None (pd_pc py_eager A) (native_sdp Offer) = Inr ?d"
    by (simp add: py_create_offer_def await_pure_eq offer convert_def)
  note o = created_taken [OF disjI1 [OF offer]]
  define s where "s = py_sends A ?d (py_applies_local None bare (Some None) py_eager A ?d HaveLocalOffer)"
  have "py_duo_step True py_eager s"
    unfolding s_def
    by (rule py_offers [OF _ native_sdp(2) py]) (simp_all add: py_eager_def py_taken_eq to_rust_round o)
  then have reach: "py_duo_reachable True py_eager s" by (rule py_duo_reachable.py_next [OF py_start])
  have sig: "pd_signaling s A = HaveLocalOffer" "pd_heard s = (\<lambda>_. None)"
    by (simp_all add: s_def py_sends_def py_applies_local_def py_eager_def split: prod.split)
  then have "\<not> heard_a_round (abs_duo s) A" by (simp add: heard_a_round_def)
  moreover have "duo_start (abs_duo py_eager)" unfolding py_eager_abs by (rule eager_start(1))
  ultimately show ?thesis using python_connections_agree [OF reach] reach sig(1) by blast
qed

end
