(* ===== verification/Py_Stats.thy ===== *)
theory Py_Stats
  imports Py_Connection Stats_Props Chunking_Times
begin

text \<open>
  Statistics in the Python bindings (\<open>crates/reactor-webrtc-py/src/lib.rs\<close>): the classes Python
  reads, their making from the crate's report, and the awaitable \<open>get_stats\<close>. Floating-point numbers
  are of any type \<open>'f\<close>, as in \<open>Stats\<close>; times of the chunking totals are nanoseconds, as in
  \<open>Chunking_Times\<close>. Enumerations have the crate's constructors.
\<close>

section \<open>The classes and their conversions\<close>

record py_timing_sender =
  py_ts_capture_ms :: int
  py_ts_encode_start_ms :: int
  py_ts_encode_finish_ms :: int
  py_ts_packetization_finish_ms :: int
  py_ts_pacer_exit_ms :: int

definition timing_sender_to_py :: "timing_sender \<Rightarrow> py_timing_sender" where
  "timing_sender_to_py s =
     \<lparr>py_ts_capture_ms = ts_capture_ms s, py_ts_encode_start_ms = ts_encode_start_ms s,
      py_ts_encode_finish_ms = ts_encode_finish_ms s,
      py_ts_packetization_finish_ms = ts_packetization_finish_ms s,
      py_ts_pacer_exit_ms = ts_pacer_exit_ms s\<rparr>"

record py_timing_receiver =
  py_tr_receive_start_ms :: int
  py_tr_receive_finish_ms :: int
  py_tr_decode_start_ms :: int
  py_tr_decode_finish_ms :: int

definition timing_receiver_to_py :: "timing_receiver \<Rightarrow> py_timing_receiver" where
  "timing_receiver_to_py s =
     \<lparr>py_tr_receive_start_ms = tr_receive_start_ms s,
      py_tr_receive_finish_ms = tr_receive_finish_ms s, py_tr_decode_start_ms = tr_decode_start_ms s,
      py_tr_decode_finish_ms = tr_decode_finish_ms s\<rparr>"

record py_timing_frame_info =
  py_ti_rtp_timestamp :: u32
  py_ti_is_outlier :: bool
  py_ti_is_timer_triggered :: bool
  py_ti_sender :: py_timing_sender
  py_ti_receiver :: py_timing_receiver

definition timing_frame_to_py :: "timing_frame_info \<Rightarrow> py_timing_frame_info" where
  "timing_frame_to_py s =
     \<lparr>py_ti_rtp_timestamp = ti_rtp_timestamp s, py_ti_is_outlier = ti_is_outlier s,
      py_ti_is_timer_triggered = ti_is_timer_triggered s, py_ti_sender = timing_sender_to_py (ti_sender s),
      py_ti_receiver = timing_receiver_to_py (ti_receiver s)\<rparr>"

record 'f py_inbound_rtp_stats =
  py_ib_ssrc :: u32
  py_ib_kind :: stream_kind
  py_ib_mid :: "unicode option"
  py_ib_codec_mime_type :: "unicode option"
  py_ib_packets_received :: u32
  py_ib_bytes_received :: u64
  py_ib_jitter_s :: 'f
  py_ib_packets_lost :: int
  py_ib_nack_count :: u32
  py_ib_pli_count :: u32
  py_ib_fir_count :: u32
  py_ib_total_decode_time_s :: 'f
  py_ib_frames_per_second :: 'f
  py_ib_frames_decoded :: u32
  py_ib_frames_dropped :: u32
  py_ib_frame_width :: u32
  py_ib_frame_height :: u32
  py_ib_jitter_buffer_delay_s :: 'f
  py_ib_jitter_buffer_target_delay_s :: 'f
  py_ib_jitter_buffer_minimum_delay_s :: 'f
  py_ib_jitter_buffer_emitted_count :: u64
  py_ib_total_processing_delay_s :: 'f
  py_ib_timing_frame :: "py_timing_frame_info option"
  py_ib_decoder_implementation :: "unicode option"
  py_ib_power_efficient_decoder :: "bool option"
  py_ib_total_samples_received :: u64
  py_ib_concealed_samples :: u64
  py_ib_silent_concealed_samples :: u64
  py_ib_concealment_events :: u64

definition inbound_to_py :: "'f inbound_rtp_stats \<Rightarrow> 'f py_inbound_rtp_stats" where
  "inbound_to_py s =
     \<lparr>py_ib_ssrc = ib_ssrc s, py_ib_kind = ib_kind s, py_ib_mid = ib_mid s,
      py_ib_codec_mime_type = ib_codec_mime_type s, py_ib_packets_received = ib_packets_received s,
      py_ib_bytes_received = ib_bytes_received s, py_ib_jitter_s = ib_jitter_s s,
      py_ib_packets_lost = ib_packets_lost s, py_ib_nack_count = ib_nack_count s,
      py_ib_pli_count = ib_pli_count s, py_ib_fir_count = ib_fir_count s,
      py_ib_total_decode_time_s = ib_total_decode_time_s s, py_ib_frames_per_second = ib_frames_per_second s,
      py_ib_frames_decoded = ib_frames_decoded s, py_ib_frames_dropped = ib_frames_dropped s,
      py_ib_frame_width = ib_frame_width s, py_ib_frame_height = ib_frame_height s,
      py_ib_jitter_buffer_delay_s = ib_jitter_buffer_delay_s s,
      py_ib_jitter_buffer_target_delay_s = ib_jitter_buffer_target_delay_s s,
      py_ib_jitter_buffer_minimum_delay_s = ib_jitter_buffer_minimum_delay_s s,
      py_ib_jitter_buffer_emitted_count = ib_jitter_buffer_emitted_count s,
      py_ib_total_processing_delay_s = ib_total_processing_delay_s s,
      py_ib_timing_frame = map_option timing_frame_to_py (ib_timing_frame s),
      py_ib_decoder_implementation = ib_decoder_implementation s,
      py_ib_power_efficient_decoder = ib_power_efficient_decoder s,
      py_ib_total_samples_received = ib_total_samples_received s,
      py_ib_concealed_samples = ib_concealed_samples s,
      py_ib_silent_concealed_samples = ib_silent_concealed_samples s,
      py_ib_concealment_events = ib_concealment_events s\<rparr>"

record 'f py_outbound_rtp_stats =
  py_ou_ssrc :: u32
  py_ou_kind :: stream_kind
  py_ou_mid :: "unicode option"
  py_ou_codec_mime_type :: "unicode option"
  py_ou_packets_sent :: u64
  py_ou_bytes_sent :: u64
  py_ou_target_bitrate_bps :: 'f
  py_ou_round_trip_time_s :: 'f
  py_ou_total_round_trip_time_s :: 'f
  py_ou_fraction_lost :: 'f
  py_ou_packets_lost :: int
  py_ou_jitter_s :: 'f
  py_ou_retransmitted_packets_sent :: u64
  py_ou_nack_count :: u32
  py_ou_pli_count :: u32
  py_ou_fir_count :: u32
  py_ou_frames_per_second :: 'f
  py_ou_frames_sent :: u32
  py_ou_frame_width :: u32
  py_ou_frame_height :: u32
  py_ou_frames_encoded :: u32
  py_ou_total_encode_time_s :: 'f
  py_ou_total_packet_send_delay_s :: 'f
  py_ou_encoder_implementation :: "unicode option"
  py_ou_power_efficient_encoder :: "bool option"

definition outbound_to_py :: "'f outbound_rtp_stats \<Rightarrow> 'f py_outbound_rtp_stats" where
  "outbound_to_py s =
     \<lparr>py_ou_ssrc = ou_ssrc s, py_ou_kind = ou_kind s, py_ou_mid = ou_mid s,
      py_ou_codec_mime_type = ou_codec_mime_type s, py_ou_packets_sent = ou_packets_sent s,
      py_ou_bytes_sent = ou_bytes_sent s, py_ou_target_bitrate_bps = ou_target_bitrate_bps s,
      py_ou_round_trip_time_s = ou_round_trip_time_s s,
      py_ou_total_round_trip_time_s = ou_total_round_trip_time_s s, py_ou_fraction_lost = ou_fraction_lost s,
      py_ou_packets_lost = ou_packets_lost s, py_ou_jitter_s = ou_jitter_s s,
      py_ou_retransmitted_packets_sent = ou_retransmitted_packets_sent s, py_ou_nack_count = ou_nack_count s,
      py_ou_pli_count = ou_pli_count s, py_ou_fir_count = ou_fir_count s,
      py_ou_frames_per_second = ou_frames_per_second s, py_ou_frames_sent = ou_frames_sent s,
      py_ou_frame_width = ou_frame_width s, py_ou_frame_height = ou_frame_height s,
      py_ou_frames_encoded = ou_frames_encoded s, py_ou_total_encode_time_s = ou_total_encode_time_s s,
      py_ou_total_packet_send_delay_s = ou_total_packet_send_delay_s s,
      py_ou_encoder_implementation = ou_encoder_implementation s,
      py_ou_power_efficient_encoder = ou_power_efficient_encoder s\<rparr>"

record 'f py_ice_candidate_pair_stats =
  py_cp_current_round_trip_time_s :: 'f
  py_cp_total_round_trip_time_s :: 'f
  py_cp_priority :: u64
  py_cp_state :: ice_candidate_pair_state
  py_cp_nominated :: bool
  py_cp_writable :: bool
  py_cp_available_outgoing_bitrate_bps :: 'f
  py_cp_available_incoming_bitrate_bps :: 'f
  py_cp_bytes_sent :: u64
  py_cp_bytes_received :: u64
  py_cp_packets_sent :: u64
  py_cp_packets_received :: u64
  py_cp_local_candidate_type :: ice_candidate_type
  py_cp_local_relay_protocol :: relay_protocol

definition pair_to_py :: "'f ice_candidate_pair_stats \<Rightarrow> 'f py_ice_candidate_pair_stats" where
  "pair_to_py s =
     \<lparr>py_cp_current_round_trip_time_s = cp_current_round_trip_time_s s,
      py_cp_total_round_trip_time_s = cp_total_round_trip_time_s s, py_cp_priority = cp_priority s,
      py_cp_state = cp_state s, py_cp_nominated = cp_nominated s, py_cp_writable = cp_writable s,
      py_cp_available_outgoing_bitrate_bps = cp_available_outgoing_bitrate_bps s,
      py_cp_available_incoming_bitrate_bps = cp_available_incoming_bitrate_bps s,
      py_cp_bytes_sent = cp_bytes_sent s, py_cp_bytes_received = cp_bytes_received s,
      py_cp_packets_sent = cp_packets_sent s, py_cp_packets_received = cp_packets_received s,
      py_cp_local_candidate_type = cp_local_candidate_type s,
      py_cp_local_relay_protocol = cp_local_relay_protocol s\<rparr>"

record py_data_channel_stats =
  py_ds_label :: "unicode option"
  py_ds_id :: "u16 option"
  py_ds_state :: data_channel_state
  py_ds_messages_sent :: u32
  py_ds_bytes_sent :: u64
  py_ds_messages_received :: u32
  py_ds_bytes_received :: u64

definition channel_to_py :: "data_channel_stats \<Rightarrow> py_data_channel_stats" where
  "channel_to_py s =
     \<lparr>py_ds_label = ds_label s, py_ds_id = ds_id s, py_ds_state = ds_state s,
      py_ds_messages_sent = ds_messages_sent s, py_ds_bytes_sent = ds_bytes_sent s,
      py_ds_messages_received = ds_messages_received s, py_ds_bytes_received = ds_bytes_received s\<rparr>"

record py_sctp_stats =
  py_sc_packets_sent :: u64
  py_sc_messages_sent :: u64
  py_sc_packets_retransmitted :: u64
  py_sc_bytes_retransmitted :: u64
  py_sc_packets_received :: u64
  py_sc_messages_received :: u64
  py_sc_congestion_window_bytes :: u64
  py_sc_unacked_chunks :: u64
  py_sc_smoothed_rtt_ms :: int
  py_sc_peer_receive_window_bytes :: u32
  py_sc_message_interleaving :: bool

definition sctp_to_py :: "sctp_stats \<Rightarrow> py_sctp_stats" where
  "sctp_to_py s =
     \<lparr>py_sc_packets_sent = sc_packets_sent s, py_sc_messages_sent = sc_messages_sent s,
      py_sc_packets_retransmitted = sc_packets_retransmitted s,
      py_sc_bytes_retransmitted = sc_bytes_retransmitted s, py_sc_packets_received = sc_packets_received s,
      py_sc_messages_received = sc_messages_received s,
      py_sc_congestion_window_bytes = sc_congestion_window_bytes s,
      py_sc_unacked_chunks = sc_unacked_chunks s, py_sc_smoothed_rtt_ms = sc_smoothed_rtt_ms s,
      py_sc_peer_receive_window_bytes = sc_peer_receive_window_bytes s,
      py_sc_message_interleaving = sc_message_interleaving s\<rparr>"

record 'f py_stats_report =
  py_sr_inbound_rtp :: "'f py_inbound_rtp_stats list"
  py_sr_outbound_rtp :: "'f py_outbound_rtp_stats list"
  py_sr_candidate_pairs :: "'f py_ice_candidate_pair_stats list"
  py_sr_data_channels :: "py_data_channel_stats list"
  py_sr_sctp :: "py_sctp_stats option"

definition report_to_py :: "'f stats_report \<Rightarrow> 'f py_stats_report" where
  "report_to_py r =
     \<lparr>py_sr_inbound_rtp = map inbound_to_py (sr_inbound_rtp r),
      py_sr_outbound_rtp = map outbound_to_py (sr_outbound_rtp r),
      py_sr_candidate_pairs = map pair_to_py (sr_candidate_pairs r),
      py_sr_data_channels = map channel_to_py (sr_data_channels r),
      py_sr_sctp = map_option sctp_to_py (sr_sctp r)\<rparr>"

record py_chunking_stats =
  py_cs_messages_sent :: nat
  py_cs_frames_sent :: nat
  py_cs_queue_wait :: nat
  py_cs_enqueue :: nat
  py_cs_first_check :: nat
  py_cs_first_build :: nat
  py_cs_first_native :: nat
  py_cs_native_send :: nat
  py_cs_send :: nat
  py_cs_stalls :: nat
  py_cs_stall :: nat
  py_cs_messages_received :: nat
  py_cs_frames_received :: nat
  py_cs_reassembly :: nat

definition chunking_stats_to_py :: "chunking_stats \<Rightarrow> py_chunking_stats" where
  "chunking_stats_to_py s =
     \<lparr>py_cs_messages_sent = cs_messages_sent s, py_cs_frames_sent = cs_frames_sent s,
      py_cs_queue_wait = cs_queue_wait s, py_cs_enqueue = cs_enqueue s, py_cs_first_check = cs_first_check s,
      py_cs_first_build = cs_first_build s, py_cs_first_native = cs_first_native s,
      py_cs_native_send = cs_native_send s, py_cs_send = cs_send s, py_cs_stalls = cs_stalls s,
      py_cs_stall = cs_stall s, py_cs_messages_received = cs_messages_received s,
      py_cs_frames_received = cs_frames_received s, py_cs_reassembly = cs_reassembly s\<rparr>"

section \<open>Reading them\<close>

text \<open>The two answers are those of the crate's \<open>get_stats\<close>.\<close>

definition py_get_stats ::
  "string option \<Rightarrow> ('f stat_entry list option \<times> int) option \<Rightarrow> (sctp_metrics option \<times> int) option
     \<Rightarrow> py_error + 'f py_stats_report" where
  "py_get_stats cancelled stats_answer sctp_answer =
     convert report_to_py (await_pure cancelled (get_stats stats_answer sctp_answer))"

definition py_chunking_stats_of ::
  "'n native_api \<Rightarrow> 'n \<Rightarrow> channel \<Rightarrow> py_chunking_stats option \<times> 'n \<times> channel" where
  "py_chunking_stats_of api w ch =
     (case dc_chunking_stats api w ch of (s, w, ch) \<Rightarrow> (map_option chunking_stats_to_py s, w, ch))"

section \<open>Nothing is lost\<close>

lemma timing_to_py_inj: "timing_frame_to_py s = timing_frame_to_py t \<Longrightarrow> s = t"
  by (cases s; cases t)
    (auto simp: timing_frame_to_py_def timing_sender_to_py_def timing_receiver_to_py_def
      intro: timing_sender.equality timing_receiver.equality)

lemma stats_to_py_inj:
  "inj inbound_to_py" "inj outbound_to_py" "inj pair_to_py" "inj channel_to_py" "inj sctp_to_py"
proof -
  have timing: "map_option timing_frame_to_py x = map_option timing_frame_to_py y \<Longrightarrow> x = y" for x y
    by (cases x; cases y) (auto dest: timing_to_py_inj)
  show "inj inbound_to_py"
    by (rule injI, rule inbound_rtp_stats.equality) (auto simp: inbound_to_py_def dest: timing)
  show "inj outbound_to_py"
    by (rule injI, rule outbound_rtp_stats.equality) (auto simp: outbound_to_py_def)
  show "inj pair_to_py"
    by (rule injI, rule ice_candidate_pair_stats.equality) (auto simp: pair_to_py_def)
  show "inj channel_to_py"
    by (rule injI, rule data_channel_stats.equality) (auto simp: channel_to_py_def)
  show "inj sctp_to_py"
    by (rule injI, rule sctp_stats.equality) (auto simp: sctp_to_py_def)
qed

lemma report_to_py_inj: "report_to_py r = report_to_py r' \<Longrightarrow> r = r'"
  by (rule stats_report.equality)
    (auto simp: report_to_py_def dest!: map_injective [OF _ stats_to_py_inj(1)]
      map_injective [OF _ stats_to_py_inj(2)] map_injective [OF _ stats_to_py_inj(3)]
      map_injective [OF _ stats_to_py_inj(4)] dest: option.inj_map_strong [rotated] injD [OF stats_to_py_inj(5)])

text \<open>Every entry libwebrtc reports is read in Python, in the list of its kind and in its order, and
  nothing of the crate's report is lost on the way.\<close>

theorem python_reads_every_entry:
  assumes "py_get_stats None (Some (Some es, count)) sctp = Inr r"
  shows "py_sr_inbound_rtp r = map (inbound_to_py \<circ> inbound_of) (filter (\<lambda>e. se_kind e = 0) (take (nat count) es)) \<and>
    py_sr_outbound_rtp r = map (outbound_to_py \<circ> outbound_of) (filter (\<lambda>e. se_kind e = 1) (take (nat count) es)) \<and>
    py_sr_candidate_pairs r = map (pair_to_py \<circ> pair_of) (filter (\<lambda>e. se_kind e = 2) (take (nat count) es)) \<and>
    py_sr_data_channels r = map (channel_to_py \<circ> channel_of) (filter (\<lambda>e. se_kind e = 3) (take (nat count) es)) \<and>
    (\<forall>s. report_to_py s = r \<longrightarrow> get_stats (Some (Some es, count)) sctp = Inr s)"
proof -
  obtain s where s: "get_stats (Some (Some es, count)) sctp = Inr s" "r = report_to_py s"
    using assms by (auto simp: py_get_stats_def await_pure_eq convert_eq_Inr map_err_eq_Inr)
  have "sr_inbound_rtp s = map inbound_of (filter (\<lambda>e. se_kind e = 0) (take (nat count) es))"
    "sr_outbound_rtp s = map outbound_of (filter (\<lambda>e. se_kind e = 1) (take (nat count) es))"
    "sr_candidate_pairs s = map pair_of (filter (\<lambda>e. se_kind e = 2) (take (nat count) es))"
    "sr_data_channels s = map channel_of (filter (\<lambda>e. se_kind e = 3) (take (nat count) es))"
    using s(1) unfolding report_sorts_entries by (auto simp: Let_def)
  moreover have "\<forall>s'. report_to_py s' = r \<longrightarrow> get_stats (Some (Some es, count)) sctp = Inr s'"
    using s report_to_py_inj by metis
  ultimately show ?thesis by (simp add: s(2) report_to_py_def)
qed

end
