(* ===== verification/Prebuilt_Scan.thy ===== *)
theory Prebuilt_Scan
  imports Rust_Str Utf8
begin

text \<open>
  The functions of the build script of the native bindings that compute without touching the
  machine (\<open>crates/reactor-webrtc-sys/build.rs\<close>, \<open>build_platform.rs\<close>): the name of a prebuilt
  archive, the release tag, the digest a hashing tool prints, the quoting of a path for the shell,
  and the scan of an \<open>ar\<close> archive for the machine its objects were built for.

  A text is the list of its bytes as characters, as in \<open>Rust_Str\<close>. The script panics where it
  cannot go on; a panic is a value.
\<close>

section \<open>Panics\<close>

datatype build_panic =
    CharBoundary
  | ToolFailed string
  | NoHashTool
  | ShaMismatch string string \<comment> \<open>expected, got\<close>
  | NoExtractDir
  | BadLayout
  | ArchMismatch string u16 string u16 \<comment> \<open>target, its machine, the archive's name and machine\<close>
  | LibcMismatch string string
  | UnknownVtables string

section \<open>The platform token\<close>

definition build_platform :: "string \<Rightarrow> string \<Rightarrow> string \<Rightarrow> string \<Rightarrow> string option" where
  "build_platform os arch abi target_env =
     (if os = ''macos'' then
        (if arch = ''aarch64'' then Some ''mac-arm64'' else if arch = ''x86_64'' then Some ''mac-x64'' else None)
      else if os = ''ios'' then
        (let is_sim = (abi = ''sim'' \<or> arch = ''x86_64'')
         in Some (if is_sim then ''ios-arm64-simulator'' else ''ios-arm64-device''))
      else if os = ''linux'' then
        (if arch = ''x86_64'' \<and> target_env = ''gnu'' then Some ''linux-x64''
         else if arch = ''aarch64'' \<and> target_env = ''gnu'' then Some ''linux-arm64''
         else if arch = ''x86_64'' \<and> target_env = ''musl'' then Some ''linux-musl-x64''
         else if arch = ''aarch64'' \<and> target_env = ''musl'' then Some ''linux-musl-arm64''
         else None)
      else if os = ''android'' then
        (if arch = ''aarch64'' then Some ''android-arm64'' else if arch = ''x86_64'' then Some ''android-x64''
         else None)
      else if os = ''windows'' then (if arch = ''x86_64'' then Some ''win-x64'' else None)
      else None)"

section \<open>The release tag\<close>

definition PREBUILT_BASE :: string where
  "PREBUILT_BASE = ''https://github.com/reactor-team/reactor-webrtc/releases/download''"

definition PREBUILT_TAG_FALLBACK :: string where
  "PREBUILT_TAG_FALLBACK = ''webrtc-7907-a5ddff60-p11''"

text \<open>One turn of the loop over the lines, on the three values found so far.\<close>

record tag_parts =
  tp_branch :: string
  tp_commit :: string
  tp_patch :: string

definition tag_line :: "string \<Rightarrow> tag_parts \<Rightarrow> tag_parts" where
  "tag_line line p =
     (let line = trim line in
      if starts_with line ''#'' \<or> line = [] then p
      else case strip_prefix ''WEBRTC_BRANCH='' line of
        Some v \<Rightarrow> p\<lparr>tp_branch := v\<rparr>
      | None \<Rightarrow> (case strip_prefix ''WEBRTC_COMMIT='' line of
          Some v \<Rightarrow> p\<lparr>tp_commit := v\<rparr>
        | None \<Rightarrow> (case strip_prefix ''REACTOR_PATCH_LEVEL='' line of
            Some v \<Rightarrow> p\<lparr>tp_patch := v\<rparr>
          | None \<Rightarrow> p)))"

text \<open>Slicing a \<open>str\<close> in the middle of a character panics.\<close>

definition str_prefix :: "string \<Rightarrow> nat \<Rightarrow> build_panic + string" where
  "str_prefix s n =
     (if n < length s \<and> 128 \<le> (of_char (s ! n) :: nat) \<and> (of_char (s ! n) :: nat) < 192 then Inl CharBoundary
      else Inr (take n s))"

definition parse_webrtc_tag :: "string \<Rightarrow> build_panic + string" where
  "parse_webrtc_tag src =
     (let p = fold tag_line (str_lines src) \<lparr>tp_branch = [], tp_commit = [], tp_patch = ''0''\<rparr>;
          milestone = (case strip_prefix ''branch-heads/'' (tp_branch p) of Some m \<Rightarrow> m | None \<Rightarrow> tp_branch p)
      in res_bind (str_prefix (tp_commit p) (min (length (tp_commit p)) 8)) (\<lambda>short.
           Inr (''webrtc-'' @ milestone @ ''-'' @ short @ ''-p'' @ tp_patch p)))"

text \<open>The file at the workspace root, when there is one.\<close>

definition prebuilt_tag :: "string option \<Rightarrow> build_panic + string" where
  "prebuilt_tag version_file =
     (case version_file of Some src \<Rightarrow> parse_webrtc_tag src | None \<Rightarrow> Inr PREBUILT_TAG_FALLBACK)"

section \<open>Digests\<close>

text \<open>\<open>split_whitespace().next()\<close>.\<close>

definition first_word :: "string \<Rightarrow> string option" where
  "first_word s =
     (let w = takeWhile (\<lambda>c. \<not> is_whitespace c) (trim_start s) in if w = [] then None else Some w)"

definition is_ascii_hexdigit :: "char \<Rightarrow> bool" where
  "is_ascii_hexdigit c =
     (let n = (of_char c :: nat) in (48 \<le> n \<and> n \<le> 57) \<or> (65 \<le> n \<and> n \<le> 70) \<or> (97 \<le> n \<and> n \<le> 102))"

definition parse_digest :: "string \<Rightarrow> string option" where
  "parse_digest stdout =
     (case first_word stdout of
        None \<Rightarrow> None
      | Some w \<Rightarrow>
          (let hex = map to_ascii_lowercase (dropWhile (\<lambda>c. c = CHR 0x5C) w) in
           if length hex = 64 \<and> list_all is_ascii_hexdigit hex then Some hex else None))"

text \<open>What a tool does with a file: it could not be started, or it ended, well or not, with its
  output. Tried in order.\<close>

type_synonym tool = "(bool \<times> string) option"

definition tool_digest :: "tool \<Rightarrow> string option" where
  "tool_digest r = (case r of None \<Rightarrow> None | Some (success, stdout) \<Rightarrow> if success then parse_digest stdout else None)"

definition sha256_file :: "tool \<Rightarrow> tool \<Rightarrow> build_panic + string" where
  "sha256_file sha256sum shasum =
     (case tool_digest sha256sum of
        Some hex \<Rightarrow> Inr hex
      | None \<Rightarrow> (case tool_digest shasum of Some hex \<Rightarrow> Inr hex | None \<Rightarrow> Inl NoHashTool))"

text \<open>The sidecar file, when the download of it went through and it is text.\<close>

definition fetch_sha256 :: "string option \<Rightarrow> string option" where
  "fetch_sha256 content = (case content of None \<Rightarrow> None | Some c \<Rightarrow> first_word c)"

section \<open>Quoting for the shell\<close>

definition shell_quote :: "string \<Rightarrow> string" where
  "shell_quote p =
     [CHR 0x27] @ concat (map (\<lambda>c. if c = CHR 0x27 then [CHR 0x27, CHR 0x5C, CHR 0x27, CHR 0x27] else [c]) p)
     @ [CHR 0x27]"

section \<open>The machine of an archive\<close>

definition AR_MAGIC :: bytes where
  "AR_MAGIC = [0x21, 0x3C, 0x61, 0x72, 0x63, 0x68, 0x3E, 0x0A]"

definition ELF_MAGIC :: bytes where "ELF_MAGIC = [0x7F, 0x45, 0x4C, 0x46]"

definition text_of :: "bytes \<Rightarrow> string" where
  "text_of bs = map (\<lambda>b. char_of (unat b)) bs"

definition member_size :: "bytes \<Rightarrow> nat \<Rightarrow> nat" where
  "member_size data pos =
     (let field = take 10 (drop (pos + 48) data) in
      case from_utf8 field of
        Inl _ \<Rightarrow> 0
      | Inr _ \<Rightarrow> (case parse_uint u64_max (trim (text_of field)) of None \<Rightarrow> 0 | Some n \<Rightarrow> n))"

definition machine_of :: "bytes \<Rightarrow> u16" where
  "machine_of content = ucast (content ! 18) OR push_bit 8 (ucast (content ! 19))"

definition is_elf_object :: "bytes \<Rightarrow> bool" where
  "is_elf_object content = (length content \<ge> 20 \<and> take 4 content = ELF_MAGIC)"

text \<open>The loop over the members; the machine of the first object when it is another one.\<close>

function scan_members :: "u16 \<Rightarrow> bytes \<Rightarrow> nat \<Rightarrow> u16 option" where
  "scan_members expected data pos =
     (if pos + 60 \<le> length data then
        (let size = member_size data pos;
             content_start = pos + 60;
             content_end = min (length data) (content_start + size);
             content = take (content_end - content_start) (drop content_start data)
         in if is_elf_object content
            then (if machine_of content \<noteq> expected then Some (machine_of content) else None)
            else scan_members expected data (content_start + size + (if size mod 2 = 0 then 0 else 1)))
      else None)"
  by pat_completeness auto
termination
  by (relation "measure (\<lambda>(_, data, pos). length data - pos)") (auto simp: Let_def)

declare scan_members.simps [simp del]

definition expected_machine :: "string \<Rightarrow> u16 option" where
  "expected_machine arch =
     (if arch = ''x86_64'' then Some 0x3E else if arch = ''aarch64'' then Some 0xB7 else None)"

definition machine_name :: "u16 \<Rightarrow> string" where
  "machine_name m =
     (if m = 0x3E then ''x86_64'' else if m = 0xB7 then ''aarch64'' else if m = 0x28 then ''arm'' else ''unknown'')"

definition verify_prebuilt_arch :: "string \<Rightarrow> string \<Rightarrow> bytes option \<Rightarrow> build_panic + unit" where
  "verify_prebuilt_arch os arch lib =
     (if os \<noteq> ''linux'' then Inr ()
      else case expected_machine arch of
        None \<Rightarrow> Inr ()
      | Some expected \<Rightarrow>
          (case lib of
             None \<Rightarrow> Inr ()
           | Some data \<Rightarrow>
               if take (length AR_MAGIC) data \<noteq> AR_MAGIC then Inr ()
               else (case scan_members expected data (length AR_MAGIC) of
                       None \<Rightarrow> Inr ()
                     | Some m \<Rightarrow> Inl (ArchMismatch arch expected (machine_name m) m))))"

section \<open>Well-formed archives\<close>

definition ascii_bytes :: "string \<Rightarrow> bytes" where
  "ascii_bytes s = map (\<lambda>c. word_of_nat (of_char c)) s"

text \<open>A member: 48 bytes of header, its size in decimal padded to 10, the end of the header, the
  contents, and a byte that brings the next member to an even offset.\<close>

definition ar_member :: "bytes \<times> bytes \<Rightarrow> bytes" where
  "ar_member m =
     (let digits = show_nat (length (snd m)) in
      fst m @ ascii_bytes (digits @ replicate (10 - length digits) (CHR '' '')) @ [0x60, 0x0A] @ snd m
      @ (if length (snd m) mod 2 = 0 then [] else [0x0A]))"

definition ar_archive :: "(bytes \<times> bytes) list \<Rightarrow> bytes" where
  "ar_archive ms = AR_MAGIC @ concat (map ar_member ms)"

definition ar_fits :: "bytes \<times> bytes \<Rightarrow> bool" where
  "ar_fits m = (length (fst m) = 48 \<and> length (snd m) < 10 ^ 10)"

lemma show_nat_length: "n < 10 ^ k \<Longrightarrow> 0 < k \<Longrightarrow> length (show_nat n) \<le> k"
proof (induction n arbitrary: k rule: show_nat.induct)
  case (1 n)
  show ?case
  proof (cases "n < 10")
    case True
    then show ?thesis using 1(3) by (subst show_nat.simps) simp
  next
    case False
    then obtain j where k: "k = Suc j" "0 < j" using 1(2,3) by (cases k; cases "k - 1") auto
    have "n div 10 < 10 ^ j" using 1(2) k by (simp add: less_mult_imp_div_less mult.commute)
    then have "length (show_nat (n div 10)) \<le> j" using 1(1) False k(2) by blast
    then show ?thesis using k False by (subst show_nat.simps) simp
  qed
qed

lemma char_byte: "(char_of (unat (word_of_nat (of_char c) :: u8)) :: char) = c"
proof -
  have "(of_char c :: nat) < 256" by (rule nat_of_char_less_256)
  then have "unat (word_of_nat (of_char c) :: u8) = of_char c" by (simp add: unat_of_nat)
  then show ?thesis by simp
qed

lemma text_ascii_bytes [simp]: "text_of (ascii_bytes s) = s"
  by (simp add: text_of_def ascii_bytes_def char_byte o_def)

lemma length_ascii_bytes [simp]: "length (ascii_bytes s) = length s"
  by (simp add: ascii_bytes_def)

lemma scan_ascii: "\<forall>b \<in> set bs. b < 128 \<Longrightarrow> \<exists>t. utf8_scan bs pos acc = Inr t"
proof (induction bs arbitrary: pos acc)
  case (Cons b bs)
  then have "utf8_step (b # bs) = Scalar b 1" by (simp add: char_width_def)
  then have "utf8_scan (b # bs) pos acc = utf8_scan bs (pos + 1) (b # acc)"
    by (subst utf8_scan.simps) (simp del: utf8_step.simps utf8_scan.simps)
  with Cons show ?case by (simp del: utf8_scan.simps)
qed simp

lemma utf8_digits:
  assumes "\<forall>c \<in> set s. (of_char c :: nat) < 128"
  shows "\<exists>t. from_utf8 (ascii_bytes s) = Inr t"
proof -
  have "unat (word_of_nat n :: u8) < 128" if "n < 128" for n
    using that by (simp add: unat_of_nat)
  then show ?thesis
    unfolding from_utf8_def ascii_bytes_def using assms by (intro scan_ascii) auto
qed

lemma trim_padded:
  assumes "s \<noteq> []" "\<forall>c \<in> set s. \<not> is_whitespace c"
  shows "trim (s @ replicate n (CHR '' '')) = s"
proof -
  have "hd (s @ replicate n (CHR '' '')) = hd s" using assms(1) by simp
  then have "trim_start (s @ replicate n (CHR '' '')) = s @ replicate n (CHR '' '')"
    using assms by (intro trim_start_id) (simp add: list.set_sel(1))
  moreover have "dropWhile is_whitespace (replicate n (CHR '' '') @ rev s) = rev s"
  proof -
    have "is_whitespace (CHR '' '')" by (simp add: is_whitespace_def)
    then have "dropWhile is_whitespace (replicate n (CHR '' '') @ xs) = dropWhile is_whitespace xs" for xs
      by (induction n) auto
    moreover have "dropWhile is_whitespace (rev s) = rev s"
      using assms by (cases s rule: rev_cases) auto
    ultimately show ?thesis by simp
  qed
  ultimately show ?thesis by (simp add: trim_def trim_end_def)
qed

lemma member_size_ar:
  assumes "ar_fits m"
  shows "member_size (pre @ ar_member m @ rest) (length pre) = length (snd m)"
proof -
  let ?digits = "show_nat (length (snd m))"
  let ?field = "?digits @ replicate (10 - length ?digits) (CHR '' '')"
  have "length ?digits \<le> 10"
    using assms show_nat_length [of "length (snd m)" 10] by (simp add: ar_fits_def)
  then have field: "take 10 (drop (length pre + 48) (pre @ ar_member m @ rest)) = ascii_bytes ?field"
    using assms by (simp add: ar_member_def ar_fits_def Let_def)
  have "\<forall>c \<in> set ?field. (of_char c :: nat) < 128"
    by (auto dest!: show_nat_digits simp: of_char_digit_char)
  then obtain t where t: "from_utf8 (ascii_bytes ?field) = Inr t" using utf8_digits by blast
  have "trim ?field = ?digits"
    by (rule trim_padded) (auto dest: show_nat_not_ws)
  moreover have "length (snd m) \<le> u64_max"
    using assms by (simp add: ar_fits_def u64_max_def)
  ultimately show ?thesis
    unfolding member_size_def field Let_def by (simp add: t)
qed

lemma ar_member_length:
  "ar_fits m \<Longrightarrow> length (ar_member m) = 60 + length (snd m) + (if length (snd m) mod 2 = 0 then 0 else 1)"
  using show_nat_length [of "length (snd m)" 10] by (auto simp: ar_member_def ar_fits_def Let_def)

lemma ar_member_content:
  assumes "ar_fits m"
  shows "take (length (snd m)) (drop (length pre + 60) (pre @ ar_member m @ rest)) = snd m"
proof -
  have "length (show_nat (length (snd m))) \<le> 10"
    using assms show_nat_length [of "length (snd m)" 10] by (simp add: ar_fits_def)
  then show ?thesis
    using assms by (simp add: ar_member_def ar_fits_def Let_def)
qed

definition first_object :: "(bytes \<times> bytes) list \<Rightarrow> bytes option" where
  "first_object ms = find is_elf_object (map snd ms)"

lemma scan_step:
  assumes "pos + 60 + length content \<le> length data" "member_size data pos = length content"
    and "take (length content) (drop (pos + 60) data) = content"
  shows "scan_members expected data pos =
     (if is_elf_object content then (if machine_of content \<noteq> expected then Some (machine_of content) else None)
      else scan_members expected data (pos + 60 + length content + (if length content mod 2 = 0 then 0 else 1)))"
  using assms by (subst scan_members.simps) (simp add: Let_def min_absorb2)

lemma scan_members_ar:
  assumes "\<forall>m \<in> set ms. ar_fits m"
  shows "scan_members expected (pre @ concat (map ar_member ms)) (length pre) =
    (case first_object ms of
       None \<Rightarrow> None
     | Some c \<Rightarrow> if machine_of c \<noteq> expected then Some (machine_of c) else None)"
  using assms
proof (induction ms arbitrary: pre)
  case Nil
  then show ?case by (subst scan_members.simps) (simp add: first_object_def)
next
  case (Cons m ms)
  then have fits: "ar_fits m" by simp
  let ?rest = "concat (map ar_member ms)"
  have bounds: "length pre + 60 + length (snd m) \<le> length (pre @ ar_member m @ ?rest)"
    by (simp add: ar_member_length [OF fits])
  have next_pos: "length pre + 60 + length (snd m) + (if length (snd m) mod 2 = 0 then 0 else 1)
      = length (pre @ ar_member m)"
    by (simp add: ar_member_length [OF fits])
  have step: "scan_members expected (pre @ ar_member m @ ?rest) (length pre) =
      (if is_elf_object (snd m)
       then (if machine_of (snd m) \<noteq> expected then Some (machine_of (snd m)) else None)
       else scan_members expected (pre @ ar_member m @ ?rest) (length (pre @ ar_member m)))"
    by (subst scan_step [OF bounds member_size_ar [OF fits] ar_member_content [OF fits]], subst next_pos) (rule refl)
  from Cons.IH [of "pre @ ar_member m"] Cons.prems show ?case
    by (simp add: step first_object_def)
qed

text \<open>C24: The architecture check reads the archive. On every well-formed archive, whatever its
  members and their padding, the scan finds the first member that is an ELF object: the check
  panics exactly when that object is of another machine than the Linux target's, naming both,
  and passes when it is of the target's machine, when no member is an object, and on other targets.\<close>
theorem arch_check_reads_first_object:
  assumes "\<forall>m \<in> set ms. ar_fits m"
  shows "verify_prebuilt_arch os arch (Some (ar_archive ms)) =
    (case (expected_machine arch, first_object ms) of
       (Some expected, Some object) \<Rightarrow>
         if os = ''linux'' \<and> machine_of object \<noteq> expected
         then Inl (ArchMismatch arch expected (machine_name (machine_of object)) (machine_of object))
         else Inr ()
     | _ \<Rightarrow> Inr ())"
  using scan_members_ar [OF assms, of _ AR_MAGIC]
  by (auto simp: verify_prebuilt_arch_def ar_archive_def split: option.split)

lemma arch_check_reads_first_object_witness:
  "verify_prebuilt_arch ''linux'' ''aarch64''
     (Some (ar_archive [(replicate 48 0x20, [1, 2, 3]), (replicate 48 0x20, ELF_MAGIC @ replicate 14 0 @ [0x3E, 0])]))
   = Inl (ArchMismatch ''aarch64'' 0xB7 ''x86_64'' 0x3E)"
proof -
  define object :: bytes where "object = ELF_MAGIC @ replicate 14 0 @ [0x3E, 0]"
  let ?ms = "[(replicate 48 0x20, [1, 2, 3]), (replicate 48 0x20, object)] :: (bytes \<times> bytes) list"
  have "\<forall>m \<in> set ?ms. ar_fits m" by (simp add: ar_fits_def ELF_MAGIC_def object_def)
  note check = arch_check_reads_first_object [OF this, of "''linux''" "''aarch64''"]
  have "is_elf_object object" "machine_of object = 0x3E" "machine_name 0x3E = ''x86_64''"
    unfolding object_def by code_simp+
  moreover have "\<not> is_elf_object [1, 2, 3]" "expected_machine ''aarch64'' = Some 0xB7"
    by (simp_all add: is_elf_object_def expected_machine_def)
  ultimately show ?thesis
    using check unfolding first_object_def object_def by simp
qed

section \<open>Digests and quoting\<close>

text \<open>A digest is found in the output of either tool, escaped or not, and nothing else is taken
  for one.\<close>

definition is_lower_hex :: "char \<Rightarrow> bool" where
  "is_lower_hex c = (c \<in> set ''0123456789abcdef'')"

definition is_digest :: "string \<Rightarrow> bool" where
  "is_digest d = (length d = 64 \<and> list_all is_lower_hex d)"

lemma lower_hex_ranges: "list_all (\<lambda>n. is_lower_hex (char_of n)) ([48..<58] @ [97..<103])"
  by code_simp

lemma lower_hex_plain:
  assumes "is_lower_hex c"
  shows "\<not> is_whitespace c" "c \<noteq> CHR 0x5C" "to_ascii_lowercase c = c" "is_ascii_hexdigit c"
proof -
  have "list_all (\<lambda>c. \<not> is_whitespace c \<and> c \<noteq> CHR 0x5C \<and> to_ascii_lowercase c = c \<and> is_ascii_hexdigit c)
      ''0123456789abcdef''"
    by code_simp
  with assms show "\<not> is_whitespace c" "c \<noteq> CHR 0x5C" "to_ascii_lowercase c = c" "is_ascii_hexdigit c"
    unfolding is_lower_hex_def list_all_iff by blast+
qed

lemma lowercase_not_upper: "\<not> (65 \<le> (of_char (to_ascii_lowercase c) :: nat) \<and> (of_char (to_ascii_lowercase c) :: nat) \<le> 90)"
  by (auto simp: to_ascii_lowercase_def)

lemma lower_hexdigit:
  assumes "is_ascii_hexdigit (to_ascii_lowercase c)"
  shows "is_lower_hex (to_ascii_lowercase c)"
proof -
  define n where "n = (of_char (to_ascii_lowercase c) :: nat)"
  have "n \<in> set ([48..<58] @ [97..<103])"
    using assms lowercase_not_upper [of c] unfolding is_ascii_hexdigit_def Let_def n_def [symmetric] set_append set_upt by auto
  then have "is_lower_hex (char_of n)" using lower_hex_ranges unfolding list_all_iff by blast
  then show ?thesis by (simp add: n_def)
qed

lemma parse_digest_sound:
  assumes "parse_digest stdout = Some d"
  shows "is_digest d"
proof -
  obtain w where "d = map to_ascii_lowercase w" "length d = 64" "list_all is_ascii_hexdigit d"
    using assms by (auto simp: parse_digest_def Let_def split: option.splits if_splits)
  then show ?thesis using lower_hexdigit by (auto simp: is_digest_def list_all_iff)
qed

lemma parse_digest_printed:
  assumes "is_digest d" "prefix = [] \<or> prefix = [CHR 0x5C]" "is_whitespace sep"
  shows "parse_digest (prefix @ d @ sep # rest) = Some d"
proof -
  have plain: "\<forall>c \<in> set d. \<not> is_whitespace c" "\<forall>c \<in> set d. to_ascii_lowercase c = c" "list_all is_ascii_hexdigit d"
    "dropWhile (\<lambda>c. c = CHR 0x5C) (prefix @ d) = d" "d \<noteq> []"
    using assms(1,2) lower_hex_plain by (cases d; auto simp: is_digest_def list_all_iff)+
  have word: "\<forall>c \<in> set (prefix @ d). \<not> is_whitespace c"
    using assms(2) plain(1) by (auto simp: is_whitespace_def)
  have "trim_start (prefix @ d @ sep # rest) = prefix @ d @ sep # rest"
    using word plain(5) by (intro trim_start_id) (cases prefix; cases d; auto)
  moreover have "takeWhile (\<lambda>c. \<not> is_whitespace c) ((prefix @ d) @ sep # rest) = prefix @ d"
    using word assms(3) by (subst takeWhile_append2) auto
  ultimately have "first_word (prefix @ d @ sep # rest) = Some (prefix @ d)"
    using plain(5) by (simp add: first_word_def Let_def)
  moreover have "map to_ascii_lowercase d = d" using plain(2) by (intro map_idI) blast
  ultimately show ?thesis
    using assms(1) plain(3,4) by (simp add: parse_digest_def is_digest_def Let_def)
qed

text \<open>How the shell reads a word: quoted text, escaped characters and plain ones.\<close>

definition sh_special :: "char \<Rightarrow> bool" where
  "sh_special c = (c \<in> set '' \"$`&|;<>()*?[]~#=%!{}'' \<or> is_whitespace c)"

fun sh_word :: "bool \<Rightarrow> string \<Rightarrow> string option" where
  "sh_word True [] = None"
| "sh_word True (c # cs) = (if c = CHR 0x27 then sh_word False cs else map_option ((#) c) (sh_word True cs))"
| "sh_word False [] = Some []"
| "sh_word False (c # cs) =
     (if c = CHR 0x27 then sh_word True cs
      else if c = CHR 0x5C then (case cs of [] \<Rightarrow> None | d # ds \<Rightarrow> map_option ((#) d) (sh_word False ds))
      else if sh_special c then None
      else map_option ((#) c) (sh_word False cs))"

lemma sh_word_quoted:
  "sh_word True (concat (map (\<lambda>c. if c = CHR 0x27 then [CHR 0x27, CHR 0x5C, CHR 0x27, CHR 0x27] else [c]) p) @ [CHR 0x27])
     = Some p"
  by (induction p) auto

text \<open>The shell reads a quoted path back as that path, one word, whatever is in it.\<close>
theorem shell_quote_reads_back: "sh_word False (shell_quote p) = Some p"
  using sh_word_quoted [of p] by (simp add: shell_quote_def)

text \<open>A token fixes the system, the architecture and, on Linux, the C library. The iOS simulator
  is the exception: one archive serves both architectures.\<close>
theorem tokens_fix_their_target:
  assumes "build_platform os arch abi target_env = Some token"
    and "build_platform os' arch' abi' target_env' = Some token"
  shows "os = os' \<and> (os \<noteq> ''ios'' \<longrightarrow> arch = arch') \<and> (os = ''linux'' \<longrightarrow> target_env = target_env')"
  using assms by (auto simp: build_platform_def Let_def split: if_splits)

end
