(* ===== verification/Prebuilt.thy ===== *)
theory Prebuilt
  imports Prebuilt_Scan
begin

text \<open>
  The download of a prebuilt archive by the build script (\<open>crates/reactor-webrtc-sys/build.rs\<close>,
  \<open>download_prebuilt\<close>): the cached extraction with its sentinel file, the check of the archive's
  digest, the extraction and the check of its architecture; and what is true of the extraction
  directory after any number of runs, each of which may panic or be killed.

  The directory is a map from relative paths to files. The tools the script starts are arguments:
  what each ends with, and what it leaves.
\<close>

section \<open>One run\<close>

type_synonym tree = "string \<rightharpoonup> bytes"

datatype command_status = Success | ExitStatus string | NotStarted string

datatype write_outcome = Whole | Cut nat | NotOpened

record download_run =
  dr_curl :: command_status
  dr_archive :: bytes \<comment> \<open>what the download left, when it succeeded\<close>
  dr_sha256sum :: "bytes \<Rightarrow> tool"
  dr_shasum :: "bytes \<Rightarrow> tool"
  dr_remaining :: "string \<Rightarrow> bool" \<comment> \<open>what \<open>remove_dir_all\<close> did not remove\<close>
  dr_create_dir :: bool
  dr_tar :: "bytes \<Rightarrow> tree \<Rightarrow> bool \<times> tree"
  dr_zstd_tar :: "bytes \<Rightarrow> tree \<Rightarrow> command_status \<times> tree"
  dr_write_sentinel :: write_outcome

definition run_command :: "string \<Rightarrow> command_status \<Rightarrow> build_panic + unit" where
  "run_command what status =
     (case status of
        Success \<Rightarrow> Inr ()
      | ExitStatus s \<Rightarrow> Inl (ToolFailed (what @ '' failed ('' @ s @ '')''))
      | NotStarted e \<Rightarrow> Inl (ToolFailed (what @ '' could not start: '' @ e)))"

definition SENTINEL :: string where "SENTINEL = ''.sha256''"

definition lower :: "string \<Rightarrow> string" where "lower s = map to_ascii_lowercase s"

definition lib_present :: "tree \<Rightarrow> bool" where
  "lib_present t = (t ''lib/libwebrtc.a'' \<noteq> None \<or> t ''lib/libwebrtc.lib'' \<noteq> None)"

definition sentinel_matches :: "tree \<Rightarrow> string \<Rightarrow> bool" where
  "sentinel_matches t expected =
     (case t SENTINEL of
        None \<Rightarrow> False
      | Some bs \<Rightarrow>
          (case from_utf8 bs of Inl _ \<Rightarrow> False | Inr _ \<Rightarrow> lower (trim (text_of bs)) = lower (trim expected)))"

definition cache_valid :: "tree \<Rightarrow> string option \<Rightarrow> bool" where
  "cache_valid t sha256 =
     (lib_present t \<and> (case sha256 of None \<Rightarrow> True | Some expected \<Rightarrow> sentinel_matches t expected))"

text \<open>The archive, downloaded and, when there is a checksum, checked.\<close>

definition fetch_archive :: "download_run \<Rightarrow> string option \<Rightarrow> build_panic + bytes" where
  "fetch_archive r sha256 =
     res_bind (run_command ''download prebuilt (curl)'' (dr_curl r)) (\<lambda>_.
       case sha256 of
         None \<Rightarrow> Inr (dr_archive r)
       | Some expected \<Rightarrow>
           res_bind (sha256_file (dr_sha256sum r (dr_archive r)) (dr_shasum r (dr_archive r))) (\<lambda>got.
             let expected = lower (trim expected) in
             if got \<noteq> expected then Inl (ShaMismatch expected got) else Inr (dr_archive r)))"

definition clear_tree :: "download_run \<Rightarrow> tree \<Rightarrow> tree" where
  "clear_tree r t = (\<lambda>p. if dr_remaining r p then t p else None)"

definition extract_archive :: "download_run \<Rightarrow> bytes \<Rightarrow> tree \<Rightarrow> (build_panic + unit) \<times> tree" where
  "extract_archive r archive t =
     (case dr_tar r archive t of
        (True, t1) \<Rightarrow> (Inr (), t1)
      | (False, t1) \<Rightarrow>
          (case dr_zstd_tar r archive t1 of
             (status, t2) \<Rightarrow> (run_command ''extract prebuilt (zstd | tar)'' status, t2)))"

definition write_sentinel :: "write_outcome \<Rightarrow> string \<Rightarrow> tree \<Rightarrow> tree" where
  "write_sentinel outcome sha t =
     (case outcome of
        Whole \<Rightarrow> t(SENTINEL \<mapsto> ascii_bytes (trim sha))
      | Cut n \<Rightarrow> t(SENTINEL \<mapsto> take n (ascii_bytes (trim sha)))
      | NotOpened \<Rightarrow> t)"

text \<open>From the extraction on.\<close>

definition install_archive ::
  "string \<Rightarrow> string \<Rightarrow> download_run \<Rightarrow> string option \<Rightarrow> bytes \<Rightarrow> tree \<Rightarrow> (build_panic + unit) \<times> tree" where
  "install_archive os arch r sha256 archive t =
     (let t1 = clear_tree r t in
      if \<not> dr_create_dir r then (Inl NoExtractDir, t1)
      else case extract_archive r archive t1 of
        (Inl e, t2) \<Rightarrow> (Inl e, t2)
      | (Inr _, t2) \<Rightarrow>
          if \<not> lib_present t2 then (Inl BadLayout, t2)
          else (case verify_prebuilt_arch os arch (t2 ''lib/libwebrtc.a'') of
             Inl e \<Rightarrow> (Inl e, t2)
           | Inr _ \<Rightarrow>
               (Inr (), case sha256 of None \<Rightarrow> t2 | Some sha \<Rightarrow> write_sentinel (dr_write_sentinel r) sha t2)))"

definition download_prebuilt ::
  "string \<Rightarrow> string \<Rightarrow> download_run \<Rightarrow> string option \<Rightarrow> tree \<Rightarrow> (build_panic + unit) \<times> tree" where
  "download_prebuilt os arch r sha256 t =
     (if cache_valid t sha256 then (Inr (), t)
      else case fetch_archive r sha256 of
        Inl e \<Rightarrow> (Inl e, t)
      | Inr archive \<Rightarrow> install_archive os arch r sha256 archive t)"

section \<open>Many runs\<close>

text \<open>What the tools are relied on for. \<open>sha\<close> is SHA-256 as lower case hexadecimal, \<open>content\<close>
  what an archive holds. A hashing tool prints the digest of the file or nothing the script reads
  as one. An extraction puts files of the archive in place, all of them when it succeeds. The
  directory could be cleared, and no archive brings a sentinel of its own.\<close>

definition honest :: "(bytes \<Rightarrow> string) \<Rightarrow> (bytes \<Rightarrow> tree) \<Rightarrow> download_run \<Rightarrow> bool" where
  "honest sha content r \<longleftrightarrow>
     (\<forall>a stdout. dr_sha256sum r a = Some (True, stdout) \<or> dr_shasum r a = Some (True, stdout) \<longrightarrow>
        parse_digest stdout \<in> {None, Some (sha a)}) \<and>
     (\<forall>a t. \<exists>x. x \<subseteq>\<^sub>m content a \<and> snd (dr_tar r a t) = t ++ x \<and> (fst (dr_tar r a t) \<longrightarrow> x = content a)) \<and>
     (\<forall>a t. \<exists>x. x \<subseteq>\<^sub>m content a \<and> snd (dr_zstd_tar r a t) = t ++ x \<and>
        (fst (dr_zstd_tar r a t) = Success \<longrightarrow> x = content a)) \<and>
     (\<forall>a. content a SENTINEL = None) \<and>
     (\<forall>p. \<not> dr_remaining r p)"

text \<open>One run on the directory: to its end, or killed while it clears the directory or after.\<close>

inductive build_run ::
  "(bytes \<Rightarrow> string) \<Rightarrow> (bytes \<Rightarrow> tree) \<Rightarrow> string \<Rightarrow> string \<Rightarrow> tree \<Rightarrow> tree \<Rightarrow> bool"
  for sha content os arch where
  ends: "honest sha content r \<Longrightarrow> build_run sha content os arch t (snd (download_prebuilt os arch r sha256 t))"
| killed_clearing: "t' \<subseteq>\<^sub>m t \<Longrightarrow> build_run sha content os arch t t'"
| killed_extracting: "t' SENTINEL = None \<Longrightarrow> build_run sha content os arch t t'"

inductive out_dir :: "(bytes \<Rightarrow> string) \<Rightarrow> (bytes \<Rightarrow> tree) \<Rightarrow> string \<Rightarrow> string \<Rightarrow> tree \<Rightarrow> bool"
  for sha content os arch where
  fresh: "out_dir sha content os arch (\<lambda>_. None)"
| again: "out_dir sha content os arch t \<Longrightarrow> build_run sha content os arch t t' \<Longrightarrow> out_dir sha content os arch t'"

definition files :: "tree \<Rightarrow> tree" where
  "files t = t(SENTINEL := None)"

definition vouched :: "(bytes \<Rightarrow> string) \<Rightarrow> (bytes \<Rightarrow> tree) \<Rightarrow> string \<Rightarrow> string \<Rightarrow> string \<Rightarrow> tree \<Rightarrow> bool" where
  "vouched sha content os arch digest t \<longleftrightarrow>
     (\<exists>a. sha a = digest \<and> files t \<subseteq>\<^sub>m content a \<and>
          verify_prebuilt_arch os arch (content a ''lib/libwebrtc.a'') = Inr ())"

definition tree_ok :: "(bytes \<Rightarrow> string) \<Rightarrow> (bytes \<Rightarrow> tree) \<Rightarrow> string \<Rightarrow> string \<Rightarrow> tree \<Rightarrow> bool" where
  "tree_ok sha content os arch t \<longleftrightarrow>
     (\<forall>e. is_digest (lower (trim e)) \<and> sentinel_matches t e \<longrightarrow>
        vouched sha content os arch (lower (trim e)) t)"

section \<open>Every sentinel is backed by a checked archive\<close>

lemma trim_start_hd: "trim_start s = [] \<or> \<not> is_whitespace (hd (trim_start s))"
  using hd_dropWhile [of is_whitespace s] by (auto simp: trim_start_def)

lemma trim_idem [simp]: "trim (trim s) = trim s"
proof (rule trim_id)
  let ?t = "trim_start s"
  have last: "trim s = [] \<or> \<not> is_whitespace (last (trim s))"
    using hd_dropWhile [of is_whitespace "rev ?t"] by (auto simp: trim_def trim_end_def last_rev)
  moreover have "trim s = [] \<or> \<not> is_whitespace (hd (trim s))"
  proof (cases "trim s = []")
    case False
    have "rev (takeWhile is_whitespace (rev ?t) @ dropWhile is_whitespace (rev ?t)) = ?t" by simp
    then have "?t = trim s @ rev (takeWhile is_whitespace (rev ?t))"
      unfolding trim_def trim_end_def rev_append by (rule sym)
    then have "hd ?t = hd (trim s)" using False by (metis hd_append2)
    then show ?thesis using trim_start_hd [of s] False \<open>?t = _\<close> by auto
  qed simp
  ultimately show "trim s = [] \<or> \<not> is_whitespace (hd (trim s)) \<and> \<not> is_whitespace (last (trim s))" by blast
qed

lemma lower_length [simp]: "length (lower s) = length s"
  by (simp add: lower_def)

lemma trim_length: "length (trim s) \<le> length s"
proof -
  have "length (trim_end x) \<le> length x" for x
    by (simp add: trim_end_def length_dropWhile_le [of _ "rev x", simplified])
  moreover have "length (trim_start s) \<le> length s"
    by (simp add: trim_start_def length_dropWhile_le)
  ultimately show ?thesis unfolding trim_def by (meson order_trans)
qed

lemma tool_digest_eq: "tool_digest r = Some d \<longleftrightarrow> (\<exists>stdout. r = Some (True, stdout) \<and> parse_digest stdout = Some d)"
  by (auto simp: tool_digest_def split: option.split)

lemma sha256_file_eq: "sha256_file x y = Inr d \<longleftrightarrow> tool_digest x = Some d \<or> tool_digest x = None \<and> tool_digest y = Some d"
  by (auto simp: sha256_file_def split: option.split)

lemma fetched:
  assumes "honest sha content r" "fetch_archive r (Some e) = Inr a"
  shows "sha a = lower (trim e)" "is_digest (lower (trim e))"
proof -
  have got: "sha256_file (dr_sha256sum r (dr_archive r)) (dr_shasum r (dr_archive r)) = Inr (lower (trim e))"
      and a: "a = dr_archive r"
    using assms(2) by (auto simp: fetch_archive_def res_bind_eq_Inr Let_def split: if_splits)
  from got obtain stdout where out: "dr_sha256sum r a = Some (True, stdout) \<or> dr_shasum r a = Some (True, stdout)"
      "parse_digest stdout = Some (lower (trim e))"
    unfolding sha256_file_eq tool_digest_eq a by blast
  then have "parse_digest stdout \<in> {None, Some (sha a)}" using assms(1) unfolding honest_def by blast
  then show "sha a = lower (trim e)" using out(2) by auto
  show "is_digest (lower (trim e))" by (rule parse_digest_sound [OF out(2)])
qed

lemma extracted:
  assumes "honest sha content r" "extract_archive r a (clear_tree r t) = (res, t2)"
  shows "t2 \<subseteq>\<^sub>m content a" "res = Inr () \<Longrightarrow> t2 = content a" "t2 SENTINEL = None"
proof -
  have clear: "clear_tree r t = Map.empty" using assms(1) by (auto simp: honest_def clear_tree_def)
  obtain ok t1 where tar: "dr_tar r a Map.empty = (ok, t1)" by (meson surj_pair)
  obtain x where x: "x \<subseteq>\<^sub>m content a" "t1 = x" "ok \<longrightarrow> x = content a"
    using assms(1) tar unfolding honest_def by (metis empty_map_add fst_conv snd_conv)
  obtain status t3 where zstd: "dr_zstd_tar r a t1 = (status, t3)" by (meson surj_pair)
  obtain y where y: "y \<subseteq>\<^sub>m content a" "t3 = t1 ++ y" "status = Success \<longrightarrow> y = content a"
    using assms(1) zstd unfolding honest_def by (metis fst_conv snd_conv)
  have merged: "t1 ++ y \<subseteq>\<^sub>m content a" "y = content a \<Longrightarrow> t1 ++ y = content a"
    using x y by (auto simp: map_le_def map_add_def fun_eq_iff dom_def split: option.splits)
  have "(res, t2) = (if ok then (Inr (), t1) else (run_command ''extract prebuilt (zstd | tar)'' status, t3))"
    using assms(2) by (simp add: extract_archive_def clear tar zstd split: bool.splits)
  then show "t2 \<subseteq>\<^sub>m content a" "res = Inr () \<Longrightarrow> t2 = content a"
    using x y merged by (auto simp: run_command_def split: if_splits command_status.splits)
  then show "t2 SENTINEL = None"
    using assms(1) by (auto simp: honest_def map_le_def dom_def)
qed

lemma verify_absent [simp]: "verify_prebuilt_arch os arch None = Inr ()"
  by (simp add: verify_prebuilt_arch_def split: option.split)

lemma no_sentinel: "t SENTINEL = None \<Longrightarrow> tree_ok sha content os arch t"
  by (simp add: tree_ok_def sentinel_matches_def)

lemma files_written: "files (write_sentinel outcome e t) = files t"
  by (auto simp: files_def write_sentinel_def split: write_outcome.split)

lemma files_le: "files t \<subseteq>\<^sub>m t"
  by (auto simp: files_def map_le_def)

lemma written_matches:
  assumes "is_digest (lower (trim sha256))" "t SENTINEL = None"
    and "sentinel_matches (write_sentinel outcome sha256 t) e" "is_digest (lower (trim e))"
  shows "lower (trim e) = lower (trim sha256)"
proof -
  have take_bytes: "text_of (take n (ascii_bytes s)) = take n s" for n s
    using text_ascii_bytes [of "take n s"] by (simp add: ascii_bytes_def take_map)
  from assms(2,3) show ?thesis
  proof (cases outcome)
    case (Cut n)
    have "lower (trim (take n (trim sha256))) = lower (trim e)"
      using assms(3) by (auto simp: Cut sentinel_matches_def write_sentinel_def take_bytes split: sum.splits)
    moreover from this have "64 \<le> length (take n (trim sha256))"
      using assms(4) trim_length [of "take n (trim sha256)"] by (metis is_digest_def lower_length)
    moreover have "length (trim sha256) = 64" using assms(1) by (simp add: is_digest_def)
    ultimately show ?thesis by simp
  qed (auto simp: sentinel_matches_def write_sentinel_def split: sum.splits)
qed

lemma installed:
  assumes honest: "honest sha content r" and fetch: "fetch_archive r sha256 = Inr a"
    and install: "install_archive os arch r sha256 a t = (res, t')"
  shows "tree_ok sha content os arch t'"
    and "res = Inr () \<Longrightarrow> lib_present t' \<and> files t' \<subseteq>\<^sub>m content a \<and>
      verify_prebuilt_arch os arch (content a ''lib/libwebrtc.a'') = Inr ()"
proof -
  obtain res2 t2 where ext: "extract_archive r a (clear_tree r t) = (res2, t2)" by (meson surj_pair)
  note unpacked = extracted [OF honest ext]
  have empty: "clear_tree r t SENTINEL = None" using honest by (simp add: honest_def clear_tree_def)
  have lib: "lib_present (write_sentinel outcome e x) = lib_present x" for outcome e x
    by (auto simp: lib_present_def write_sentinel_def SENTINEL_def split: write_outcome.split)
  show ok: "res = Inr () \<Longrightarrow> lib_present t' \<and> files t' \<subseteq>\<^sub>m content a \<and>
      verify_prebuilt_arch os arch (content a ''lib/libwebrtc.a'') = Inr ()"
    using install ext unpacked(1,2) files_le [of t2]
    by (auto simp: install_archive_def Let_def lib files_written intro: map_le_trans
        split: if_splits sum.splits option.splits)
  show "tree_ok sha content os arch t'"
  proof (cases "\<exists>e. sha256 = Some e \<and> res = Inr ()")
    case True
    then obtain e where e: "sha256 = Some e" "res = Inr ()" by blast
    have t': "t' = write_sentinel (dr_write_sentinel r) e t2"
      using install ext e by (auto simp: install_archive_def Let_def split: if_splits sum.splits)
    note f = fetched [OF honest fetch [unfolded e(1)]]
    show ?thesis
      unfolding tree_ok_def vouched_def
      using written_matches [of e t2] f unpacked(3) ok [OF e(2)] unfolding t' by metis
  next
    case False
    then have "t' = clear_tree r t \<or> t' = t2"
      using install ext by (auto simp: install_archive_def Let_def split: if_splits sum.splits option.splits)
    then show ?thesis using empty unpacked(3) by (auto intro: no_sentinel)
  qed
qed

lemma tree_ok_run:
  assumes "build_run sha content os arch t t'" "tree_ok sha content os arch t"
  shows "tree_ok sha content os arch t'"
  using assms(1)
proof cases
  case (ends r sha256)
  show ?thesis
  proof (cases "cache_valid t sha256 \<or> (\<exists>e. fetch_archive r sha256 = Inl e)")
    case True
    then show ?thesis using assms(2) ends by (auto simp: download_prebuilt_def split: sum.split)
  next
    case False
    then obtain a where "fetch_archive r sha256 = Inr a" by (cases "fetch_archive r sha256") auto
    then show ?thesis
      using installed(1) [OF ends(2)] False ends(1)
      by (auto simp: download_prebuilt_def) (metis prod.collapse)
  qed
next
  case killed_clearing
  show ?thesis
    unfolding tree_ok_def
  proof (intro allI impI)
    fix e assume e: "is_digest (lower (trim e)) \<and> sentinel_matches t' e"
    then obtain bs where "t' SENTINEL = Some bs" by (auto simp: sentinel_matches_def split: option.splits)
    moreover from this have "t SENTINEL = Some bs" using killed_clearing by (force simp: map_le_def dom_def)
    ultimately have "sentinel_matches t e" using e by (simp add: sentinel_matches_def)
    then have "vouched sha content os arch (lower (trim e)) t" using assms(2) e by (simp add: tree_ok_def)
    moreover have "files t' \<subseteq>\<^sub>m files t"
      using killed_clearing by (auto simp: files_def map_le_def dom_def)
    ultimately show "vouched sha content os arch (lower (trim e)) t'"
      unfolding vouched_def by (meson map_le_trans)
  qed
next
  case killed_extracting
  then show ?thesis by (rule no_sentinel)
qed

lemma tree_ok_out_dir: "out_dir sha content os arch t \<Longrightarrow> tree_ok sha content os arch t"
  by (induction rule: out_dir.induct) (auto intro: no_sentinel tree_ok_run)

text \<open>C26: What the build links was checked. Take any history of an extraction directory: runs with
  any archive, checksum or none, that end, panic or are killed while they clear, extract or write
  the sentinel. When a run asked for a checksum ends well, the directory holds a library, and its
  files are those of an archive with exactly that checksum, which passed the check of its
  architecture; so a cached, cut or older extraction is never taken for it.\<close>
theorem prebuilt_was_checked:
  assumes "out_dir sha content os arch t" and "honest sha content r"
    and "is_digest (lower (trim expected))"
    and "download_prebuilt os arch r (Some expected) t = (Inr (), t')"
  shows "\<exists>a. sha a = lower (trim expected) \<and> files t' \<subseteq>\<^sub>m content a \<and> lib_present t' \<and>
    verify_prebuilt_arch os arch (t' ''lib/libwebrtc.a'') = Inr ()"
proof -
  have lib: "verify_prebuilt_arch os arch (t' ''lib/libwebrtc.a'') = Inr ()"
    if "files t' \<subseteq>\<^sub>m content a" "verify_prebuilt_arch os arch (content a ''lib/libwebrtc.a'') = Inr ()" for a
  proof (cases "t' ''lib/libwebrtc.a''")
    case (Some data)
    then have "content a ''lib/libwebrtc.a'' = Some data"
      using that(1) by (force simp: files_def map_le_def dom_def SENTINEL_def)
    then show ?thesis using that(2) Some by simp
  qed simp
  show ?thesis
  proof (cases "cache_valid t (Some expected)")
    case True
    then have t': "t' = t" using assms(4) by (simp add: download_prebuilt_def)
    have "vouched sha content os arch (lower (trim expected)) t"
      using tree_ok_out_dir [OF assms(1)] True assms(3) by (simp add: tree_ok_def cache_valid_def)
    then show ?thesis using lib True unfolding vouched_def t' cache_valid_def by blast
  next
    case False
    then obtain a where a: "fetch_archive r (Some expected) = Inr a"
        "install_archive os arch r (Some expected) a t = (Inr (), t')"
      using assms(4) by (auto simp: download_prebuilt_def split: sum.splits)
    then show ?thesis
      using fetched [OF assms(2) a(1)] installed(2) [OF assms(2) a refl] lib by blast
  qed
qed

text \<open>A first run in a fresh directory, on a target whose architecture is not checked.\<close>

definition some_digest :: string where
  "some_digest = replicate 64 (CHR ''a'')"

definition good_run :: download_run where
  "good_run =
     \<lparr>dr_curl = Success, dr_archive = [], dr_sha256sum = (\<lambda>_. Some (True, some_digest @ [CHR '' ''])),
      dr_shasum = (\<lambda>_. None), dr_remaining = (\<lambda>_. False), dr_create_dir = True,
      dr_tar = (\<lambda>_ t. (True, t ++ [''lib/libwebrtc.a'' \<mapsto> []])),
      dr_zstd_tar = (\<lambda>_ t. (NotStarted [], t)), dr_write_sentinel = Whole\<rparr>"

lemma some_digest: "is_digest some_digest" "lower (trim some_digest) = some_digest"
  "parse_digest (some_digest @ [CHR '' '']) = Some some_digest"
proof -
  show d: "is_digest some_digest"
    by (simp add: is_digest_def some_digest_def is_lower_hex_def list_all_iff)
  show "parse_digest (some_digest @ [CHR '' '']) = Some some_digest"
    using parse_digest_printed [OF d, of "[]" "CHR '' ''" "[]"] by (simp add: is_whitespace_def)
  show "lower (trim some_digest) = some_digest"
    unfolding some_digest_def lower_def by code_simp
qed

lemma good_run_honest: "honest (\<lambda>_. some_digest) (\<lambda>_. [''lib/libwebrtc.a'' \<mapsto> []]) good_run"
  using some_digest(3)
  by (auto simp: honest_def good_run_def SENTINEL_def map_le_def intro: exI [of _ Map.empty])

lemma prebuilt_was_checked_witness:
  "\<exists>t' a. download_prebuilt ''macos'' ''aarch64'' good_run (Some some_digest) Map.empty = (Inr (), t') \<and>
     files t' \<subseteq>\<^sub>m ((\<lambda>_. [''lib/libwebrtc.a'' \<mapsto> []]) :: bytes \<Rightarrow> tree) a \<and> lib_present t'"
proof -
  define t' where "t' = snd (download_prebuilt ''macos'' ''aarch64'' good_run (Some some_digest) Map.empty)"
  have run: "download_prebuilt ''macos'' ''aarch64'' good_run (Some some_digest) Map.empty = (Inr (), t')"
    using some_digest
    by (simp add: t'_def download_prebuilt_def cache_valid_def lib_present_def fetch_archive_def run_command_def
        good_run_def sha256_file_def tool_digest_def install_archive_def extract_archive_def verify_prebuilt_arch_def
        Let_def)
  have "is_digest (lower (trim some_digest))" using some_digest by simp
  from prebuilt_was_checked [OF out_dir.fresh good_run_honest this run] run show ?thesis by blast
qed

section \<open>Without a checksum\<close>

text \<open>An archive of the wrong architecture, refused by one run, is served by the next when there is
  no checksum to compare: the extraction stays, and a library that is present is trusted.\<close>

lemma refused_archive_is_served:
  assumes "download_prebuilt os arch r None t = (Inl (ArchMismatch w x y z), t1)"
  shows "download_prebuilt os arch r' None t1 = (Inr (), t1)"
    and "\<exists>p. verify_prebuilt_arch os arch (t1 ''lib/libwebrtc.a'') = Inl p"
proof -
  obtain a where install: "install_archive os arch r None a t = (Inl (ArchMismatch w x y z), t1)"
    using assms by (auto simp: download_prebuilt_def fetch_archive_def run_command_def res_bind_def
        split: if_splits sum.splits command_status.splits)
  then have "lib_present t1 \<and> verify_prebuilt_arch os arch (t1 ''lib/libwebrtc.a'') = Inl (ArchMismatch w x y z)"
    by (auto simp: install_archive_def extract_archive_def run_command_def Let_def
        split: if_splits sum.splits prod.splits bool.splits command_status.splits)
  then show "download_prebuilt os arch r' None t1 = (Inr (), t1)"
    and "\<exists>p. verify_prebuilt_arch os arch (t1 ''lib/libwebrtc.a'') = Inl p"
    by (auto simp: download_prebuilt_def cache_valid_def)
qed

end
