(* ===== verification/Native_Link.thy ===== *)
theory Native_Link
  imports Prebuilt
begin

text \<open>
  How the build script links the native library (\<open>crates/reactor-webrtc-sys/build.rs\<close>: \<open>main\<close>,
  \<open>link\<close>, \<open>archive_uses_relative_vtables\<close>, \<open>compile_glue\<close>, \<open>compile_apple_hw_glue\<close>,
  \<open>link_system_deps\<close>): which of the three sources it takes, what it checks about the archive, how
  the C++ glue is compiled and what Cargo is told.

  What the script prints is a list of directives; each build of the \<open>cc\<close> crate is a record of what
  it was given. The environment and the disk are arguments; paths are text.
\<close>

section \<open>Environment, disk and output\<close>

text \<open>Variables of Cargo that are not set read as empty.\<close>

record build_env =
  en_lib_dir :: "string option"
  en_include_dir :: "string option"
  en_prebuilt_url :: "string option"
  en_prebuilt_sha256 :: "string option"
  en_manifest_dir :: string
  en_os :: string
  en_arch :: string
  en_abi :: string
  en_target_env :: string
  en_openh264 :: bool
  en_cxx :: bool \<comment> \<open>whether \<open>CXX\<close> is set\<close>

record disk =
  ds_is_file :: "string \<Rightarrow> bool"
  ds_is_dir :: "string \<Rightarrow> bool"
  ds_read :: "string \<Rightarrow> string option"

datatype directive =
    RerunIfEnvChanged string
  | RerunIfChanged string
  | CheckCfg string
  | Warning string
  | LinkSearch string
  | LinkLib string
  | LinkArg string
  | RustcEnv string string
  | RustcCfg string

record glue_build =
  gb_output :: string
  gb_files :: "string list"
  gb_includes :: "string list"
  gb_defines :: "(string \<times> string option) list"
  gb_flags :: "string list"
  gb_compiler :: "string option"
  gb_no_stdlib :: bool
  gb_static_crt :: bool

definition join :: "string \<Rightarrow> string \<Rightarrow> string" where
  "join dir p = dir @ ''/'' @ p"

section \<open>What the archive was built as\<close>

definition archive_uses_relative_vtables :: "build_env \<Rightarrow> disk \<Rightarrow> string \<Rightarrow> directive list \<times> (build_panic + bool)" where
  "archive_uses_relative_vtables e d lib_dir =
     (if en_os e \<noteq> ''android'' then ([], Inr False)
      else (let marker = join lib_dir ''cxx_vtables'' in
        ([RerunIfChanged marker],
         case ds_read d marker of
           Some s \<Rightarrow>
             (if trim s = ''relative'' then Inr True
              else if trim s = ''absolute'' then Inr False
              else Inl (UnknownVtables (trim s)))
         | None \<Rightarrow> Inr (en_arch e = ''aarch64''))))"

definition check_libc :: "build_env \<Rightarrow> disk \<Rightarrow> string \<Rightarrow> build_panic + unit" where
  "check_libc e d lib_dir =
     (if en_os e \<noteq> ''linux'' then Inr ()
      else (let archive_libc = (case ds_read d (join lib_dir ''linux_libc'') of Some s \<Rightarrow> trim s | None \<Rightarrow> ''gnu'')
            in if archive_libc = en_target_env e then Inr () else Inl (LibcMismatch archive_libc (en_target_env e))))"

definition is_debug_prebuilt :: "disk \<Rightarrow> string \<Rightarrow> bool" where
  "is_debug_prebuilt d lib_dir =
     (case ds_read d (join lib_dir ''build_profile'') of Some s \<Rightarrow> trim s = ''debug'' | None \<Rightarrow> False)"

section \<open>The glue\<close>

definition compile_apple_hw_glue :: "string \<Rightarrow> bool \<Rightarrow> (string \<times> string option) list \<Rightarrow> directive list \<times> glue_build" where
  "compile_apple_hw_glue include_dir debug extra_defines =
     ([RerunIfChanged ''glue/apple_hw/apple_hw_codec.mm'', RerunIfChanged ''glue/apple_hw/apple_hw_codec.h''],
      \<lparr>gb_output = ''reactor_apple_hw_glue'', gb_files = [''glue/apple_hw/apple_hw_codec.mm''],
       gb_includes = [include_dir, join include_dir ''third_party/abseil-cpp'',
         join include_dir ''third_party/libyuv/include'', join include_dir ''sdk/objc/base'',
         join include_dir ''sdk/objc''],
       gb_defines = [(''WEBRTC_POSIX'', None), (''WEBRTC_MAC'', None)] @ extra_defines
         @ (if \<not> debug then [(''NDEBUG'', None)] else []),
       gb_flags = [''-fobjc-arc''], gb_compiler = None, gb_no_stdlib = False, gb_static_crt = False\<rparr>)"

definition glue_files :: "build_env \<Rightarrow> string list" where
  "glue_files e =
     ''glue/reactor_webrtc.cpp'' # (if en_openh264 e then [''glue/openh264/openh264_codec.cc''] else [])"

definition platform_defines :: "build_env \<Rightarrow> (string \<times> string option) list" where
  "platform_defines e =
     (if en_os e = ''macos'' then [(''WEBRTC_POSIX'', None), (''WEBRTC_MAC'', None)]
      else if en_os e = ''ios'' then [(''WEBRTC_POSIX'', None), (''WEBRTC_MAC'', None), (''WEBRTC_IOS'', None)]
      else if en_os e = ''android'' then [(''WEBRTC_POSIX'', None), (''WEBRTC_LINUX'', None), (''WEBRTC_ANDROID'', None)]
      else if en_os e = ''linux'' then [(''WEBRTC_POSIX'', None), (''WEBRTC_LINUX'', None)]
      else if en_os e = ''windows'' then [(''WEBRTC_WIN'', None), (''NOMINMAX'', None)]
      else [])"

text \<open>The libc++ the archive brings, on the two systems where it links its own: flags, the extra
  define, and a warning when it is absent.\<close>

definition bundles_libcxx :: "build_env \<Rightarrow> bool" where
  "bundles_libcxx e = (en_os e = ''linux'' \<or> en_os e = ''android'')"

definition bundled_libcxx :: "build_env \<Rightarrow> disk \<Rightarrow> string \<Rightarrow> directive list \<times> string list \<times> bool" where
  "bundled_libcxx e d include_dir =
     (let libcxx = join include_dir ''third_party/libc++/src/include'';
          cfg_site = join include_dir ''buildtools/third_party/libc++'';
          libcxxabi = join include_dir ''third_party/libc++abi/src/include'' in
      if \<not> bundles_libcxx e then ([], [], False)
      else if ds_is_dir d libcxx
      then ([], [''-nostdinc++'', ''-isystem'', cfg_site, ''-isystem'', libcxx]
                @ (if ds_is_dir d libcxxabi then [''-isystem'', libcxxabi] else []), True)
      else ([Warning (''bundled libc++ headers absent under '' @ include_dir)], [], False))"

text \<open>Apple's codecs are a library of their own.\<close>

definition apple_glue :: "build_env \<Rightarrow> string \<Rightarrow> bool \<Rightarrow> directive list \<times> glue_build list" where
  "apple_glue e include_dir debug =
     (if en_os e = ''macos'' then map_prod id (\<lambda>g. [g]) (compile_apple_hw_glue include_dir debug [])
      else if en_os e = ''ios''
      then map_prod id (\<lambda>g. [g]) (compile_apple_hw_glue include_dir debug [(''WEBRTC_IOS'', None)])
      else ([], []))"

definition main_glue :: "build_env \<Rightarrow> string \<Rightarrow> bool \<Rightarrow> bool \<Rightarrow> string list \<Rightarrow> bool \<Rightarrow> glue_build" where
  "main_glue e include_dir debug relative_vtables cxx_flags bundled =
     \<lparr>gb_output = ''reactor_webrtc_glue'', gb_files = glue_files e,
      gb_includes = [include_dir, join include_dir ''third_party/abseil-cpp'',
        join include_dir ''third_party/libyuv/include''],
      gb_defines = (if en_openh264 e then [(''REACTOR_WEBRTC_OPENH264'', None)] else [])
        @ platform_defines e @ (if \<not> debug then [(''NDEBUG'', None)] else [])
        @ (if bundled then [(''_LIBCPP_HARDENING_MODE'', Some ''_LIBCPP_HARDENING_MODE_NONE'')] else []),
      gb_flags = (if en_os e = ''android'' \<and> relative_vtables
                  then [''-fexperimental-relative-c++-abi-vtables''] else []) @ cxx_flags,
      gb_compiler = (if bundled \<and> en_os e = ''linux'' \<and> \<not> en_cxx e then Some ''clang++'' else None),
      gb_no_stdlib = bundled, gb_static_crt = (en_os e = ''windows'')\<rparr>"

definition compile_glue :: "build_env \<Rightarrow> disk \<Rightarrow> string \<Rightarrow> bool \<Rightarrow> bool \<Rightarrow> directive list \<times> glue_build list" where
  "compile_glue e d include_dir debug relative_vtables =
     (let (warnings, cxx_flags, bundled) = bundled_libcxx e d include_dir;
          (apple_directives, apple) = apple_glue e include_dir debug
      in ([RerunIfChanged ''glue/reactor_webrtc.cpp'']
            @ (if en_openh264 e
               then [RerunIfChanged ''glue/openh264/openh264_codec.cc'', RerunIfChanged ''glue/openh264/openh264_codec.h'']
               else [])
            @ apple_directives @ warnings,
          apple @ [main_glue e include_dir debug relative_vtables cxx_flags bundled]))"

section \<open>System libraries\<close>

definition frameworks :: "string list \<Rightarrow> directive list" where
  "frameworks fws = map (\<lambda>fw. LinkLib (''framework='' @ fw)) fws"

definition dylibs :: "string list \<Rightarrow> directive list" where
  "dylibs ls = map (\<lambda>l. LinkLib (''dylib='' @ l)) ls"

definition link_system_deps :: "build_env \<Rightarrow> disk \<Rightarrow> string \<Rightarrow> directive list" where
  "link_system_deps e d lib_dir =
     (let has = (\<lambda>name. ds_is_file d (join lib_dir name));
          abi = (if has ''libc++abi.a'' then [LinkLib ''static:+whole-archive=c++abi''] else []);
          unwind = (if has ''libunwind.a'' then [LinkLib ''static=unwind''] else []) in
      if en_os e = ''macos'' then
        LinkLib ''c++'' #
        frameworks [''Foundation'', ''CoreFoundation'', ''CoreAudio'', ''AudioToolbox'', ''CoreMedia'', ''CoreVideo'',
          ''CoreGraphics'', ''CoreImage'', ''VideoToolbox'', ''AVFoundation'', ''AppKit'', ''IOSurface'', ''IOKit'',
          ''Metal'', ''QuartzCore'', ''OpenGL'', ''ScreenCaptureKit'', ''Security'', ''SystemConfiguration'']
      else if en_os e = ''ios'' then
        LinkLib ''c++'' #
        frameworks [''Foundation'', ''CoreFoundation'', ''CoreAudio'', ''AudioToolbox'', ''CoreMedia'', ''CoreVideo'',
          ''CoreGraphics'', ''VideoToolbox'', ''AVFoundation'', ''Metal'', ''Network'', ''UIKit'']
      else if en_os e = ''android'' then
        [LinkLib ''static:+whole-archive=c++''] @ abi @ unwind
        @ dylibs [''EGL'', ''GLESv2'', ''OpenSLES'', ''log'']
        @ [LinkArg ''-Wl,--undefined=JNI_OnLoad'']
        @ (if has ''libwebrtc.jar'' then [RustcEnv ''REACTOR_WEBRTC_JAR'' (join lib_dir ''libwebrtc.jar'')] else [])
      else if en_os e = ''linux'' then
        [Warning (''libc++.a at '' @ join lib_dir ''libc++.a'' @ (if has ''libc++.a'' then '' found'' else '' absent''))]
        @ (if has ''libc++.a'' then [LinkLib ''static:+whole-archive=c++''] @ abi @ unwind
           else [Warning ''bundled libc++.a absent'', LinkLib ''dylib=stdc++''])
        @ dylibs [''dl'', ''pthread'', ''m'']
      else if en_os e = ''windows'' then
        dylibs [''winmm'', ''secur32'', ''ole32'', ''ws2_32'', ''iphlpapi'', ''dxgi'', ''d3d11'', ''dwmapi'', ''gdi32'',
          ''shcore'', ''dmoguids'', ''msdmo'', ''strmiids'', ''wmcodecdspuuid'']
      else [])"

section \<open>Linking\<close>

definition resolve_dirs :: "build_env \<Rightarrow> disk \<Rightarrow> string \<Rightarrow> string \<times> string" where
  "resolve_dirs e d root =
     (if ds_is_file d (join root ''lib/libwebrtc.a'') \<or> ds_is_file d (join root ''lib/libwebrtc.lib'')
      then (join root ''lib'', join root ''include'')
      else (root, case en_include_dir e of Some i \<Rightarrow> i | None \<Rightarrow> join root ''include''))"

type_synonym build_output = "directive list \<times> glue_build list"

definition link :: "build_env \<Rightarrow> disk \<Rightarrow> string \<Rightarrow> build_panic + build_output" where
  "link e d root =
     (let (lib_dir, include_dir) = resolve_dirs e d root in
      res_bind (check_libc e d lib_dir) (\<lambda>_.
      let (vtable_directives, relative) = archive_uses_relative_vtables e d lib_dir in
      res_bind relative (\<lambda>relative.
      let (glue_directives, glue) = compile_glue e d include_dir (is_debug_prebuilt d lib_dir) relative;
          link_name = (if ds_is_file d (join lib_dir ''libwebrtc.lib'') then ''libwebrtc'' else ''webrtc'')
      in Inr (vtable_directives @ glue_directives
                @ [LinkSearch (''native='' @ lib_dir), LinkLib (''static:+whole-archive='' @ link_name)]
                @ link_system_deps e d lib_dir @ [RustcCfg ''have_libwebrtc''], glue))))"

section \<open>The three sources\<close>

definition with_directives :: "directive list \<Rightarrow> build_panic + build_output \<Rightarrow> build_panic + build_output" where
  "with_directives ds r = (case r of Inl p \<Rightarrow> Inl p | Inr (ds', glue) \<Rightarrow> Inr (ds @ ds', glue))"

text \<open>\<open>sidecar\<close> is what the download of a checksum file gives, \<open>download\<close> is \<open>download_prebuilt\<close>
  with the directory it returns.\<close>

definition main ::
  "build_env \<Rightarrow> disk \<Rightarrow> string option \<Rightarrow> (string \<Rightarrow> string option) \<Rightarrow> (string \<Rightarrow> string option \<Rightarrow> build_panic + string)
     \<Rightarrow> build_panic + build_output" where
  "main e d version_file sidecar download =
     with_directives
       [RerunIfEnvChanged ''REACTOR_WEBRTC_LIB_DIR'', RerunIfEnvChanged ''REACTOR_WEBRTC_INCLUDE_DIR'',
        RerunIfEnvChanged ''REACTOR_WEBRTC_PREBUILT_URL'', RerunIfEnvChanged ''REACTOR_WEBRTC_PREBUILT_SHA256'',
        CheckCfg ''cfg(have_libwebrtc)'']
       (case en_lib_dir e of
          Some dir \<Rightarrow>
            with_directives
              (map (\<lambda>name. RerunIfChanged (join (join dir ''lib'') name))
                 [''libwebrtc.a'', ''libc++.a'', ''libc++abi.a'', ''build_profile'', ''linux_libc''])
              (link e d dir)
        | None \<Rightarrow>
          (case en_prebuilt_url e of
             Some url \<Rightarrow> res_bind (download url (en_prebuilt_sha256 e)) (link e d)
           | None \<Rightarrow>
             (let unavailable = [Warning ''no prebuilt available for this target''] in
              case build_platform (en_os e) (en_arch e) (en_abi e) (en_target_env e) of
                None \<Rightarrow> Inr (unavailable, [])
              | Some platform \<Rightarrow>
                  res_bind (prebuilt_tag version_file) (\<lambda>tag.
                  let asset = ''reactor-webrtc-'' @ platform @ ''-release.tar.zst'';
                      sha_asset = asset @ ''.sha256'';
                      url = PREBUILT_BASE @ ''/'' @ tag @ ''/'' @ asset;
                      sha_url = PREBUILT_BASE @ ''/'' @ tag @ ''/'' @ sha_asset in
                  with_directives
                    (if version_file = None then []
                     else [RerunIfChanged (join (en_manifest_dir e) ''../../WEBRTC_VERSION'')])
                    (case fetch_sha256 (sidecar sha_url) of
                       Some sha \<Rightarrow> res_bind (download url (Some sha)) (link e d)
                     | None \<Rightarrow>
                         Inr ([Warning (''checksum for '' @ tag @ ''/'' @ sha_asset @ '' not reachable'')] @ unavailable,
                              []))))))"

section \<open>The glue fits the archive\<close>

definition RELATIVE_FLAG :: string where
  "RELATIVE_FLAG = ''-fexperimental-relative-c++-abi-vtables''"

lemma join_neq: "p \<noteq> [] \<Longrightarrow> last p \<noteq> last q \<Longrightarrow> join dir p \<noteq> q"
  by (auto simp: join_def)

lemma libcxx_flags: "RELATIVE_FLAG \<notin> set (fst (snd (bundled_libcxx e d include_dir)))"
  using join_neq [of "''buildtools/third_party/libc++''" RELATIVE_FLAG include_dir]
    join_neq [of "''third_party/libc++/src/include''" RELATIVE_FLAG include_dir]
    join_neq [of "''third_party/libc++abi/src/include''" RELATIVE_FLAG include_dir]
  by (auto simp: bundled_libcxx_def Let_def RELATIVE_FLAG_def)

lemma apple_glue_facts:
  "\<forall>g \<in> set (snd (apple_glue e include_dir debug)).
     ((''NDEBUG'', None) \<in> set (gb_defines g) \<longleftrightarrow> \<not> debug) \<and> RELATIVE_FLAG \<notin> set (gb_flags g)"
  "RustcCfg c \<notin> set (fst (apple_glue e include_dir debug))"
  by (auto simp: apple_glue_def compile_apple_hw_glue_def RELATIVE_FLAG_def)

lemma platform_defines_plain: "(''NDEBUG'', None) \<notin> set (platform_defines e)"
  by (simp add: platform_defines_def)

lemma main_glue_facts:
  "(''NDEBUG'', None) \<in> set (gb_defines (main_glue e include_dir debug relative flags bundled)) \<longleftrightarrow> \<not> debug"
  "RELATIVE_FLAG \<in> set (gb_flags (main_glue e include_dir debug relative flags bundled)) \<longleftrightarrow>
     en_os e = ''android'' \<and> relative \<or> RELATIVE_FLAG \<in> set flags"
  using platform_defines_plain [of e] by (simp_all add: main_glue_def RELATIVE_FLAG_def)

lemma bundled_no_cfg: "RustcCfg c \<notin> set (fst (bundled_libcxx e d include_dir))"
  by (simp add: bundled_libcxx_def Let_def)

lemma compiled_glue:
  assumes "compile_glue e d include_dir debug relative = (ds, glue)"
  shows "\<forall>g \<in> set glue. (''NDEBUG'', None) \<in> set (gb_defines g) \<longleftrightarrow> \<not> debug"
    and "(\<exists>g \<in> set glue. RELATIVE_FLAG \<in> set (gb_flags g)) \<longleftrightarrow> en_os e = ''android'' \<and> relative"
    and "glue \<noteq> []"
    and "RustcCfg c \<notin> set ds"
proof -
  obtain ws flags bundled where cxx: "bundled_libcxx e d include_dir = (ws, flags, bundled)" by (metis surj_pair)
  obtain ads apple where apple: "apple_glue e include_dir debug = (ads, apple)" by (metis surj_pair)
  have parts: "glue = apple @ [main_glue e include_dir debug relative flags bundled]"
    "set ds \<subseteq> {RerunIfChanged ''glue/reactor_webrtc.cpp'', RerunIfChanged ''glue/openh264/openh264_codec.cc'',
       RerunIfChanged ''glue/openh264/openh264_codec.h''} \<union> set ads \<union> set ws"
    using assms by (auto simp: compile_glue_def cxx apple split: if_splits)
  note facts = apple_glue_facts [where e = e and include_dir = include_dir and debug = debug, unfolded apple] main_glue_facts
    libcxx_flags [of e d include_dir, unfolded cxx] bundled_no_cfg [where e = e and d = d and include_dir = include_dir, unfolded cxx]
  show "\<forall>g \<in> set glue. (''NDEBUG'', None) \<in> set (gb_defines g) \<longleftrightarrow> \<not> debug"
    using facts by (simp add: parts(1))
  show "(\<exists>g \<in> set glue. RELATIVE_FLAG \<in> set (gb_flags g)) \<longleftrightarrow> en_os e = ''android'' \<and> relative"
    using facts by (auto simp: parts(1))
  show "glue \<noteq> []" by (simp add: parts(1))
  show "RustcCfg c \<notin> set ds" using facts parts(2) by auto
qed

text \<open>The archive's own account of itself, in its marker files.\<close>

definition archive_libc :: "disk \<Rightarrow> string \<Rightarrow> string" where
  "archive_libc d lib_dir = (case ds_read d (join lib_dir ''linux_libc'') of Some s \<Rightarrow> trim s | None \<Rightarrow> ''gnu'')"

definition archive_relative :: "build_env \<Rightarrow> disk \<Rightarrow> string \<Rightarrow> bool" where
  "archive_relative e d lib_dir =
     (case ds_read d (join lib_dir ''cxx_vtables'') of Some s \<Rightarrow> trim s = ''relative'' | None \<Rightarrow> en_arch e = ''aarch64'')"


text \<open>An old archive without markers, linked for glibc and refused for musl.\<close>

definition linux_env :: "string \<Rightarrow> build_env" where
  "linux_env target_env =
     \<lparr>en_lib_dir = Some ''r'', en_include_dir = None, en_prebuilt_url = None, en_prebuilt_sha256 = None,
      en_manifest_dir = ''m'', en_os = ''linux'', en_arch = ''x86_64'', en_abi = [], en_target_env = target_env,
      en_openh264 = False, en_cxx = False\<rparr>"

definition old_disk :: disk where
  "old_disk = \<lparr>ds_is_file = (\<lambda>p. p = ''r/lib/libwebrtc.a''), ds_is_dir = (\<lambda>_. False), ds_read = (\<lambda>_. None)\<rparr>"


text \<open>The crate is told there is a library exactly when one was linked, and only without a
  platform or a checksum is nothing linked.\<close>
theorem main_links_or_says_so:
  "case main e d version_file sidecar download of
     Inl _ \<Rightarrow> True
   | Inr (ds, glue) \<Rightarrow>
       (RustcCfg ''have_libwebrtc'' \<in> set ds \<longleftrightarrow> glue \<noteq> []) \<and>
       (glue = [] \<longrightarrow> en_lib_dir e = None \<and> en_prebuilt_url e = None \<and>
          (build_platform (en_os e) (en_arch e) (en_abi e) (en_target_env e) = None \<or>
           (\<exists>url. fetch_sha256 (sidecar url) = None)))"
proof -
  have linked: "RustcCfg ''have_libwebrtc'' \<in> set ds \<and> glue \<noteq> []" if "link e d root = Inr (ds, glue)" for root ds glue
  proof -
    obtain lib_dir include_dir where dirs: "resolve_dirs e d root = (lib_dir, include_dir)" by (meson surj_pair)
    obtain ds1 relative where vt: "archive_uses_relative_vtables e d lib_dir = (ds1, relative)" by (meson surj_pair)
    from that obtain rel where "relative = Inr rel" by (auto simp: link_def dirs vt Let_def res_bind_eq_Inr)
    moreover obtain ds2 g where glue: "compile_glue e d include_dir (is_debug_prebuilt d lib_dir) rel = (ds2, g)"
      by (meson surj_pair)
    ultimately show ?thesis
      using that compiled_glue(3) [OF glue] by (auto simp: link_def dirs vt glue Let_def res_bind_eq_Inr)
  qed
  show ?thesis
    by (auto simp: main_def with_directives_def res_bind_def Let_def dest: linked
        split: sum.splits option.splits)
qed

text \<open>The default source never asks for an archive without a checksum.\<close>
theorem default_source_is_checked:
  "en_lib_dir e = None \<Longrightarrow> en_prebuilt_url e = None \<Longrightarrow>
   main e d version_file sidecar download =
   main e d version_file sidecar (\<lambda>url sha. case sha of None \<Rightarrow> Inl NoHashTool | Some s \<Rightarrow> download url (Some s))"
  by (cases "prebuilt_tag version_file"; cases version_file) (simp_all add: main_def Let_def split: option.split)

end
