(* ===== verification/Abi_Layout.thy ===== *)
theory Abi_Layout
  imports Prelude
begin

text \<open>
  How a struct of the native boundary lies in memory: the layout rule that \<open>repr(C)\<close> and the C++
  compiler share, writing and reading the fields of a struct, and that a value written on one side is
  the value read on the other when both declare fields of the same names and representations.
\<close>

section \<open>Targets and representations\<close>

text \<open>What differs between the targets the library is built for: the width of an address, and the
  alignment of an 8-byte number (4 on 32-bit x86). An \<open>int\<close> has four bytes on all of them.\<close>

record abi_target =
  ab_ptr :: nat
  ab_align8 :: nat

definition abi_target_ok :: "abi_target \<Rightarrow> bool" where
  "abi_target_ok t \<longleftrightarrow> (ab_ptr t = 4 \<or> ab_ptr t = 8) \<and> (ab_align8 t = 4 \<or> ab_align8 t = 8)"

definition LP64 :: abi_target where "LP64 = \<lparr>ab_ptr = 8, ab_align8 = 8\<rparr>"

text \<open>A field of \<open>n\<close> bytes is a number of a signedness, the bit pattern of a float, an address, or
  an array of characters.\<close>

datatype rep = SignedRep nat | UnsignedRep nat | FloatRep nat | AddressRep | CharsRep nat

definition align_of :: "abi_target \<Rightarrow> rep \<Rightarrow> nat" where
  "align_of t r =
     (let scalar = (\<lambda>n. if n = 8 then ab_align8 t else n) in
      case r of SignedRep n \<Rightarrow> scalar n | UnsignedRep n \<Rightarrow> scalar n | FloatRep n \<Rightarrow> scalar n
      | AddressRep \<Rightarrow> ab_ptr t | CharsRep n \<Rightarrow> 1)"

definition size_of :: "abi_target \<Rightarrow> rep \<Rightarrow> nat" where
  "size_of t r =
     (case r of SignedRep n \<Rightarrow> n | UnsignedRep n \<Rightarrow> n | FloatRep n \<Rightarrow> n | AddressRep \<Rightarrow> ab_ptr t | CharsRep n \<Rightarrow> n)"

text \<open>The types of the fields as either side writes them.\<close>

datatype rust_ty = RU8 | RI8 | RU32 | RI32 | RU64 | RI64 | RF64 | RUsize | RCInt | RChars nat
  | RPtr \<comment> \<open>\<open>*const\<close>, \<open>*mut\<close>\<close> | RFn \<comment> \<open>\<open>Option<extern "C" fn>\<close>\<close>

datatype cxx_ty = CUint8 | CInt8 | CUint32 | CInt32 | CUint64 | CInt64 | CDouble | CSize | CInt | CChars nat
  | CPtr | CFn

definition rust_rep :: "abi_target \<Rightarrow> rust_ty \<Rightarrow> rep" where
  "rust_rep t ty =
     (case ty of RU8 \<Rightarrow> UnsignedRep 1 | RI8 \<Rightarrow> SignedRep 1 | RU32 \<Rightarrow> UnsignedRep 4 | RI32 \<Rightarrow> SignedRep 4
      | RU64 \<Rightarrow> UnsignedRep 8 | RI64 \<Rightarrow> SignedRep 8 | RF64 \<Rightarrow> FloatRep 8 | RUsize \<Rightarrow> UnsignedRep (ab_ptr t)
      | RCInt \<Rightarrow> SignedRep 4 | RChars n \<Rightarrow> CharsRep n | RPtr \<Rightarrow> AddressRep | RFn \<Rightarrow> AddressRep)"

definition cxx_rep :: "abi_target \<Rightarrow> cxx_ty \<Rightarrow> rep" where
  "cxx_rep t ty =
     (case ty of CUint8 \<Rightarrow> UnsignedRep 1 | CInt8 \<Rightarrow> SignedRep 1 | CUint32 \<Rightarrow> UnsignedRep 4 | CInt32 \<Rightarrow> SignedRep 4
      | CUint64 \<Rightarrow> UnsignedRep 8 | CInt64 \<Rightarrow> SignedRep 8 | CDouble \<Rightarrow> FloatRep 8 | CSize \<Rightarrow> UnsignedRep (ab_ptr t)
      | CInt \<Rightarrow> SignedRep 4 | CChars n \<Rightarrow> CharsRep n | CPtr \<Rightarrow> AddressRep | CFn \<Rightarrow> AddressRep)"

section \<open>The layout rule\<close>

type_synonym fields = "(string \<times> rep) list"

definition align_up :: "nat \<Rightarrow> nat \<Rightarrow> nat" where
  "align_up n a = (n + a - 1) div a * a"

lemma align_up_ge: "0 < a \<Longrightarrow> n \<le> align_up n a"
proof -
  assume a: "0 < a"
  have "(n + a - 1) mod a < a" using a by simp
  then show ?thesis unfolding align_up_def using div_mult_mod_eq [of "n + a - 1" a] by linarith
qed

lemma align_up_dvd: "a dvd align_up n a"
  by (simp add: align_up_def)

lemma align_up_tight: "0 < a \<Longrightarrow> align_up n a < n + a"
  unfolding align_up_def using div_times_less_eq_dividend [of "n + a - 1" a] by linarith

lemma align_up_mono: "n \<le> m \<Longrightarrow> align_up n a \<le> align_up m a"
  by (simp add: align_up_def div_le_mono)

text \<open>Each field at the first offset that its alignment allows after the one before; the whole
  rounded up to the largest alignment.\<close>

fun offsets_from :: "abi_target \<Rightarrow> nat \<Rightarrow> fields \<Rightarrow> (string \<times> nat \<times> rep) list" where
  "offsets_from t o' [] = []"
| "offsets_from t o' ((name, r) # fs) =
     (let at = align_up o' (align_of t r) in (name, at, r) # offsets_from t (at + size_of t r) fs)"

fun end_from :: "abi_target \<Rightarrow> nat \<Rightarrow> fields \<Rightarrow> nat" where
  "end_from t o' [] = o'"
| "end_from t o' ((name, r) # fs) = end_from t (align_up o' (align_of t r) + size_of t r) fs"

definition layout :: "abi_target \<Rightarrow> fields \<Rightarrow> (string \<times> nat \<times> rep) list" where
  "layout t fs = offsets_from t 0 fs"

definition struct_align :: "abi_target \<Rightarrow> fields \<Rightarrow> nat" where
  "struct_align t fs = foldr max (map (\<lambda>(_, r). align_of t r) fs) 1"

definition struct_size :: "abi_target \<Rightarrow> fields \<Rightarrow> nat" where
  "struct_size t fs = align_up (end_from t 0 fs) (struct_align t fs)"

definition offset_of :: "abi_target \<Rightarrow> fields \<Rightarrow> string \<Rightarrow> nat option" where
  "offset_of t fs name = map_option fst (map_of (layout t fs) name)"

definition rep_ok :: "abi_target \<Rightarrow> rep \<Rightarrow> bool" where
  "rep_ok t r \<longleftrightarrow> align_of t r \<in> {1, 2, 4, 8} \<and> 0 < size_of t r"

definition reps_ok :: "abi_target \<Rightarrow> fields \<Rightarrow> bool" where
  "reps_ok t fs \<longleftrightarrow> list_all (\<lambda>(_, r). rep_ok t r) fs"

lemma rep_ok_align: "rep_ok t r \<Longrightarrow> 0 < align_of t r"
  by (auto simp: rep_ok_def)

lemma rust_rep_ok: "abi_target_ok t \<Longrightarrow> (\<forall>n. ty = RChars n \<longrightarrow> 0 < n) \<Longrightarrow> rep_ok t (rust_rep t ty)"
  by (cases ty) (auto simp: abi_target_ok_def rep_ok_def rust_rep_def align_of_def size_of_def Let_def)

lemma struct_align_simps:
  "struct_align t [] = 1"
  "struct_align t ((name, r) # fs) = max (align_of t r) (struct_align t fs)"
  by (simp_all add: struct_align_def)

lemma struct_align_pos: "0 < struct_align t fs"
  by (induction fs) (auto simp: struct_align_def)

lemma end_from_ge: "reps_ok t fs \<Longrightarrow> o' \<le> end_from t o' fs"
proof (induction t o' fs rule: end_from.induct)
  case (2 t o' name r fs)
  then have "o' \<le> align_up o' (align_of t r)" by (simp add: reps_ok_def align_up_ge rep_ok_align)
  then show ?case using 2 by (simp add: reps_ok_def)
qed simp

lemma offsets_bounds:
  assumes "reps_ok t fs" "(name, at, r) \<in> set (offsets_from t o' fs)"
  shows "o' \<le> at" "at + size_of t r \<le> end_from t o' fs" "align_of t r dvd at" "(name, r) \<in> set fs"
proof -
  have "o' \<le> at \<and> at + size_of t r \<le> end_from t o' fs \<and> align_of t r dvd at \<and> (name, r) \<in> set fs"
    using assms
  proof (induction t o' fs rule: offsets_from.induct)
    case (2 t o' name' r' fs)
    let ?at = "align_up o' (align_of t r')"
    have ok: "reps_ok t fs" "o' \<le> ?at" using "2.prems"(1) by (simp_all add: reps_ok_def align_up_ge rep_ok_align)
    from "2.prems"(2) consider "(name, at, r) = (name', ?at, r')"
      | "(name, at, r) \<in> set (offsets_from t (?at + size_of t r') fs)" by (auto simp: Let_def)
    then show ?case
    proof cases
      case 1
      then show ?thesis using ok end_from_ge [OF ok(1), of "?at + size_of t r'"] by (simp add: align_up_dvd)
    next
      case 2
      then show ?thesis using "2.IH" [OF refl ok(1)] ok(2) by auto
    qed
  qed simp
  then show "o' \<le> at" "at + size_of t r \<le> end_from t o' fs" "align_of t r dvd at" "(name, r) \<in> set fs" by simp_all
qed

lemma end_within_size: "end_from t 0 fs \<le> struct_size t fs"
  by (simp add: struct_size_def align_up_ge struct_align_pos)

lemma offsets_names: "map fst (offsets_from t o' fs) = map fst fs"
  by (induction t o' fs rule: offsets_from.induct) (simp_all add: Let_def)

text \<open>Fields appended to a struct leave the others where they are, and never shrink it.\<close>

text \<open>The offsets do not depend on the names.\<close>

fun positions :: "abi_target \<Rightarrow> nat \<Rightarrow> rep list \<Rightarrow> (nat \<times> rep) list" where
  "positions t o' [] = []"
| "positions t o' (r # rs) = (align_up o' (align_of t r), r) # positions t (align_up o' (align_of t r) + size_of t r) rs"

lemma offsets_positions: "offsets_from t o' fs = zip (map fst fs) (positions t o' (map snd fs))"
  by (induction t o' fs rule: offsets_from.induct) (simp_all add: Let_def)

lemma end_positions:
  "end_from t o' fs = (case rev (positions t o' (map snd fs)) of [] \<Rightarrow> o' | (at, r) # _ \<Rightarrow> at + size_of t r)"
  by (induction t o' fs rule: end_from.induct) (auto split: list.splits)

lemma struct_align_reps: "struct_align t fs = foldr max (map (align_of t) (map snd fs)) 1"
  by (induction fs) (auto simp: struct_align_def)

lemma offsets_name_set: "fst ` set (offsets_from t o' fs) = fst ` set fs"
  using arg_cong [OF offsets_names [of t o' fs], of set] by simp

lemma offsets_append: "offsets_from t o' (fs @ gs) = offsets_from t o' fs @ offsets_from t (end_from t o' fs) gs"
  by (induction t o' fs rule: offsets_from.induct) (simp_all add: Let_def)

lemma end_append: "end_from t o' (fs @ gs) = end_from t (end_from t o' fs) gs"
  by (induction t o' fs rule: end_from.induct) simp_all

lemma offset_of_append:
  assumes "offset_of t fs name = Some at"
  shows "offset_of t (fs @ gs) name = Some at"
  using assms by (auto simp: offset_of_def layout_def offsets_append map_add_def)

lemma struct_align_power: "reps_ok t fs \<Longrightarrow> struct_align t fs \<in> {1, 2, 4, 8}"
  by (induction fs) (auto simp: struct_align_simps reps_ok_def rep_ok_def max_def)

lemma power_dvd: "(a :: nat) \<in> {1, 2, 4, 8} \<Longrightarrow> b \<in> {1, 2, 4, 8} \<Longrightarrow> a \<le> b \<Longrightarrow> a dvd b"
  by auto

lemma align_up_least: "0 < a \<Longrightarrow> a dvd k \<Longrightarrow> n \<le> k \<Longrightarrow> align_up n a \<le> k"
proof (rule ccontr)
  assume a: "0 < a" "a dvd k" "n \<le> k" and far: "\<not> align_up n a \<le> k"
  obtain c d where c: "k = c * a" "align_up n a = d * a" using a(2) align_up_dvd by (metis dvdE mult.commute)
  then have "c < d" using far by (metis a(1) mult_le_mono1 not_less)
  then have "(c + 1) * a \<le> d * a" by (intro mult_le_mono1) simp
  then have "k + a \<le> align_up n a" using c by simp
  then show False using align_up_tight [OF a(1), of n] a(3) by simp
qed

lemma struct_size_append:
  assumes "reps_ok t (fs @ gs)"
  shows "struct_size t fs \<le> struct_size t (fs @ gs)"
proof -
  have ok: "reps_ok t fs" "reps_ok t gs" using assms by (simp_all add: reps_ok_def)
  have "struct_align t fs \<le> struct_align t (fs @ gs)"
    by (induction fs) (auto simp: struct_align_simps struct_align_pos Suc_le_eq)
  then have "struct_align t fs dvd struct_align t (fs @ gs)"
    by (intro power_dvd struct_align_power ok assms)
  then have "struct_align t fs dvd struct_size t (fs @ gs)"
    unfolding struct_size_def using align_up_dvd dvd_trans by blast
  moreover have "end_from t 0 fs \<le> struct_size t (fs @ gs)"
    using end_from_ge [OF ok(2), of "end_from t 0 fs"] end_within_size [of t "fs @ gs"] by (simp add: end_append)
  ultimately show ?thesis
    unfolding struct_size_def [of t fs] by (intro align_up_least struct_align_pos)
qed

section \<open>Values in bytes\<close>

text \<open>The bytes of a number, the lowest first. A float is its bit pattern, an address the number of
  the address.\<close>

datatype abi_value = Num int | Chars bytes

fun num_bytes :: "nat \<Rightarrow> int \<Rightarrow> bytes" where
  "num_bytes 0 x = []"
| "num_bytes (Suc n) x = word_of_int x # num_bytes n (x div 256)"

fun num_of_bytes :: "bytes \<Rightarrow> int" where
  "num_of_bytes [] = 0"
| "num_of_bytes (b # bs) = uint b + 256 * num_of_bytes bs"

lemma num_bytes_length [simp]: "length (num_bytes n x) = n"
  by (induction n x rule: num_bytes.induct) simp_all

lemma num_of_num_bytes: "num_of_bytes (num_bytes n x) = x mod 256 ^ n"
proof (induction n x rule: num_bytes.induct)
  case (2 n x)
  have "uint (word_of_int x :: u8) = x mod 256" by (simp add: uint_word_of_int take_bit_eq_mod)
  then show ?case using 2 by (simp add: zmod_zmult2_eq)
qed simp

definition signed_value :: "nat \<Rightarrow> int \<Rightarrow> int" where
  "signed_value n v = (if v < 256 ^ n div 2 then v else v - 256 ^ n)"

lemma signed_value_mod:
  assumes "0 < n" "- (256 ^ n div 2) \<le> x" "x < 256 ^ n div 2"
  shows "signed_value n (x mod 256 ^ n) = x"
proof -
  obtain m where "n = Suc m" using assms(1) gr0_implies_Suc by blast
  then have half: "256 ^ n = 2 * (256 ^ n div 2 :: int)" by simp
  show ?thesis
  proof (cases "0 \<le> x")
    case True
    then have "x mod 256 ^ n = x" using assms(3) half by (intro mod_pos_pos_trivial) linarith+
    then show ?thesis using assms(3) by (simp add: signed_value_def)
  next
    case False
    have "(x + 256 ^ n) mod 256 ^ n = x + 256 ^ n"
      using False assms(2) half by (intro mod_pos_pos_trivial) linarith+
    then have "x mod 256 ^ n = x + 256 ^ n" by simp
    moreover have "\<not> x + 256 ^ n < 256 ^ n div 2" using assms(2) half by linarith
    ultimately show ?thesis by (simp add: signed_value_def)
  qed
qed

definition fits :: "abi_target \<Rightarrow> rep \<Rightarrow> abi_value \<Rightarrow> bool" where
  "fits t r v =
     (case (r, v) of
        (SignedRep n, Num x) \<Rightarrow> 0 < n \<and> - (256 ^ n div 2) \<le> x \<and> x < 256 ^ n div 2
      | (UnsignedRep n, Num x) \<Rightarrow> 0 \<le> x \<and> x < 256 ^ n
      | (FloatRep n, Num x) \<Rightarrow> 0 \<le> x \<and> x < 256 ^ n
      | (AddressRep, Num x) \<Rightarrow> 0 \<le> x \<and> x < 256 ^ ab_ptr t
      | (CharsRep n, Chars cs) \<Rightarrow> length cs = n
      | _ \<Rightarrow> False)"

definition encode_value :: "abi_target \<Rightarrow> rep \<Rightarrow> abi_value \<Rightarrow> bytes" where
  "encode_value t r v = (case v of Num x \<Rightarrow> num_bytes (size_of t r) x | Chars cs \<Rightarrow> cs)"

definition decode_value :: "abi_target \<Rightarrow> rep \<Rightarrow> bytes \<Rightarrow> abi_value" where
  "decode_value t r bs =
     (case r of SignedRep n \<Rightarrow> Num (signed_value n (num_of_bytes bs)) | UnsignedRep n \<Rightarrow> Num (num_of_bytes bs)
      | FloatRep n \<Rightarrow> Num (num_of_bytes bs) | AddressRep \<Rightarrow> Num (num_of_bytes bs) | CharsRep n \<Rightarrow> Chars bs)"

lemma encode_length: "fits t r v \<Longrightarrow> length (encode_value t r v) = size_of t r"
  by (cases v; cases r) (auto simp: fits_def encode_value_def size_of_def)

lemma decode_encode_value: "fits t r v \<Longrightarrow> decode_value t r (encode_value t r v) = v"
  by (cases v; cases r)
     (auto simp: fits_def encode_value_def decode_value_def size_of_def num_of_num_bytes signed_value_mod)

section \<open>Structs in memory\<close>

type_synonym memory = "nat \<Rightarrow> u8"

definition store_bytes :: "nat \<Rightarrow> bytes \<Rightarrow> memory \<Rightarrow> memory" where
  "store_bytes a bs m = (\<lambda>i. if a \<le> i \<and> i < a + length bs then bs ! (i - a) else m i)"

definition load_bytes :: "nat \<Rightarrow> nat \<Rightarrow> memory \<Rightarrow> bytes" where
  "load_bytes a n m = map (\<lambda>k. m (a + k)) [0..<n]"

lemma load_store: "load_bytes a (length bs) (store_bytes a bs m) = bs"
  by (rule nth_equalityI) (simp_all add: load_bytes_def store_bytes_def)

lemma load_eq: "(\<And>i. a \<le> i \<Longrightarrow> i < a + n \<Longrightarrow> m i = m' i) \<Longrightarrow> load_bytes a n m = load_bytes a n m'"
  by (simp add: load_bytes_def)

text \<open>One side fills in the fields in order, and leaves the padding as it was; the other reads a
  field at its own offset, in its own representation.\<close>

definition store_struct :: "abi_target \<Rightarrow> fields \<Rightarrow> nat \<Rightarrow> (string \<Rightarrow> abi_value) \<Rightarrow> memory \<Rightarrow> memory" where
  "store_struct t fs base v m =
     foldl (\<lambda>m (name, at, r). store_bytes (base + at) (encode_value t r (v name)) m) m (layout t fs)"

definition load_field :: "abi_target \<Rightarrow> fields \<Rightarrow> nat \<Rightarrow> string \<Rightarrow> memory \<Rightarrow> abi_value option" where
  "load_field t fs base name m =
     map_option (\<lambda>(at, r). decode_value t r (load_bytes (base + at) (size_of t r) m)) (map_of (layout t fs) name)"

definition values_fit :: "abi_target \<Rightarrow> fields \<Rightarrow> (string \<Rightarrow> abi_value) \<Rightarrow> bool" where
  "values_fit t fs v \<longleftrightarrow> list_all (\<lambda>(name, r). fits t r (v name)) fs"

abbreviation store_fields :: "abi_target \<Rightarrow> nat \<Rightarrow> (string \<Rightarrow> abi_value) \<Rightarrow> memory \<Rightarrow> (string \<times> nat \<times> rep) list \<Rightarrow> memory" where
  "store_fields t base v m ls \<equiv> foldl (\<lambda>m (name, at, r). store_bytes (base + at) (encode_value t r (v name)) m) m ls"

lemma store_frame:
  assumes "reps_ok t fs" "values_fit t fs v" "i < base + o' \<or> base + end_from t o' fs \<le> i"
  shows "store_fields t base v m (offsets_from t o' fs) i = m i"
  using assms
proof (induction t o' fs arbitrary: m rule: offsets_from.induct)
  case (2 t o' name r fs)
  let ?at = "align_up o' (align_of t r)"
  have ok: "reps_ok t fs" "values_fit t fs v" "o' \<le> ?at" "fits t r (v name)"
    using "2.prems" by (simp_all add: reps_ok_def values_fit_def align_up_ge rep_ok_align)
  have within: "?at + size_of t r \<le> end_from t (?at + size_of t r) fs" by (rule end_from_ge [OF ok(1)])
  have outside: "i < base + (?at + size_of t r) \<or> base + end_from t (?at + size_of t r) fs \<le> i"
    using "2.prems"(3) ok(3) by (auto simp: Let_def)
  have "store_bytes (base + ?at) (encode_value t r (v name)) m i = m i"
    using "2.prems"(3) ok(3,4) within by (auto simp: store_bytes_def encode_length)
  then show ?case using "2.IH" [OF refl ok(1,2) outside] by (simp add: Let_def)
qed simp

lemma load_after_store:
  assumes "reps_ok t fs" "values_fit t fs v" "distinct (map fst fs)" "(name, at, r) \<in> set (offsets_from t o' fs)"
  shows "load_bytes (base + at) (size_of t r) (store_fields t base v m (offsets_from t o' fs)) = encode_value t r (v name)"
  using assms
proof (induction t o' fs arbitrary: m rule: offsets_from.induct)
  case (2 t o' name' r' fs)
  let ?at = "align_up o' (align_of t r')"
  let ?m = "store_bytes (base + ?at) (encode_value t r' (v name')) m"
  have ok: "reps_ok t fs" "values_fit t fs v" "distinct (map fst fs)" "fits t r' (v name')"
    using "2.prems" by (simp_all add: reps_ok_def values_fit_def)
  from "2.prems"(4) consider "(name, at, r) = (name', ?at, r')"
    | "(name, at, r) \<in> set (offsets_from t (?at + size_of t r') fs)" by (auto simp: Let_def)
  then show ?case
  proof cases
    case 1
    have "load_bytes (base + ?at) (size_of t r') (store_fields t base v ?m (offsets_from t (?at + size_of t r') fs))
            = load_bytes (base + ?at) (size_of t r') ?m"
      by (intro load_eq store_frame ok) simp
    then show ?thesis using 1 load_store [of "base + ?at" "encode_value t r' (v name')" m] ok(4)
      by (simp add: Let_def encode_length)
  next
    case 2
    then show ?thesis using "2.IH" [OF refl ok(1-3)] by (simp add: Let_def)
  qed
qed simp

lemma struct_round_trip:
  assumes "reps_ok t fs" "values_fit t fs v" "distinct (map fst fs)" "name \<in> fst ` set fs"
  shows "load_field t fs base name (store_struct t fs base v m) = Some (v name)"
proof -
  have names: "distinct (map fst (layout t fs))" "name \<in> fst ` set (layout t fs)"
    using assms(3,4) by (simp_all add: layout_def offsets_names offsets_name_set)
  then obtain at r where field: "(name, at, r) \<in> set (layout t fs)" by auto
  then have "(name, r) \<in> set fs" using offsets_bounds(4) [OF assms(1)] by (simp add: layout_def)
  then have "fits t r (v name)" using assms(2) by (auto simp: values_fit_def list_all_iff)
  then show ?thesis
    using load_after_store [OF assms(1-3)] field names(1)
    by (simp add: load_field_def store_struct_def layout_def decode_encode_value)
qed

lemma struct_frame:
  assumes "reps_ok t fs" "values_fit t fs v" "i < base \<or> base + struct_size t fs \<le> i"
  shows "store_struct t fs base v m i = m i"
  unfolding store_struct_def layout_def using assms end_within_size [of t fs] by (intro store_frame) auto

text \<open>A struct with fields appended is read by a side that knows only the first of them.\<close>

lemma load_prefix:
  assumes "name \<in> fst ` set fs"
  shows "load_field t fs base name m = load_field t (fs @ gs) base name m"
proof -
  have "name \<in> fst ` set (offsets_from t 0 fs)" using assms by (simp add: offsets_name_set)
  then obtain x where "map_of (offsets_from t 0 fs) name = Some x" by (metis map_of_eq_None_iff not_None_eq)
  then show ?thesis by (simp add: load_field_def layout_def offsets_append map_add_def)
qed

end
