(* ===== verification/Abi_Structs.thy ===== *)
theory Abi_Structs
  imports Abi_Layout
begin

text \<open>
  The structs of the native boundary as both sides declare them: the \<open>repr(C)\<close> structs of
  \<open>crates/reactor-webrtc-sys/src/lib.rs\<close> and the structs of \<open>glue/reactor_webrtc.cpp\<close>, field by field,
  with the assertions each side makes of its own copy. That the copies agree on every target, that the
  assertions hold, and what they would not notice.
\<close>

section \<open>Declarations\<close>

text \<open>A pointer is kept as an address whatever it points to, and so is a function pointer, an
  \<open>Option\<close> of one included.\<close>

definition ReactorEncodedFrame :: "(string \<times> rust_ty) list" where
  "ReactorEncodedFrame =
   [(''direction'', RCInt), (''is_audio'', RCInt), (''is_key_frame'', RCInt), (''payload_type'', RU8),
    (''ssrc'', RU32), (''timestamp'', RU32), (''capture_time_ms'', RI64), (''data'', RPtr),
    (''data_len'', RUsize), (''mime_type'', RPtr), (''frame'', RPtr)]"

definition glue_ReactorEncodedFrame :: "(string \<times> cxx_ty) list" where
  "glue_ReactorEncodedFrame =
   [(''direction'', CInt), (''is_audio'', CInt), (''is_key_frame'', CInt), (''payload_type'', CUint8),
    (''ssrc'', CUint32), (''timestamp'', CUint32), (''capture_time_ms'', CInt64), (''data'', CPtr),
    (''data_len'', CSize), (''mime_type'', CPtr), (''frame'', CPtr)]"

definition ReactorRawVideoFrame :: "(string \<times> rust_ty) list" where
  "ReactorRawVideoFrame =
   [(''y'', RPtr), (''y_stride'', RCInt), (''u'', RPtr), (''u_stride'', RCInt), (''v'', RPtr),
    (''v_stride'', RCInt), (''width'', RU32), (''height'', RU32), (''rtp_timestamp'', RU32),
    (''request_key_frame'', RCInt), (''codec'', RU32), (''encoder_id'', RU64)]"

definition glue_ReactorRawVideoFrame :: "(string \<times> cxx_ty) list" where
  "glue_ReactorRawVideoFrame =
   [(''y'', CPtr), (''y_stride'', CInt), (''u'', CPtr), (''u_stride'', CInt), (''v'', CPtr),
    (''v_stride'', CInt), (''width'', CUint32), (''height'', CUint32), (''rtp_timestamp'', CUint32),
    (''request_key_frame'', CInt), (''codec'', CUint32), (''encoder_id'', CUint64)]"

definition ReactorEncodedVideoOutput :: "(string \<times> rust_ty) list" where
  "ReactorEncodedVideoOutput =
   [(''data'', RPtr), (''len'', RUsize), (''is_key_frame'', RCInt), (''width'', RU32), (''height'', RU32),
    (''rtp_timestamp'', RU32), (''free_data'', RFn)]"

definition glue_ReactorEncodedVideoOutput :: "(string \<times> cxx_ty) list" where
  "glue_ReactorEncodedVideoOutput =
   [(''data'', CPtr), (''len'', CSize), (''is_key_frame'', CInt), (''width'', CUint32), (''height'', CUint32),
    (''rtp_timestamp'', CUint32), (''free_data'', CFn)]"

definition ReactorFactoryOptions :: "(string \<times> rust_ty) list" where
  "ReactorFactoryOptions =
   [(''size'', RU32), (''use_platform_adm'', RCInt), (''apm_flags'', RCInt), (''openh264_lib_path'', RPtr),
    (''encode_cb'', RFn), (''encode_userdata'', RPtr), (''encode_free_ud'', RFn),
    (''encode_use_builtin'', RFn), (''encode_has_custom_slots'', RFn), (''encode_video_backend_for'', RFn),
    (''encode_rate_update'', RFn), (''dtls_in_stun'', RCInt), (''sctp_max_burst'', RCInt),
    (''send_playout_delay_set'', RCInt), (''send_playout_delay_min_ms'', RCInt),
    (''send_playout_delay_max_ms'', RCInt), (''recv_playout_delay_set'', RCInt),
    (''recv_playout_delay_min_ms'', RCInt), (''recv_playout_delay_max_ms'', RCInt),
    (''sctp_initial_cwnd_mtus'', RCInt), (''sctp_min_cwnd_mtus'', RCInt), (''sctp_rto_initial_ms'', RCInt),
    (''sctp_rto_min_ms'', RCInt), (''sctp_delayed_ack_max_ms'', RCInt),
    (''sctp_immediate_sack_under_cwnd_mtus'', RCInt), (''sender_transform_hold_ms'', RCInt)]"

definition glue_ReactorFactoryOptions :: "(string \<times> cxx_ty) list" where
  "glue_ReactorFactoryOptions =
   [(''size'', CUint32), (''use_platform_adm'', CInt), (''apm_flags'', CInt), (''openh264_lib_path'', CPtr),
    (''encode_cb'', CFn), (''encode_userdata'', CPtr), (''encode_free_ud'', CFn),
    (''encode_use_builtin'', CFn), (''encode_has_custom_slots'', CFn), (''encode_video_backend_for'', CFn),
    (''encode_rate_update'', CFn), (''dtls_in_stun'', CInt), (''sctp_max_burst'', CInt),
    (''send_playout_delay_set'', CInt), (''send_playout_delay_min_ms'', CInt),
    (''send_playout_delay_max_ms'', CInt), (''recv_playout_delay_set'', CInt),
    (''recv_playout_delay_min_ms'', CInt), (''recv_playout_delay_max_ms'', CInt),
    (''sctp_initial_cwnd_mtus'', CInt), (''sctp_min_cwnd_mtus'', CInt), (''sctp_rto_initial_ms'', CInt),
    (''sctp_rto_min_ms'', CInt), (''sctp_delayed_ack_max_ms'', CInt),
    (''sctp_immediate_sack_under_cwnd_mtus'', CInt), (''sender_transform_hold_ms'', CInt)]"

definition ReactorAudioTrackOptions :: "(string \<times> rust_ty) list" where
  "ReactorAudioTrackOptions =
   [(''size'', RU32), (''source'', RCInt), (''echo_cancellation'', RCInt), (''noise_suppression'', RCInt),
    (''auto_gain_control'', RCInt), (''high_pass_filter'', RCInt)]"

definition glue_ReactorAudioTrackOptions :: "(string \<times> cxx_ty) list" where
  "glue_ReactorAudioTrackOptions =
   [(''size'', CUint32), (''source'', CInt), (''echo_cancellation'', CInt), (''noise_suppression'', CInt),
    (''auto_gain_control'', CInt), (''high_pass_filter'', CInt)]"

definition ReactorStatEntry :: "(string \<times> rust_ty) list" where
  "ReactorStatEntry =
   [(''kind'', RI32), (''ssrc'', RU32), (''packets_received'', RU32), (''packets_lost'', RI32),
    (''nack_count'', RU32), (''pli_count'', RU32), (''fir_count'', RU32), (''pair_state'', RI32),
    (''stream_kind'', RI32), (''nominated'', RI32), (''writable'', RI32), (''local_candidate_type'', RI32),
    (''local_relay_protocol'', RI32), (''frame_width'', RU32), (''frame_height'', RU32),
    (''frames_decoded'', RU32), (''frames_dropped'', RU32), (''frames_sent'', RU32),
    (''bytes_received'', RU64), (''bytes_sent'', RU64), (''priority'', RU64), (''packets_sent'', RU64),
    (''retransmitted_packets_sent'', RU64), (''pair_packets_received'', RU64), (''jitter'', RF64),
    (''total_decode_time'', RF64), (''target_bitrate'', RF64), (''round_trip_time'', RF64),
    (''total_round_trip_time'', RF64), (''fraction_lost'', RF64), (''current_round_trip_time'', RF64),
    (''available_outgoing_bitrate'', RF64), (''available_incoming_bitrate'', RF64),
    (''frames_per_second'', RF64), (''mid'', RChars 32), (''codec_mime_type'', RChars 32),
    (''jitter_buffer_delay'', RF64), (''jitter_buffer_target_delay'', RF64),
    (''jitter_buffer_minimum_delay'', RF64), (''jitter_buffer_emitted_count'', RU64),
    (''total_encode_time'', RF64), (''total_packet_send_delay'', RF64), (''total_processing_delay'', RF64),
    (''frames_encoded'', RU32), (''timing_frame_rtp_timestamp'', RU32), (''timing_frame_present'', RU8),
    (''timing_is_outlier'', RU8), (''timing_is_timer_triggered'', RU8), (''timing_capture_ms'', RI64),
    (''timing_encode_start_ms'', RI64), (''timing_encode_finish_ms'', RI64),
    (''timing_packetization_finish_ms'', RI64), (''timing_pacer_exit_ms'', RI64),
    (''timing_receive_start_ms'', RI64), (''timing_receive_finish_ms'', RI64),
    (''timing_decode_start_ms'', RI64), (''timing_decode_finish_ms'', RI64), (''data_channel_id'', RI32),
    (''data_channel_state'', RI32), (''messages_sent'', RU32), (''messages_received'', RU32),
    (''data_channel_label'', RChars 63), (''data_channel_label_present'', RU8),
    (''codec_implementation'', RChars 128), (''power_efficient'', RI8), (''total_samples_received'', RU64),
    (''concealed_samples'', RU64), (''silent_concealed_samples'', RU64), (''concealment_events'', RU64)]"

definition glue_ReactorStatEntry :: "(string \<times> cxx_ty) list" where
  "glue_ReactorStatEntry =
   [(''kind'', CInt32), (''ssrc'', CUint32), (''packets_received'', CUint32), (''packets_lost'', CInt32),
    (''nack_count'', CUint32), (''pli_count'', CUint32), (''fir_count'', CUint32), (''pair_state'', CInt32),
    (''stream_kind'', CInt32), (''nominated'', CInt32), (''writable'', CInt32),
    (''local_candidate_type'', CInt32), (''local_relay_protocol'', CInt32), (''frame_width'', CUint32),
    (''frame_height'', CUint32), (''frames_decoded'', CUint32), (''frames_dropped'', CUint32),
    (''frames_sent'', CUint32), (''bytes_received'', CUint64), (''bytes_sent'', CUint64),
    (''priority'', CUint64), (''packets_sent'', CUint64), (''retransmitted_packets_sent'', CUint64),
    (''pair_packets_received'', CUint64), (''jitter'', CDouble), (''total_decode_time'', CDouble),
    (''target_bitrate'', CDouble), (''round_trip_time'', CDouble), (''total_round_trip_time'', CDouble),
    (''fraction_lost'', CDouble), (''current_round_trip_time'', CDouble),
    (''available_outgoing_bitrate'', CDouble), (''available_incoming_bitrate'', CDouble),
    (''frames_per_second'', CDouble), (''mid'', CChars 32), (''codec_mime_type'', CChars 32),
    (''jitter_buffer_delay'', CDouble), (''jitter_buffer_target_delay'', CDouble),
    (''jitter_buffer_minimum_delay'', CDouble), (''jitter_buffer_emitted_count'', CUint64),
    (''total_encode_time'', CDouble), (''total_packet_send_delay'', CDouble),
    (''total_processing_delay'', CDouble), (''frames_encoded'', CUint32),
    (''timing_frame_rtp_timestamp'', CUint32), (''timing_frame_present'', CUint8),
    (''timing_is_outlier'', CUint8), (''timing_is_timer_triggered'', CUint8), (''timing_capture_ms'', CInt64),
    (''timing_encode_start_ms'', CInt64), (''timing_encode_finish_ms'', CInt64),
    (''timing_packetization_finish_ms'', CInt64), (''timing_pacer_exit_ms'', CInt64),
    (''timing_receive_start_ms'', CInt64), (''timing_receive_finish_ms'', CInt64),
    (''timing_decode_start_ms'', CInt64), (''timing_decode_finish_ms'', CInt64), (''data_channel_id'', CInt32),
    (''data_channel_state'', CInt32), (''messages_sent'', CUint32), (''messages_received'', CUint32),
    (''data_channel_label'', CChars 63), (''data_channel_label_present'', CUint8),
    (''codec_implementation'', CChars 128), (''power_efficient'', CInt8),
    (''total_samples_received'', CUint64), (''concealed_samples'', CUint64),
    (''silent_concealed_samples'', CUint64), (''concealment_events'', CUint64)]"

definition ReactorSctpMetrics :: "(string \<times> rust_ty) list" where
  "ReactorSctpMetrics =
   [(''tx_packets'', RU64), (''tx_messages'', RU64), (''rtx_packets'', RU64), (''rtx_bytes'', RU64),
    (''rx_packets'', RU64), (''rx_messages'', RU64), (''cwnd_bytes'', RU64), (''unack_data'', RU64),
    (''srtt_ms'', RI32), (''peer_rwnd_bytes'', RU32), (''uses_message_interleaving'', RU8)]"

definition glue_ReactorSctpMetrics :: "(string \<times> cxx_ty) list" where
  "glue_ReactorSctpMetrics =
   [(''tx_packets'', CUint64), (''tx_messages'', CUint64), (''rtx_packets'', CUint64),
    (''rtx_bytes'', CUint64), (''rx_packets'', CUint64), (''rx_messages'', CUint64), (''cwnd_bytes'', CUint64),
    (''unack_data'', CUint64), (''srtt_ms'', CInt32), (''peer_rwnd_bytes'', CUint32),
    (''uses_message_interleaving'', CUint8)]"

definition PeerConnectionCallbacks :: "(string \<times> rust_ty) list" where
  "PeerConnectionCallbacks =
   [(''userdata'', RPtr), (''on_signaling_change'', RFn), (''on_connection_change'', RFn),
    (''on_ice_gathering_change'', RFn), (''on_ice_candidate'', RFn), (''on_data_channel'', RFn),
    (''on_renegotiation_needed'', RFn), (''on_track'', RFn)]"

definition glue_ReactorPcCallbacks :: "(string \<times> cxx_ty) list" where
  "glue_ReactorPcCallbacks =
   [(''userdata'', CPtr), (''on_signaling_change'', CFn), (''on_connection_change'', CFn),
    (''on_ice_gathering_change'', CFn), (''on_ice_candidate'', CFn), (''on_data_channel'', CFn),
    (''on_renegotiation_needed'', CFn), (''on_track'', CFn)]"

definition ReactorIceServer :: "(string \<times> rust_ty) list" where
  "ReactorIceServer =
   [(''urls'', RPtr), (''urls_len'', RUsize), (''username'', RPtr), (''password'', RPtr)]"

definition glue_ReactorIceServer :: "(string \<times> cxx_ty) list" where
  "glue_ReactorIceServer =
   [(''urls'', CPtr), (''urls_len'', CSize), (''username'', CPtr), (''password'', CPtr)]"

definition ReactorRtcConfig :: "(string \<times> rust_ty) list" where
  "ReactorRtcConfig =
   [(''servers'', RPtr), (''servers_len'', RUsize), (''ice_transport_type'', RCInt),
    (''continual_gathering_policy'', RCInt), (''min_port'', RCInt), (''max_port'', RCInt),
    (''bundle_policy'', RCInt), (''ice_connection_receiving_timeout_ms'', RCInt),
    (''ice_check_interval_strong_connectivity_ms'', RCInt), (''tcp_candidate_policy'', RCInt),
    (''sctp_snap'', RCInt)]"

definition glue_ReactorRtcConfig :: "(string \<times> cxx_ty) list" where
  "glue_ReactorRtcConfig =
   [(''servers'', CPtr), (''servers_len'', CSize), (''ice_transport_type'', CInt),
    (''continual_gathering_policy'', CInt), (''min_port'', CInt), (''max_port'', CInt),
    (''bundle_policy'', CInt), (''ice_connection_receiving_timeout_ms'', CInt),
    (''ice_check_interval_strong_connectivity_ms'', CInt), (''tcp_candidate_policy'', CInt),
    (''sctp_snap'', CInt)]"

text \<open>Every struct that crosses the boundary, with its copy.\<close>

definition boundary_structs :: "((string \<times> rust_ty) list \<times> (string \<times> cxx_ty) list) list" where
  "boundary_structs =
   [(ReactorEncodedFrame, glue_ReactorEncodedFrame), (ReactorRawVideoFrame, glue_ReactorRawVideoFrame),
    (ReactorEncodedVideoOutput, glue_ReactorEncodedVideoOutput),
    (ReactorFactoryOptions, glue_ReactorFactoryOptions),
    (ReactorAudioTrackOptions, glue_ReactorAudioTrackOptions), (ReactorStatEntry, glue_ReactorStatEntry),
    (ReactorSctpMetrics, glue_ReactorSctpMetrics), (PeerConnectionCallbacks, glue_ReactorPcCallbacks),
    (ReactorIceServer, glue_ReactorIceServer), (ReactorRtcConfig, glue_ReactorRtcConfig)]"

definition rust_fields :: "abi_target \<Rightarrow> (string \<times> rust_ty) list \<Rightarrow> fields" where
  "rust_fields t s = map (\<lambda>(name, ty). (name, rust_rep t ty)) s"

definition cxx_fields :: "abi_target \<Rightarrow> (string \<times> cxx_ty) list \<Rightarrow> fields" where
  "cxx_fields t s = map (\<lambda>(name, ty). (name, cxx_rep t ty)) s"

section \<open>The assertions of either side\<close>

definition stat_entry_offsets :: "(string \<times> nat) list" where
  "stat_entry_offsets =
   [(''bytes_received'', 72), (''nack_count'', 16), (''pli_count'', 20), (''fir_count'', 24),
    (''mid'', 200), (''codec_mime_type'', 232), (''jitter_buffer_delay'', 264),
    (''jitter_buffer_target_delay'', 272), (''jitter_buffer_minimum_delay'', 280),
    (''total_encode_time'', 296), (''frames_encoded'', 320), (''timing_frame_present'', 328),
    (''timing_capture_ms'', 336), (''data_channel_id'', 408), (''messages_sent'', 416),
    (''data_channel_label'', 424), (''codec_implementation'', 488), (''power_efficient'', 616),
    (''total_samples_received'', 624), (''concealed_samples'', 632), (''silent_concealed_samples'', 640),
    (''concealment_events'', 648)]"

definition offsets_hold :: "abi_target \<Rightarrow> fields \<Rightarrow> (string \<times> nat) list \<Rightarrow> bool" where
  "offsets_hold t fs pins \<longleftrightarrow> list_all (\<lambda>(name, at). offset_of t fs name = Some at) pins"

definition stat_entry_asserts :: "abi_target \<Rightarrow> fields \<Rightarrow> bool" where
  "stat_entry_asserts t fs \<longleftrightarrow>
     struct_size t fs = 656 \<and> struct_align t fs = 8 \<and> offsets_hold t fs stat_entry_offsets"

definition glue_stat_entry_asserts :: "abi_target \<Rightarrow> fields \<Rightarrow> bool" where
  "glue_stat_entry_asserts t fs \<longleftrightarrow> struct_size t fs = 656 \<and> offsets_hold t fs stat_entry_offsets"

definition sctp_metrics_asserts :: "abi_target \<Rightarrow> fields \<Rightarrow> bool" where
  "sctp_metrics_asserts t fs \<longleftrightarrow> struct_size t fs = 80"

text \<open>The options hold addresses, so both sides assert their layout where an address has 8 bytes.\<close>

definition factory_options_asserts :: "abi_target \<Rightarrow> fields \<Rightarrow> bool" where
  "factory_options_asserts t fs \<longleftrightarrow>
     (ab_ptr t = 8 \<longrightarrow>
        struct_size t fs = 144 \<and>
        offsets_hold t fs
          [(''dtls_in_stun'', 80), (''sctp_initial_cwnd_mtus'', 112), (''sender_transform_hold_ms'', 136)])"

section \<open>The two sides agree\<close>

lemmas rust_struct_defs =
  ReactorEncodedFrame_def ReactorRawVideoFrame_def ReactorEncodedVideoOutput_def ReactorFactoryOptions_def
  ReactorAudioTrackOptions_def ReactorStatEntry_def ReactorSctpMetrics_def PeerConnectionCallbacks_def
  ReactorIceServer_def ReactorRtcConfig_def

lemmas glue_struct_defs =
  glue_ReactorEncodedFrame_def glue_ReactorRawVideoFrame_def glue_ReactorEncodedVideoOutput_def
  glue_ReactorFactoryOptions_def glue_ReactorAudioTrackOptions_def glue_ReactorStatEntry_def
  glue_ReactorSctpMetrics_def glue_ReactorPcCallbacks_def glue_ReactorIceServer_def glue_ReactorRtcConfig_def


lemma copies_agree: "list_all (\<lambda>(r, c). rust_fields t r = cxx_fields t c) boundary_structs"
  by (simp add: boundary_structs_def rust_fields_def cxx_fields_def rust_struct_defs glue_struct_defs
      rust_rep_def cxx_rep_def)

lemma names_distinct: "list_all (\<lambda>(r, c). distinct (map fst r)) boundary_structs"
  by code_simp

lemma reps_are_ok:
  assumes "abi_target_ok t"
  shows "list_all (\<lambda>(r, c). reps_ok t (rust_fields t r)) boundary_structs"
proof -
  have "list_all (\<lambda>(r, c). list_all (\<lambda>(_, ty). \<forall>n. ty = RChars n \<longrightarrow> 0 < n) r) boundary_structs"
    by (simp add: boundary_structs_def rust_struct_defs)
  then show ?thesis
    using rust_rep_ok [OF assms] by (fastforce simp: list_all_iff reps_ok_def rust_fields_def)
qed

text \<open>What one side writes, the other reads, and nothing beside the struct is touched.\<close>

lemma boundary_round_trip:
  assumes "abi_target_ok t" "(r, c) \<in> set boundary_structs" "values_fit t (rust_fields t r) v" "name \<in> fst ` set r"
  shows "load_field t (cxx_fields t c) base name (store_struct t (rust_fields t r) base v m) = Some (v name)"
    "load_field t (rust_fields t r) base name (store_struct t (cxx_fields t c) base v m) = Some (v name)"
    "i < base \<or> base + struct_size t (cxx_fields t c) \<le> i \<Longrightarrow> store_struct t (rust_fields t r) base v m i = m i"
proof -
  have same: "cxx_fields t c = rust_fields t r" using copies_agree [of t] assms(2) by (auto simp: list_all_iff)
  have ok: "reps_ok t (rust_fields t r)" using reps_are_ok [OF assms(1)] assms(2) by (auto simp: list_all_iff)
  have "distinct (map fst r)" using names_distinct assms(2) by (auto simp: list_all_iff)
  then have names: "distinct (map fst (rust_fields t r))" "name \<in> fst ` set (rust_fields t r)"
    using assms(4) by (auto simp: rust_fields_def comp_def case_prod_unfold image_image)
  show "load_field t (cxx_fields t c) base name (store_struct t (rust_fields t r) base v m) = Some (v name)"
    "load_field t (rust_fields t r) base name (store_struct t (cxx_fields t c) base v m) = Some (v name)"
    using struct_round_trip [OF ok assms(3) names] by (simp_all add: same)
  show "store_struct t (rust_fields t r) base v m i = m i" if "i < base \<or> base + struct_size t (cxx_fields t c) \<le> i"
    using struct_frame [OF ok assms(3)] that by (simp add: same)
qed

section \<open>The assertions hold\<close>

text \<open>The layouts are computed by rewriting.\<close>

lemmas layout_simps =
  rust_fields_def rust_rep_def layout_def align_up_def align_of_def size_of_def LP64_def

lemma factory_options_layout:
  "struct_size LP64 (rust_fields LP64 ReactorFactoryOptions) = 144"
  by (simp add: layout_simps ReactorFactoryOptions_def struct_size_def struct_align_simps)

lemma factory_options_asserts_hold: "factory_options_asserts LP64 (rust_fields LP64 ReactorFactoryOptions)"
  by (simp add: layout_simps ReactorFactoryOptions_def struct_size_def struct_align_simps factory_options_asserts_def
      offsets_hold_def offset_of_def)

lemma sctp_metrics_asserts_hold: "sctp_metrics_asserts LP64 (rust_fields LP64 ReactorSctpMetrics)"
  by (simp add: layout_simps ReactorSctpMetrics_def struct_size_def struct_align_simps sctp_metrics_asserts_def)

lemma stat_entry_positions:
  "positions LP64 0 (map snd (rust_fields LP64 ReactorStatEntry)) =
     [(0, SignedRep 4), (4, UnsignedRep 4), (8, UnsignedRep 4), (12, SignedRep 4), (16, UnsignedRep
      4), (20, UnsignedRep 4), (24, UnsignedRep 4), (28, SignedRep 4), (32, SignedRep 4), (36,
      SignedRep 4), (40, SignedRep 4), (44, SignedRep 4), (48, SignedRep 4), (52, UnsignedRep 4),
      (56, UnsignedRep 4), (60, UnsignedRep 4), (64, UnsignedRep 4), (68, UnsignedRep 4), (72,
      UnsignedRep 8), (80, UnsignedRep 8), (88, UnsignedRep 8), (96, UnsignedRep 8), (104,
      UnsignedRep 8), (112, UnsignedRep 8), (120, FloatRep 8), (128, FloatRep 8), (136, FloatRep 8),
      (144, FloatRep 8), (152, FloatRep 8), (160, FloatRep 8), (168, FloatRep 8), (176, FloatRep 8),
      (184, FloatRep 8), (192, FloatRep 8), (200, CharsRep 32), (232, CharsRep 32), (264, FloatRep
      8), (272, FloatRep 8), (280, FloatRep 8), (288, UnsignedRep 8), (296, FloatRep 8), (304,
      FloatRep 8), (312, FloatRep 8), (320, UnsignedRep 4), (324, UnsignedRep 4), (328, UnsignedRep
      1), (329, UnsignedRep 1), (330, UnsignedRep 1), (336, SignedRep 8), (344, SignedRep 8), (352,
      SignedRep 8), (360, SignedRep 8), (368, SignedRep 8), (376, SignedRep 8), (384, SignedRep 8),
      (392, SignedRep 8), (400, SignedRep 8), (408, SignedRep 4), (412, SignedRep 4), (416,
      UnsignedRep 4), (420, UnsignedRep 4), (424, CharsRep 63), (487, UnsignedRep 1), (488, CharsRep
      128), (616, SignedRep 1), (624, UnsignedRep 8), (632, UnsignedRep 8), (640, UnsignedRep 8),
      (648, UnsignedRep 8)]"
  by (simp add: ReactorStatEntry_def rust_fields_def rust_rep_def align_up_def align_of_def size_of_def LP64_def)

lemma stat_entry_layout:
  "layout LP64 (rust_fields LP64 ReactorStatEntry) =
     [(''kind'', 0, SignedRep 4), (''ssrc'', 4, UnsignedRep 4), (''packets_received'', 8, UnsignedRep 4),
      (''packets_lost'', 12, SignedRep 4), (''nack_count'', 16, UnsignedRep 4),
      (''pli_count'', 20, UnsignedRep 4), (''fir_count'', 24, UnsignedRep 4),
      (''pair_state'', 28, SignedRep 4), (''stream_kind'', 32, SignedRep 4),
      (''nominated'', 36, SignedRep 4), (''writable'', 40, SignedRep 4),
      (''local_candidate_type'', 44, SignedRep 4), (''local_relay_protocol'', 48, SignedRep 4),
      (''frame_width'', 52, UnsignedRep 4), (''frame_height'', 56, UnsignedRep 4),
      (''frames_decoded'', 60, UnsignedRep 4), (''frames_dropped'', 64, UnsignedRep 4),
      (''frames_sent'', 68, UnsignedRep 4), (''bytes_received'', 72, UnsignedRep 8),
      (''bytes_sent'', 80, UnsignedRep 8), (''priority'', 88, UnsignedRep 8),
      (''packets_sent'', 96, UnsignedRep 8), (''retransmitted_packets_sent'', 104, UnsignedRep 8),
      (''pair_packets_received'', 112, UnsignedRep 8), (''jitter'', 120, FloatRep 8),
      (''total_decode_time'', 128, FloatRep 8), (''target_bitrate'', 136, FloatRep 8),
      (''round_trip_time'', 144, FloatRep 8), (''total_round_trip_time'', 152, FloatRep 8),
      (''fraction_lost'', 160, FloatRep 8), (''current_round_trip_time'', 168, FloatRep 8),
      (''available_outgoing_bitrate'', 176, FloatRep 8),
      (''available_incoming_bitrate'', 184, FloatRep 8), (''frames_per_second'', 192, FloatRep 8),
      (''mid'', 200, CharsRep 32), (''codec_mime_type'', 232, CharsRep 32),
      (''jitter_buffer_delay'', 264, FloatRep 8), (''jitter_buffer_target_delay'', 272, FloatRep 8),
      (''jitter_buffer_minimum_delay'', 280, FloatRep 8),
      (''jitter_buffer_emitted_count'', 288, UnsignedRep 8), (''total_encode_time'', 296, FloatRep 8),
      (''total_packet_send_delay'', 304, FloatRep 8), (''total_processing_delay'', 312, FloatRep 8),
      (''frames_encoded'', 320, UnsignedRep 4), (''timing_frame_rtp_timestamp'', 324, UnsignedRep 4),
      (''timing_frame_present'', 328, UnsignedRep 1), (''timing_is_outlier'', 329, UnsignedRep 1),
      (''timing_is_timer_triggered'', 330, UnsignedRep 1), (''timing_capture_ms'', 336, SignedRep 8),
      (''timing_encode_start_ms'', 344, SignedRep 8), (''timing_encode_finish_ms'', 352, SignedRep 8),
      (''timing_packetization_finish_ms'', 360, SignedRep 8),
      (''timing_pacer_exit_ms'', 368, SignedRep 8), (''timing_receive_start_ms'', 376, SignedRep 8),
      (''timing_receive_finish_ms'', 384, SignedRep 8), (''timing_decode_start_ms'', 392, SignedRep 8),
      (''timing_decode_finish_ms'', 400, SignedRep 8), (''data_channel_id'', 408, SignedRep 4),
      (''data_channel_state'', 412, SignedRep 4), (''messages_sent'', 416, UnsignedRep 4),
      (''messages_received'', 420, UnsignedRep 4), (''data_channel_label'', 424, CharsRep 63),
      (''data_channel_label_present'', 487, UnsignedRep 1),
      (''codec_implementation'', 488, CharsRep 128), (''power_efficient'', 616, SignedRep 1),
      (''total_samples_received'', 624, UnsignedRep 8), (''concealed_samples'', 632, UnsignedRep 8),
      (''silent_concealed_samples'', 640, UnsignedRep 8), (''concealment_events'', 648, UnsignedRep 8)]"
  by (simp add: layout_def offsets_positions stat_entry_positions) (simp add: ReactorStatEntry_def rust_fields_def)

lemma stat_entry_size:
  "struct_size LP64 (rust_fields LP64 ReactorStatEntry) = 656" "struct_align LP64 (rust_fields LP64 ReactorStatEntry) = 8"
  by (simp_all add: struct_size_def struct_align_reps end_positions stat_entry_positions)
     (simp_all add: ReactorStatEntry_def rust_fields_def rust_rep_def align_up_def align_of_def size_of_def LP64_def)

lemma offsets_holdI:
  assumes "distinct (map fst fs)"
    "set (map (\<lambda>(name, at). (at, name)) pins) \<subseteq> set (map (\<lambda>(name, at, r). (at, name)) (layout t fs))"
  shows "offsets_hold t fs pins"
proof -
  have names: "distinct (map fst (layout t fs))" using assms(1) by (simp add: layout_def offsets_names)
  have "offset_of t fs name = Some at" if "(name, at) \<in> set pins" for name at
  proof -
    have "(at, name) \<in> set (map (\<lambda>(name, at). (at, name)) pins)" using that by force
    then obtain r where "(name, at, r) \<in> set (layout t fs)" using assms(2) by fastforce
    then show ?thesis using names by (simp add: offset_of_def)
  qed
  then show ?thesis by (auto simp: offsets_hold_def list_all_iff)
qed

lemma stat_entry_asserts_hold: "stat_entry_asserts LP64 (rust_fields LP64 ReactorStatEntry)"
proof -
  have "distinct (map fst ReactorStatEntry)" using names_distinct by (simp add: boundary_structs_def)
  then have "distinct (map fst (rust_fields LP64 ReactorStatEntry))"
    by (simp add: rust_fields_def comp_def case_prod_unfold)
  moreover have "set (map (\<lambda>(name, at). (at, name)) stat_entry_offsets)
      \<subseteq> set (map (\<lambda>(name, at, r). (at, name)) (layout LP64 (rust_fields LP64 ReactorStatEntry)))"
    by (simp add: stat_entry_offsets_def stat_entry_layout)
  ultimately show ?thesis by (simp add: stat_entry_asserts_def stat_entry_size offsets_holdI)
qed

section \<open>What the assertions do not notice\<close>

text \<open>The options end in four bytes of padding: one more \<open>int\<close> at the end of one copy moves neither the
  size nor an asserted offset.\<close>

lemma appended_int_unnoticed:
  "factory_options_asserts LP64 (rust_fields LP64 ReactorFactoryOptions @ [(''another_option'', SignedRep 4)])"
  by (simp add: layout_simps ReactorFactoryOptions_def struct_size_def struct_align_simps factory_options_asserts_def
      offsets_hold_def offset_of_def)

text \<open>Two fields of one representation that change places in one copy, when neither's offset is
  asserted: every assertion holds, and each is read as the other.\<close>

definition swap_names :: "string \<Rightarrow> string \<Rightarrow> string \<Rightarrow> string" where
  "swap_names a b name = (if name = a then b else if name = b then a else name)"

definition swap_fields :: "string \<Rightarrow> string \<Rightarrow> fields \<Rightarrow> fields" where
  "swap_fields a b fs = map (\<lambda>(name, r). (swap_names a b name, r)) fs"

lemma swap_names_twice [simp]: "swap_names a b (swap_names a b name) = name"
  by (simp add: swap_names_def)

lemma swap_layout: "layout t (swap_fields a b fs) = map (\<lambda>(name, x). (swap_names a b name, x)) (layout t fs)"
  by (simp add: layout_def offsets_positions swap_fields_def comp_def case_prod_unfold zip_map1)

lemma swap_size: "struct_size t (swap_fields a b fs) = struct_size t fs" "struct_align t (swap_fields a b fs) = struct_align t fs"
  by (simp_all add: struct_size_def struct_align_reps end_positions swap_fields_def comp_def case_prod_unfold)

lemma map_of_swapped: "map_of (map (\<lambda>(name, x). (swap_names a b name, x)) ls) name = map_of ls (swap_names a b name)"
proof (induction ls)
  case (Cons l ls)
  have "swap_names a b (fst l) = name \<longleftrightarrow> fst l = swap_names a b name" by auto
  then show ?case using Cons by (cases l) auto
qed simp

lemma swap_offset: "offset_of t (swap_fields a b fs) name = offset_of t fs (swap_names a b name)"
  by (simp add: offset_of_def swap_layout map_of_swapped)

lemma swapped_fields_unnoticed:
  assumes "a \<notin> fst ` set stat_entry_offsets" "b \<notin> fst ` set stat_entry_offsets"
  shows "stat_entry_asserts t (swap_fields a b fs) = stat_entry_asserts t fs"
    "load_field t (swap_fields a b fs) base a m = load_field t fs base b m"
proof -
  have "swap_names a b name = name" if "(name, at) \<in> set stat_entry_offsets" for name at
    using assms that by (force simp: swap_names_def)
  then have "offsets_hold t (swap_fields a b fs) stat_entry_offsets = offsets_hold t fs stat_entry_offsets"
    by (fastforce simp: offsets_hold_def list_all_iff swap_offset)
  then show "stat_entry_asserts t (swap_fields a b fs) = stat_entry_asserts t fs"
    by (simp add: stat_entry_asserts_def swap_size)
  show "load_field t (swap_fields a b fs) base a m = load_field t fs base b m"
    by (simp add: load_field_def swap_layout map_of_swapped) (simp add: swap_names_def)
qed

lemma swapped_jitter_unnoticed:
  "stat_entry_asserts LP64 (swap_fields ''jitter'' ''total_decode_time'' (rust_fields LP64 ReactorStatEntry))"
  by (subst swapped_fields_unnoticed(1)) (simp_all add: stat_entry_offsets_def stat_entry_asserts_hold)

text \<open>The entry is not free of padding.\<close>

lemma stat_entry_has_padding:
  "offset_of LP64 (rust_fields LP64 ReactorStatEntry) ''timing_is_timer_triggered'' = Some 330"
  "offset_of LP64 (rust_fields LP64 ReactorStatEntry) ''timing_capture_ms'' = Some 336"
  by (simp_all add: offset_of_def stat_entry_layout)

end
