(* ===== verification/Abi_Options.thy ===== *)
theory Abi_Options
  imports Abi_Structs Factory_Props
begin

text \<open>
  The options of a factory and of an audio track on their way to the glue: the values \<open>builder.rs\<close> and
  \<open>lib.rs\<close> put into \<open>ReactorFactoryOptions\<close> and \<open>ReactorAudioTrackOptions\<close>, the bytes they become,
  the glue's check of \<open>size\<close> and what it reads. Addresses of callbacks, of the registry state and of the codec
  path are an argument.
\<close>

section \<open>The structs Rust fills in\<close>

text \<open>\<open>Default\<close>: the size of the struct, and zero everywhere else; for an audio track every constraint is unset.\<close>

definition factory_options_default :: "abi_target \<Rightarrow> string \<Rightarrow> int" where
  "factory_options_default t name =
     (if name = ''size'' then int (struct_size t (rust_fields t ReactorFactoryOptions)) else 0)"

definition audio_options_default :: "abi_target \<Rightarrow> string \<Rightarrow> int" where
  "audio_options_default t name =
     (if name = ''size'' then int (struct_size t (rust_fields t ReactorAudioTrackOptions))
      else if name = ''source'' then 0 else - 1)"

definition number_options :: "(string \<times> (factory_options \<Rightarrow> int)) list" where
  "number_options =
     [(''use_platform_adm'', fo_use_platform_adm), (''apm_flags'', \<lambda>o'. uint (fo_apm_flags o')),
      (''dtls_in_stun'', fo_dtls_in_stun), (''sctp_max_burst'', fo_sctp_max_burst),
      (''send_playout_delay_set'', fo_send_playout_delay_set),
      (''send_playout_delay_min_ms'', fo_send_playout_delay_min_ms),
      (''send_playout_delay_max_ms'', fo_send_playout_delay_max_ms),
      (''recv_playout_delay_set'', fo_recv_playout_delay_set),
      (''recv_playout_delay_min_ms'', fo_recv_playout_delay_min_ms),
      (''recv_playout_delay_max_ms'', fo_recv_playout_delay_max_ms),
      (''sctp_initial_cwnd_mtus'', fo_sctp_initial_cwnd_mtus), (''sctp_min_cwnd_mtus'', fo_sctp_min_cwnd_mtus),
      (''sctp_rto_initial_ms'', fo_sctp_rto_initial_ms), (''sctp_rto_min_ms'', fo_sctp_rto_min_ms),
      (''sctp_delayed_ack_max_ms'', fo_sctp_delayed_ack_max_ms),
      (''sctp_immediate_sack_under_cwnd_mtus'', fo_sctp_immediate_sack_under_cwnd_mtus),
      (''sender_transform_hold_ms'', fo_sender_transform_hold_ms)]"

text \<open>The addresses the registry installs, all together.\<close>

definition registry_options :: "string list" where
  "registry_options =
     [''encode_cb'', ''encode_userdata'', ''encode_free_ud'', ''encode_use_builtin'', ''encode_has_custom_slots'',
      ''encode_video_backend_for'', ''encode_rate_update'']"

definition options_struct :: "abi_target \<Rightarrow> (string \<Rightarrow> int) \<Rightarrow> factory_options \<Rightarrow> string \<Rightarrow> abi_value" where
  "options_struct t addr o' name =
     Num (case map_of number_options name of
            Some get \<Rightarrow> get o'
          | None \<Rightarrow>
              if name = ''openh264_lib_path'' then (if fo_openh264_lib_path o' = None then 0 else addr name)
              else if name \<in> set registry_options \<and> fo_encoder_registry o' then addr name
              else factory_options_default t name)"

definition audio_options_struct :: "abi_target \<Rightarrow> native_audio_options \<Rightarrow> string \<Rightarrow> abi_value" where
  "audio_options_struct t a name =
     Num (case map_of
            [(''source'', na_source a), (''echo_cancellation'', na_echo_cancellation a),
             (''noise_suppression'', na_noise_suppression a), (''auto_gain_control'', na_auto_gain_control a),
             (''high_pass_filter'', na_high_pass_filter a)] name of
            Some x \<Rightarrow> x | None \<Rightarrow> audio_options_default t name)"

section \<open>The glue's side\<close>

text \<open>The glue compares \<open>size\<close> with the size of its own copy before it reads anything else.\<close>

definition size_accepted :: "abi_target \<Rightarrow> fields \<Rightarrow> nat \<Rightarrow> memory \<Rightarrow> bool" where
  "size_accepted t fs base m =
     (case load_field t fs base ''size'' m of Some (Num n) \<Rightarrow> int (struct_size t fs) \<le> n | _ \<Rightarrow> False)"

definition glue_options :: "abi_target \<Rightarrow> nat \<Rightarrow> memory \<Rightarrow> string \<Rightarrow> abi_value option" where
  "glue_options t base m name =
     (if size_accepted t (cxx_fields t glue_ReactorFactoryOptions) base m
      then load_field t (cxx_fields t glue_ReactorFactoryOptions) base name m else None)"

definition glue_audio_options :: "abi_target \<Rightarrow> nat \<Rightarrow> memory \<Rightarrow> string \<Rightarrow> abi_value option" where
  "glue_audio_options t base m name =
     (if size_accepted t (cxx_fields t glue_ReactorAudioTrackOptions) base m
      then load_field t (cxx_fields t glue_ReactorAudioTrackOptions) base name m else None)"

section \<open>What the glue reads\<close>

lemma factory_options_size:
  assumes "abi_target_ok t"
  shows "struct_size t (rust_fields t ReactorFactoryOptions) = (if ab_ptr t = 8 then 144 else 104)"
proof -
  have "ab_ptr t = 8 \<or> ab_ptr t = 4" using assms by (auto simp: abi_target_ok_def)
  then show ?thesis
    by (elim disjE)
       (simp_all add: struct_size_def struct_align_reps end_positions align_up_def align_of_def size_of_def
          rust_fields_def rust_rep_def ReactorFactoryOptions_def)
qed

definition addresses_ok :: "abi_target \<Rightarrow> (string \<Rightarrow> int) \<Rightarrow> bool" where
  "addresses_ok t addr \<longleftrightarrow> (\<forall>name. 0 < addr name \<and> addr name < 256 ^ ab_ptr t)"

lemma options_values_fit:
  assumes "abi_target_ok t" "addresses_ok t addr" "fits_c_types o'"
  shows "values_fit t (rust_fields t ReactorFactoryOptions) (options_struct t addr o')"
proof -
  have flags: "uint (fo_apm_flags o') < 16"
    using assms(3) by (simp add: fits_c_types_def word_less_def)
  have size: "struct_size t (rust_fields t ReactorFactoryOptions) \<le> 144" by (simp add: factory_options_size assms(1))
  have address: "0 \<le> addr name \<and> addr name < 256 ^ ab_ptr t" for name
    using assms(2) by (simp add: addresses_ok_def less_imp_le)
  have flag: "- 2147483648 \<le> x" "x < 2147483648" if "x = 0 \<or> x = 1" for x :: int using that by auto
  have positive: "- 2147483648 \<le> uint w" for w :: u32 by (rule order_trans [of _ 0]) simp_all
  show ?thesis
    using assms(3) flags size address
    by (simp add: flag positive values_fit_def rust_fields_def ReactorFactoryOptions_def rust_rep_def fits_def options_struct_def
        number_options_def registry_options_def factory_options_default_def fits_c_types_def fits_flag_def fits_int_def)
qed

lemma factory_options_boundary: "(ReactorFactoryOptions, glue_ReactorFactoryOptions) \<in> set boundary_structs"
  by (simp add: boundary_structs_def)

lemma factory_options_copies: "cxx_fields t glue_ReactorFactoryOptions = rust_fields t ReactorFactoryOptions"
  using copies_agree [of t] factory_options_boundary by (auto simp: list_all_iff)

text \<open>Options that fit their fields pass the check of the size, and the glue reads every field as it was
  put in.\<close>

lemma glue_reads_options:
  assumes "abi_target_ok t" "addresses_ok t addr" "fits_c_types o'" "name \<in> fst ` set ReactorFactoryOptions"
  shows "glue_options t base (store_struct t (rust_fields t ReactorFactoryOptions) base (options_struct t addr o') m) name
    = Some (options_struct t addr o' name)"
proof -
  let ?m = "store_struct t (rust_fields t ReactorFactoryOptions) base (options_struct t addr o') m"
  note reads = boundary_round_trip(1) [OF assms(1) factory_options_boundary options_values_fit [OF assms(1-3)]]
  have "''size'' \<in> fst ` set ReactorFactoryOptions" by (simp add: ReactorFactoryOptions_def)
  from reads [OF this, of base m]
  have "load_field t (cxx_fields t glue_ReactorFactoryOptions) base ''size'' ?m
      = Some (Num (int (struct_size t (rust_fields t ReactorFactoryOptions))))"
    by (simp add: options_struct_def number_options_def registry_options_def factory_options_default_def)
  then have "size_accepted t (cxx_fields t glue_ReactorFactoryOptions) base ?m"
    by (simp add: size_accepted_def factory_options_copies)
  then show ?thesis using reads [OF assms(4), of base m] by (simp add: glue_options_def)
qed

lemma option_names:
  "fst ` set number_options \<subseteq> fst ` set ReactorFactoryOptions" "set registry_options \<subseteq> fst ` set ReactorFactoryOptions"
  "''openh264_lib_path'' \<in> fst ` set ReactorFactoryOptions"
  by (simp_all add: number_options_def registry_options_def ReactorFactoryOptions_def)

lemma options_struct_reads:
  "(name, get) \<in> set number_options \<Longrightarrow> options_struct t addr o' name = Num (get o')"
  "name \<in> set registry_options \<Longrightarrow> fo_encoder_registry o' \<Longrightarrow> options_struct t addr o' name = Num (addr name)"
  "options_struct t addr o' ''openh264_lib_path'' =
     Num (if fo_openh264_lib_path o' = None then 0 else addr ''openh264_lib_path'')"
proof -
  have "distinct (map fst number_options)" by (simp add: number_options_def)
  then show "(name, get) \<in> set number_options \<Longrightarrow> options_struct t addr o' name = Num (get o')"
    by (simp add: options_struct_def)
  have apart: "set registry_options \<inter> fst ` set number_options = {}" "''openh264_lib_path'' \<notin> set registry_options"
    by (simp_all add: number_options_def registry_options_def)
  show "options_struct t addr o' name = Num (addr name)" if "name \<in> set registry_options" "fo_encoder_registry o'"
  proof -
    have "map_of number_options name = None" "name \<noteq> ''openh264_lib_path''"
      unfolding map_of_eq_None_iff using apart that(1) by auto
    then show ?thesis using that by (simp add: options_struct_def)
  qed
  have "''openh264_lib_path'' \<notin> fst ` set number_options" by (simp add: number_options_def)
  then show "options_struct t addr o' ''openh264_lib_path'' =
     Num (if fo_openh264_lib_path o' = None then 0 else addr ''openh264_lib_path'')"
    by (simp add: options_struct_def flip: map_of_eq_None_iff)
qed

text \<open>C35: What a caller sets is what libwebrtc is told. A build whose settings are out of range makes no
  native call. Any other puts its settings into options that read back as the settings, and when Rust
  writes these as the bytes of \<open>ReactorFactoryOptions\<close>, anywhere in memory and on a target of either
  address width, nothing beside the struct is touched, the glue accepts the struct by its size and reads
  from its own copy the same number in every field, the address of each of the registry's callbacks, and a path to
  the codec exactly when one was given.\<close>
theorem options_reach_the_glue:
  "if settings_ok b
   then \<exists>opts. readable b opts \<and> fits_c_types opts \<and>
     (\<forall>create. build create b =
        create_from_options create opts (pb_metadata b) (pb_dc_chunking b) (pb_dc_callbacks_on_network_thread b)
          er_new (pb_openh264 b \<noteq> None)) \<and>
     (\<forall>t addr base m. abi_target_ok t \<and> addresses_ok t addr \<longrightarrow>
        (let m' = store_struct t (rust_fields t ReactorFactoryOptions) base (options_struct t addr opts) m;
             glue = glue_options t base m'
         in (\<forall>i. i < base \<or> base + (if ab_ptr t = 8 then 144 else 104) \<le> i \<longrightarrow> m' i = m i) \<and>
            (\<forall>(name, get) \<in> set number_options. glue name = Some (Num (get opts))) \<and>
            (\<forall>name \<in> set registry_options. glue name = Some (Num (addr name))) \<and>
            glue ''openh264_lib_path'' = Some (Num (if pb_openh264 b = None then 0 else addr ''openh264_lib_path''))))
   else \<exists>e. \<forall>create. build create b = Inl e"
proof (cases "settings_ok b")
  case True
  define opts where "opts = builder_options b (delay_ms (pb_send_playout_delay b)) (delay_ms (pb_receive_playout_delay b)) (pb_openh264 b)"
  have opts: "readable b opts" "fits_c_types opts"
    unfolding opts_def using options_readable [OF True] options_fit [OF True] by simp_all
  have told: "fo_openh264_lib_path opts = pb_openh264 b" "fo_encoder_registry opts" using opts(1) by (simp_all add: readable_def)
  have reads: "let m' = store_struct t (rust_fields t ReactorFactoryOptions) base (options_struct t addr opts) m;
             glue = glue_options t base m'
         in (\<forall>i. i < base \<or> base + (if ab_ptr t = 8 then 144 else 104) \<le> i \<longrightarrow> m' i = m i) \<and>
            (\<forall>(name, get) \<in> set number_options. glue name = Some (Num (get opts))) \<and>
            (\<forall>name \<in> set registry_options. glue name = Some (Num (addr name))) \<and>
            glue ''openh264_lib_path'' = Some (Num (if pb_openh264 b = None then 0 else addr ''openh264_lib_path''))"
    if ok: "abi_target_ok t" "addresses_ok t addr" for t addr base m
  proof -
    let ?m = "store_struct t (rust_fields t ReactorFactoryOptions) base (options_struct t addr opts) m"
    have read: "name \<in> fst ` set ReactorFactoryOptions \<Longrightarrow> glue_options t base ?m name = Some (options_struct t addr opts name)" for name
      by (rule glue_reads_options [OF ok opts(2)])
    note frame = boundary_round_trip(3) [OF ok(1) factory_options_boundary options_values_fit [OF ok opts(2)] option_names(3)]
    have numbers: "(\<lambda>(name, get). glue_options t base ?m name = Some (Num (get opts))) field" if "field \<in> set number_options" for field
    proof -
      obtain name get where "field = (name, get)" by (cases field)
      moreover have "name \<in> fst ` set ReactorFactoryOptions" using that option_names(1) calculation by force
      ultimately show ?thesis using that read options_struct_reads(1) by simp
    qed
    have addresses: "glue_options t base ?m name = Some (Num (addr name))" if "name \<in> set registry_options" for name
      using that read option_names(2) told(2) by (simp add: options_struct_reads(2) subsetD)
    have size: "struct_size t (cxx_fields t glue_ReactorFactoryOptions) = (if ab_ptr t = 8 then 144 else 104)"
      by (simp add: factory_options_copies factory_options_size ok(1))
    show ?thesis
      unfolding Let_def size [symmetric]
      using numbers addresses frame read [OF option_names(3)] by (simp add: options_struct_reads(3) told(1))
  qed
  show ?thesis
    using True opts reads build_ok [OF True] unfolding opts_def [symmetric] by (simp only: if_True) blast
next
  case False
  then show ?thesis using build_refuses by simp
qed

lemma options_reach_the_glue_witness:
  "\<exists>opts. readable pb_new opts \<and>
     (let glue = glue_options LP64 64
           (store_struct LP64 (rust_fields LP64 ReactorFactoryOptions) 64 (options_struct LP64 (\<lambda>_. 4096) opts) (\<lambda>_. 0))
      in glue ''use_platform_adm'' = Some (Num (fo_use_platform_adm opts)) \<and>
         glue ''encode_cb'' = Some (Num 4096) \<and> glue ''openh264_lib_path'' = Some (Num 0))"
proof -
  have ok: "settings_ok pb_new" by (simp add: settings_ok_def pb_new_def)
  have target: "abi_target_ok LP64 \<and> addresses_ok LP64 (\<lambda>_. 4096)"
    by (simp add: abi_target_ok_def addresses_ok_def LP64_def)
  from options_reach_the_glue [of pb_new] ok obtain opts where "readable pb_new opts"
    and reads: "let m' = store_struct LP64 (rust_fields LP64 ReactorFactoryOptions) 64 (options_struct LP64 (\<lambda>_. 4096) opts) (\<lambda>_. 0);
             glue = glue_options LP64 64 m'
         in (\<forall>i. i < 64 \<or> 64 + (if ab_ptr LP64 = 8 then 144 else 104) \<le> i \<longrightarrow> m' i = 0) \<and>
            (\<forall>(name, get) \<in> set number_options. glue name = Some (Num (get opts))) \<and>
            (\<forall>name \<in> set registry_options. glue name = Some (Num 4096)) \<and>
            glue ''openh264_lib_path'' = Some (Num (if pb_openh264 pb_new = None then 0 else 4096))"
    using target by (simp only: if_True) blast
  moreover have "(''use_platform_adm'', fo_use_platform_adm) \<in> set number_options" "''encode_cb'' \<in> set registry_options"
    "pb_openh264 pb_new = None"
    by (simp_all add: number_options_def registry_options_def pb_new_def)
  ultimately show ?thesis by (fastforce simp: Let_def)
qed

text \<open>The constraints of an audio track reach the glue the same way.\<close>

lemma audio_options_reach_the_glue:
  assumes "abi_target_ok t" "name \<in> fst ` set ReactorAudioTrackOptions"
  shows "glue_audio_options t base
     (store_struct t (rust_fields t ReactorAudioTrackOptions) base (audio_options_struct t (native_audio options)) m) name
   = Some (audio_options_struct t (native_audio options) name)"
proof -
  let ?v = "audio_options_struct t (native_audio options)"
  let ?m = "store_struct t (rust_fields t ReactorAudioTrackOptions) base ?v m"
  have boundary: "(ReactorAudioTrackOptions, glue_ReactorAudioTrackOptions) \<in> set boundary_structs"
    by (simp add: boundary_structs_def)
  have copies: "cxx_fields t glue_ReactorAudioTrackOptions = rust_fields t ReactorAudioTrackOptions"
    using copies_agree [of t] boundary by (auto simp: list_all_iff)
  have size: "struct_size t (rust_fields t ReactorAudioTrackOptions) = 24"
    by (simp add: struct_size_def struct_align_reps end_positions align_up_def align_of_def size_of_def
        rust_fields_def rust_rep_def ReactorAudioTrackOptions_def)
  have tri: "- 2147483648 \<le> tri v" "tri v < 2147483648" for v by (simp_all add: tri_def split: option.split)
  have "values_fit t (rust_fields t ReactorAudioTrackOptions) ?v"
    using size
    by (simp add: tri values_fit_def rust_fields_def ReactorAudioTrackOptions_def rust_rep_def fits_def
        audio_options_struct_def audio_options_default_def native_audio_def split: audio_track_source.split)
  note read = boundary_round_trip(1) [OF assms(1) boundary this]
  have "''size'' \<in> fst ` set ReactorAudioTrackOptions" by (simp add: ReactorAudioTrackOptions_def)
  from read [OF this, of base m]
  have "load_field t (cxx_fields t glue_ReactorAudioTrackOptions) base ''size'' ?m
      = Some (Num (int (struct_size t (rust_fields t ReactorAudioTrackOptions))))"
    by (simp add: audio_options_struct_def audio_options_default_def)
  then have "size_accepted t (cxx_fields t glue_ReactorAudioTrackOptions) base ?m"
    by (simp add: size_accepted_def copies)
  then show ?thesis using read [OF assms(2), of base m] by (simp add: glue_audio_options_def)
qed

section \<open>Copies of different age\<close>

text \<open>The rule that fields are only appended. A caller with a newer struct is accepted by an older
  glue, which reads the fields it knows; a caller with an older struct is refused exactly when the
  appended fields made the struct larger.\<close>

lemma newer_caller_served:
  assumes "reps_ok t (fs @ gs)" "values_fit t (fs @ gs) v" "distinct (map fst (fs @ gs))" "name \<in> fst ` set fs"
    "''size'' \<in> fst ` set fs" "v ''size'' = Num (int (struct_size t (fs @ gs)))"
  shows "size_accepted t fs base (store_struct t (fs @ gs) base v m)"
    "load_field t fs base name (store_struct t (fs @ gs) base v m) = Some (v name)"
proof -
  have read: "load_field t fs base name (store_struct t (fs @ gs) base v m) = Some (v name)" if "name \<in> fst ` set fs" for name
    using struct_round_trip [OF assms(1-3), of name base m] load_prefix [OF that, of t base _ gs] that by auto
  show "load_field t fs base name (store_struct t (fs @ gs) base v m) = Some (v name)" by (rule read [OF assms(4)])
  show "size_accepted t fs base (store_struct t (fs @ gs) base v m)"
    using read [OF assms(5)] assms(6) struct_size_append [OF assms(1)] by (simp add: size_accepted_def)
qed

lemma older_caller_refused:
  assumes "reps_ok t fs" "values_fit t fs v" "distinct (map fst fs)" "''size'' \<in> fst ` set fs"
    "v ''size'' = Num (int (struct_size t fs))"
  shows "size_accepted t (fs @ gs) base (store_struct t fs base v m) \<longleftrightarrow> struct_size t (fs @ gs) \<le> struct_size t fs"
proof -
  have "load_field t (fs @ gs) base ''size'' (store_struct t fs base v m) = Some (v ''size'')"
    using struct_round_trip [OF assms(1-4), of base m] load_prefix [OF assms(4), of t base _ gs] by simp
  then show ?thesis using assms(5) by (simp add: size_accepted_def)
qed

text \<open>Today's options leave room for one more \<open>int\<close> in their padding: a glue that appended one would
  accept a caller built before it, and read the field from bytes nobody wrote.\<close>

lemma older_caller_read_past_its_fields:
  assumes "addresses_ok LP64 addr" "fits_c_types o'"
  shows "size_accepted LP64 (rust_fields LP64 ReactorFactoryOptions @ [(''another_option'', SignedRep 4)]) base
      (store_struct LP64 (rust_fields LP64 ReactorFactoryOptions) base (options_struct LP64 addr o') m)"
    "load_field LP64 (rust_fields LP64 ReactorFactoryOptions @ [(''another_option'', SignedRep 4)]) base ''another_option''
       (store_struct LP64 (rust_fields LP64 ReactorFactoryOptions) base (options_struct LP64 addr o') m)
     = Some (decode_value LP64 (SignedRep 4) (load_bytes (base + 140) 4 m))"
proof -
  let ?fs = "rust_fields LP64 ReactorFactoryOptions"
  let ?new = "?fs @ [(''another_option'', SignedRep 4)]"
  let ?v = "options_struct LP64 addr o'"
  have target: "abi_target_ok LP64" by (simp add: abi_target_ok_def LP64_def)
  have fit: "values_fit LP64 ?fs ?v" by (rule options_values_fit [OF target assms])
  have ok: "reps_ok LP64 ?fs" "distinct (map fst ReactorFactoryOptions)"
    using reps_are_ok [OF target] names_distinct factory_options_boundary by (auto simp: list_all_iff)
  then have names: "distinct (map fst ?fs)" by (simp add: rust_fields_def comp_def case_prod_unfold)
  have here: "''size'' \<in> fst ` set ?fs" "''another_option'' \<notin> fst ` set ?fs"
    by (simp_all add: rust_fields_def ReactorFactoryOptions_def)
  have "?v ''size'' = Num (int (struct_size LP64 ?fs))"
    by (simp add: options_struct_def number_options_def registry_options_def factory_options_default_def)
  note older = older_caller_refused [OF ok(1) fit names here(1) this]
  have "struct_size LP64 ?new = 144" using appended_int_unnoticed by (simp add: factory_options_asserts_def LP64_def)
  then show "size_accepted LP64 ?new base (store_struct LP64 ?fs base ?v m)"
    using older by (simp add: factory_options_layout)
  have the_end: "end_from LP64 0 ?fs = 140"
    by (simp add: end_positions align_up_def align_of_def size_of_def LP64_def rust_fields_def rust_rep_def
        ReactorFactoryOptions_def)
  have "map_of (layout LP64 ?fs) ''another_option'' = None"
    unfolding map_of_eq_None_iff using here(2) by (simp add: layout_def offsets_name_set)
  then have place: "map_of (layout LP64 ?new) ''another_option'' = Some (140, SignedRep 4)"
    by (simp add: layout_def offsets_append the_end map_add_def align_of_def align_up_def)
  have "load_bytes (base + 140) 4 (store_struct LP64 ?fs base ?v m) = load_bytes (base + 140) 4 m"
    unfolding store_struct_def layout_def by (intro load_eq store_frame ok(1) fit) (simp add: the_end)
  then show "load_field LP64 ?new base ''another_option'' (store_struct LP64 ?fs base ?v m)
      = Some (decode_value LP64 (SignedRep 4) (load_bytes (base + 140) 4 m))"
    by (simp add: load_field_def place size_of_def)
qed

end
