(* ===== verification/Transform_Life.thy ===== *)
theory Transform_Life
  imports Sender_Slots
begin

text \<open>
  The life of a native transformer and of the callback state it owns (\<open>crates/reactor-webrtc/src/encoded.rs\<close>:
  \<open>NativeTransform\<close>, \<open>TransformState\<close> and the two trampolines; \<open>glue/reactor_webrtc.cpp\<close>:
  \<open>ReactorFrameTransformer\<close> and its handle). The state is boxed and leaked to the native object, which is
  counted by reference and gives the box back when the last reference goes. References are held by the
  Rust handle, by the sender or receiver the transformer is attached to, and by libwebrtc while it calls it.
\<close>

section \<open>The process\<close>

datatype tf_ref = HandleRef | SideRef nat side_of | CallRef nat \<comment> \<open>a thread inside the callback\<close>

record tf_process =
  tf_boxes :: "nat set" \<comment> \<open>the states allocated\<close>
  tf_refs :: "nat \<Rightarrow> tf_ref set" \<comment> \<open>who refers to the native object of a state; nobody: there is none\<close>
  tf_handles :: "nat set" \<comment> \<open>the Rust handles whose address is not null\<close>
  tf_fault :: bool \<comment> \<open>a box was freed that is not allocated\<close>

definition tf_new :: tf_process where
  "tf_new = \<lparr>tf_boxes = {}, tf_refs = (\<lambda>_. {}), tf_handles = {}, tf_fault = False\<rparr>"

section \<open>Operations\<close>

text \<open>Taking a box back and dropping it.\<close>

definition free_state :: "nat \<Rightarrow> tf_process \<Rightarrow> tf_process" where
  "free_state b p = p\<lparr>tf_boxes := tf_boxes p - {b}, tf_fault := tf_fault p \<or> b \<notin> tf_boxes p\<rparr>"

text \<open>\<open>NativeTransform::new\<close>: the box is leaked to the native object; when there is none it is taken back.\<close>

definition native_transform_new :: "bool \<Rightarrow> nat \<Rightarrow> tf_process \<Rightarrow> nat option \<times> tf_process" where
  "native_transform_new made b p =
     (let p = p\<lparr>tf_boxes := insert b (tf_boxes p)\<rparr> in
      if made
      then (Some b, p\<lparr>tf_refs := (tf_refs p)(b := {HandleRef}), tf_handles := insert b (tf_handles p)\<rparr>)
      else (None, free_state b p))"

text \<open>Letting go of a reference; with the last one the native destructor calls \<open>free_state_tramp\<close>.\<close>

definition release_ref :: "nat \<Rightarrow> tf_ref \<Rightarrow> tf_process \<Rightarrow> tf_process" where
  "release_ref b h p =
     (let p' = p\<lparr>tf_refs := (tf_refs p)(b := tf_refs p b - {h})\<rparr>
      in if h \<in> tf_refs p b \<and> tf_refs p' b = {} then free_state b p' else p')"

text \<open>The drop of a handle, which holds an address or null.\<close>

definition native_transform_drop :: "nat option \<Rightarrow> tf_process \<Rightarrow> tf_process" where
  "native_transform_drop raw p =
     (case raw of None \<Rightarrow> p | Some b \<Rightarrow> release_ref b HandleRef (p\<lparr>tf_handles := tf_handles p - {b}\<rparr>))"

text \<open>A sender or receiver takes the transformer, in place of the one it had.\<close>

definition detach_side :: "nat \<Rightarrow> side_of \<Rightarrow> nat option \<Rightarrow> tf_process \<Rightarrow> tf_process" where
  "detach_side tc side old p = (case old of None \<Rightarrow> p | Some b \<Rightarrow> release_ref b (SideRef tc side) p)"

definition attach_side :: "nat \<Rightarrow> side_of \<Rightarrow> nat option \<Rightarrow> nat \<Rightarrow> tf_process \<Rightarrow> tf_process" where
  "attach_side tc side old b p =
     (let p = p\<lparr>tf_refs := (tf_refs p)(b := insert (SideRef tc side) (tf_refs p b))\<rparr>
      in if old = Some b then p else detach_side tc side old p)"

definition begin_transform :: "nat \<Rightarrow> nat \<Rightarrow> tf_process \<Rightarrow> tf_process" where
  "begin_transform t b p = p\<lparr>tf_refs := (tf_refs p)(b := insert (CallRef t) (tf_refs p b))\<rparr>"

definition end_transform :: "nat \<Rightarrow> nat \<Rightarrow> tf_process \<Rightarrow> tf_process" where
  "end_transform t b p = release_ref b (CallRef t) p"

text \<open>What a side has is the object it refers to.\<close>

definition holds_side :: "nat \<Rightarrow> side_of \<Rightarrow> tf_process \<Rightarrow> nat option \<Rightarrow> bool" where
  "holds_side tc side p old \<longleftrightarrow>
     (case old of None \<Rightarrow> \<forall>b. SideRef tc side \<notin> tf_refs p b | Some b \<Rightarrow> SideRef tc side \<in> tf_refs p b)"

text \<open>A box is allocated where nothing is. An attachment needs the handle; a call comes from a side
  that has the transformer.\<close>

inductive tf_step :: "tf_process \<Rightarrow> tf_process \<Rightarrow> bool" where
  makes: "b \<notin> tf_boxes p \<Longrightarrow> tf_step p (snd (native_transform_new made b p))"
| drops: "b \<in> tf_handles p \<Longrightarrow> tf_step p (native_transform_drop (Some b) p)"
| drops_null: "tf_step p (native_transform_drop None p)"
| attaches: "b \<in> tf_handles p \<Longrightarrow> holds_side tc side p old \<Longrightarrow> tf_step p (attach_side tc side old b p)"
| detaches: "holds_side tc side p (Some b) \<Longrightarrow> tf_step p (detach_side tc side (Some b) p)"
| calls: "SideRef tc side \<in> tf_refs p b \<Longrightarrow> (\<forall>b'. CallRef t \<notin> tf_refs p b') \<Longrightarrow> tf_step p (begin_transform t b p)"
| returns: "CallRef t \<in> tf_refs p b \<Longrightarrow> tf_step p (end_transform t b p)"

inductive tf_reachable :: "tf_process \<Rightarrow> bool" where
  start: "tf_reachable tf_new"
| step: "tf_reachable p \<Longrightarrow> tf_step p p' \<Longrightarrow> tf_reachable p'"

section \<open>The invariant\<close>

definition tf_inv :: "tf_process \<Rightarrow> bool" where
  "tf_inv p \<longleftrightarrow>
     \<not> tf_fault p \<and> tf_boxes p = {b. tf_refs p b \<noteq> {}} \<and> tf_handles p = {b. HandleRef \<in> tf_refs p b} \<and>
     finite (tf_boxes p) \<and> (\<forall>b. finite (tf_refs p b)) \<and>
     (\<forall>tc side b b'. SideRef tc side \<in> tf_refs p b \<and> SideRef tc side \<in> tf_refs p b' \<longrightarrow> b = b') \<and>
     (\<forall>t b b'. CallRef t \<in> tf_refs p b \<and> CallRef t \<in> tf_refs p b' \<longrightarrow> b = b')"

lemmas tf_ops = native_transform_new_def native_transform_drop_def detach_side_def attach_side_def begin_transform_def
  end_transform_def free_state_def release_ref_def holds_side_def Let_def

lemma tf_inv_release:
  assumes "tf_inv p" "h \<in> tf_refs p b" "h \<noteq> HandleRef"
  shows "tf_inv (release_ref b h p)"
  using assms by (auto simp: tf_inv_def tf_ops split: if_splits)

lemma tf_inv_drop: "tf_inv p \<Longrightarrow> b \<in> tf_handles p \<Longrightarrow> tf_inv (native_transform_drop (Some b) p)"
  by (auto simp: tf_inv_def tf_ops split: if_splits)

lemma tf_inv_attach:
  assumes "tf_inv p" "b \<in> tf_handles p" "holds_side tc side p old"
  shows "tf_inv (attach_side tc side old b p)"
  using assms by (cases old) (auto simp: tf_inv_def tf_ops split: if_splits)

lemma tf_inv_step:
  assumes "tf_step p p'" "tf_inv p"
  shows "tf_inv p'"
  using assms
proof cases
  case (makes b made)
  then show ?thesis using assms(2) by (auto simp: tf_inv_def tf_ops split: if_splits)
next
  case (attaches b tc side old)
  then show ?thesis using assms(2) tf_inv_attach by blast
next
  case (calls tc side b t)
  then show ?thesis using assms(2) by (auto simp: tf_inv_def tf_ops)
qed (use assms(2) in \<open>auto simp: detach_side_def holds_side_def end_transform_def native_transform_drop_def [of None]
      intro: tf_inv_release tf_inv_drop\<close>)

lemma tf_inv_reachable: "tf_reachable p \<Longrightarrow> tf_inv p"
proof (induction rule: tf_reachable.induct)
  case start
  show ?case by (simp add: tf_inv_def tf_new_def)
qed (rule tf_inv_step)

section \<open>Nothing is freed early, twice or never\<close>

definition count_refs :: "tf_process \<Rightarrow> nat" where
  "count_refs p = (\<Sum>b \<in> tf_boxes p. card (tf_refs p b))"

lemma refs_after_release: "tf_refs (release_ref b h p) = (tf_refs p)(b := tf_refs p b - {h})"
  by (simp add: release_ref_def free_state_def Let_def)

lemma boxes_after_release:
  assumes "tf_inv p" "h \<in> tf_refs p b"
  shows "tf_boxes (release_ref b h p) \<subseteq> tf_boxes p" "b \<in> tf_boxes p"
  using assms by (auto simp: tf_inv_def release_ref_def free_state_def Let_def)

lemma fewer_refs:
  assumes "tf_inv p" "h \<in> tf_refs p b" "tf_refs q = (tf_refs p)(b := tf_refs p b - {h})" "tf_boxes q \<subseteq> tf_boxes p"
  shows "count_refs q < count_refs p"
proof -
  have finite: "finite (tf_boxes p)" "finite (tf_refs p b)" and b: "b \<in> tf_boxes p"
    using assms(1,2) by (auto simp: tf_inv_def)
  have "count_refs q \<le> (\<Sum>c \<in> tf_boxes p. card (tf_refs q c))"
    unfolding count_refs_def by (rule sum_mono2 [OF finite(1) assms(4)]) simp
  also have "\<dots> < (\<Sum>c \<in> tf_boxes p. card (tf_refs p c))"
  proof (rule sum_strict_mono_ex1 [OF finite(1)])
    show "\<forall>c \<in> tf_boxes p. card (tf_refs q c) \<le> card (tf_refs p c)"
      using assms(3) finite(2) by (simp add: card_Diff1_le)
    show "\<exists>c \<in> tf_boxes p. card (tf_refs q c) < card (tf_refs p c)"
      using b assms(2,3) finite(2) by (intro bexI [of _ b]) (simp_all add: card_Diff1_less del: card_Diff_insert)
  qed
  finally show ?thesis by (simp add: count_refs_def)
qed

lemma can_let_go:
  assumes "tf_inv p" "b \<in> tf_boxes p"
  shows "\<exists>q. tf_step p q \<and> count_refs q < count_refs p"
proof -
  obtain h where h: "h \<in> tf_refs p b" using assms by (auto simp: tf_inv_def)
  note fewer = fewer_refs [OF assms(1) h] refs_after_release boxes_after_release(1)
  show ?thesis
  proof (cases h)
    case HandleRef
    then have "tf_step p (native_transform_drop (Some b) p)" using assms(1) h by (intro drops) (auto simp: tf_inv_def)
    moreover have "count_refs (native_transform_drop (Some b) p) < count_refs p"
      using h HandleRef by (intro fewer_refs [OF assms(1) h]) (auto simp: native_transform_drop_def release_ref_def free_state_def Let_def)
    ultimately show ?thesis by blast
  next
    case (SideRef tc side)
    then have "tf_step p (detach_side tc side (Some b) p)" using h by (intro detaches) (simp add: holds_side_def)
    then show ?thesis using SideRef fewer h assms(1) by (auto simp: detach_side_def)
  next
    case (CallRef t)
    then have "tf_step p (end_transform t b p)" using h by (intro returns) simp
    then show ?thesis using CallRef fewer h assms(1) by (auto simp: end_transform_def)
  qed
qed

lemma winds_down:
  assumes "tf_inv p"
  shows "\<exists>q. tf_step\<^sup>*\<^sup>* p q \<and> tf_boxes q = {}"
  using assms
proof (induction "count_refs p" arbitrary: p rule: less_induct)
  case less
  show ?case
  proof (cases "tf_boxes p = {}")
    case False
    then obtain q where q: "tf_step p q" "count_refs q < count_refs p" using can_let_go [OF less.prems] by blast
    then show ?thesis using less.hyps [OF q(2) tf_inv_step [OF q(1) less.prems]] by (meson converse_rtranclp_into_rtranclp)
  qed blast
qed

text \<open>C34: The state of an encoded-frame callback lives exactly as long as someone can reach it. However
  transformers are made, with the native side failing or not, attached to senders and receivers in place
  of one another, called from threads and dropped in any order, no state is freed twice or while a callback runs on
  it; a state is allocated exactly while its handle, a sender or receiver, or a running
  callback refers to the native object; and from every state of the process the handles can be dropped, the sides
  detached and the callbacks returned until none is left.\<close>
theorem transform_state_lives_with_its_references:
  assumes "tf_reachable p"
  shows "\<not> tf_fault p \<and>
    (\<forall>t b. CallRef t \<in> tf_refs p b \<longrightarrow> b \<in> tf_boxes p) \<and>
    (\<forall>b. b \<in> tf_boxes p \<longleftrightarrow>
       b \<in> tf_handles p \<or> (\<exists>tc side. holds_side tc side p (Some b)) \<or> (\<exists>t. CallRef t \<in> tf_refs p b)) \<and>
    (\<exists>q. tf_step\<^sup>*\<^sup>* p q \<and> tf_boxes q = {})"
proof -
  have inv: "tf_inv p" by (rule tf_inv_reachable [OF assms])
  have "b \<in> tf_boxes p \<longleftrightarrow>
      b \<in> tf_handles p \<or> (\<exists>tc side. holds_side tc side p (Some b)) \<or> (\<exists>t. CallRef t \<in> tf_refs p b)" for b
  proof -
    have "tf_refs p b \<noteq> {} \<longleftrightarrow> (\<exists>h. h \<in> tf_refs p b)" by blast
    also have "\<dots> \<longleftrightarrow> HandleRef \<in> tf_refs p b \<or> (\<exists>tc side. SideRef tc side \<in> tf_refs p b) \<or> (\<exists>t. CallRef t \<in> tf_refs p b)"
      by (metis tf_ref.exhaust)
    finally show ?thesis using inv by (simp add: tf_inv_def holds_side_def)
  qed
  then show ?thesis using inv winds_down [OF inv] by (auto simp: tf_inv_def)
qed

text \<open>A transformer attached to a sender whose handle is dropped and whose sender goes while it is called.\<close>

definition called_alone :: tf_process where
  "called_alone =
     detach_side 1 SendSide (Some 7)
       (native_transform_drop (Some 7)
          (begin_transform 3 7 (attach_side 1 SendSide None 7 (snd (native_transform_new True 7 tf_new)))))"

lemma called_alone_reachable: "tf_reachable called_alone"
  unfolding called_alone_def
  by (intro tf_reachable.step [OF _ tf_step.detaches] tf_reachable.step [OF _ tf_step.drops]
        tf_reachable.step [OF _ tf_step.calls [of 1 SendSide]] tf_reachable.step [OF _ tf_step.attaches]
        tf_reachable.step [OF _ tf_step.makes] tf_reachable.start)
     (auto simp: tf_ops tf_new_def)

lemma transform_state_lives_with_its_references_witness:
  "\<not> tf_fault called_alone \<and> CallRef 3 \<in> tf_refs called_alone 7 \<and> 7 \<in> tf_boxes called_alone \<and> tf_handles called_alone = {} \<and>
   (\<exists>q. tf_step\<^sup>*\<^sup>* called_alone q \<and> tf_boxes q = {})"
  using transform_state_lives_with_its_references [OF called_alone_reachable]
  by (auto simp: called_alone_def tf_ops tf_new_def)

end
