(* ===== verification/Channel_Label.thy ===== *)
theory Channel_Label
  imports Stats_Props
begin

text \<open>
  The label of a data channel as its handle reports it (\<open>crates/reactor-webrtc/src/peer_connection.rs\<close>,
  \<open>DataChannel::label\<close>): what the glue copies into a buffer of 256 bytes and what Rust makes of it,
  beside the label of the statistics, which is all there or absent.
\<close>

definition LABEL_BUFFER :: nat where "LABEL_BUFFER = 256"

text \<open>The glue: the first bytes that leave room for the terminator, and the whole length. The answer is
  negative for a channel that is gone.\<close>

definition native_label :: "bytes option \<Rightarrow> nat \<Rightarrow> int \<times> bytes" where
  "native_label label cap =
     (case label of
        None \<Rightarrow> (- 1, replicate cap 0)
      | Some bs \<Rightarrow> (let kept = take (cap - 1) bs in (int (length bs), kept @ replicate (cap - length kept) 0)))"

text \<open>Rust: the bytes up to the terminator, with every malformed stretch replaced.\<close>

definition label_text :: "int \<times> bytes \<Rightarrow> unicode" where
  "label_text answer =
     (case answer of (n, buf) \<Rightarrow> if n < 0 then [] else from_utf8_lossy (takeWhile (\<lambda>c. c \<noteq> 0) buf))"

definition dc_label :: "bytes option \<Rightarrow> unicode" where
  "dc_label label = label_text (native_label label LABEL_BUFFER)"

lemma lossy_prefix:
  assumes "\<forall>c \<in> set t. is_scalar c"
  shows "utf8_lossy (take n (utf8_encode t)) =
    fit n t @ (if length (utf8_encode (fit n t)) = min n (length (utf8_encode t)) then [] else [REPLACEMENT])"
  using assms
proof (induction n t rule: fit.induct)
  case (1 n)
  then show ?case by simp
next
  case (2 n c cs)
  show ?case
  proof (cases "length (encode_char c) \<le> n")
    case True
    then have "utf8_lossy (take n (utf8_encode (c # cs))) =
        c # utf8_lossy (take (n - length (encode_char c)) (utf8_encode cs))"
      using 2(2) encode_char_len [of c]
      by (subst utf8_lossy.simps) (simp add: step_encode take_append del: utf8_lossy.simps)
    then show ?thesis using 2 True by (auto simp: min_def simp del: utf8_lossy.simps)
  next
    case False
    then show ?thesis
      using 2(2) step_prefix [of c n] encode_char_len [of c]
      by (cases "n = 0") (auto simp: take_append)
  qed
qed

text \<open>A label of up to 255 bytes comes back; of a longer one the characters that fit in 255 bytes, and
  a replacement character for one that was split.\<close>

theorem label_is_cut:
  assumes "\<forall>c \<in> set t. is_scalar c \<and> c \<noteq> 0"
  shows "dc_label (Some (map word_of_nat (utf8_encode t))) =
    fit 255 t @ (if length (utf8_encode (fit 255 t)) = min 255 (length (utf8_encode t)) then [] else [REPLACEMENT])"
proof -
  let ?bs = "map word_of_nat (take 255 (utf8_encode t)) :: bytes"
  have bs: "takeWhile (\<lambda>c. c \<noteq> 0) (?bs @ replicate k 0) = ?bs" for k
    using encoded_nonzero [OF assms] by (intro buffer_text) (fastforce dest: in_set_takeD)
  have scalars: "\<forall>c \<in> set t. is_scalar c" using assms by blast
  have undo: "map unat ?bs = take 255 (utf8_encode t)"
    using encode_bytes [OF scalars] by (simp add: take_map [symmetric])
  have "dc_label (Some (map word_of_nat (utf8_encode t))) = utf8_lossy (map unat ?bs)"
    using bs by (simp add: dc_label_def native_label_def label_text_def LABEL_BUFFER_def from_utf8_lossy_def take_map
        del: utf8_lossy.simps)
  then show ?thesis by (simp only: undo lossy_prefix [OF scalars])
qed

lemma label_is_cut_witness: "dc_label (Some (map word_of_nat (utf8_encode [8364, 65]))) = [8364, 65]"
proof -
  have "fit 255 [8364, 65] = [8364, 65]" by (simp add: encode_char_def)
  then show ?thesis using label_is_cut [of "[8364, 65]"] by (simp add: is_scalar_def encode_char_def)
qed

lemma short_labels_come_back:
  assumes "\<forall>c \<in> set t. is_scalar c \<and> c \<noteq> 0" "length (utf8_encode t) \<le> 255"
  shows "dc_label (Some (map word_of_nat (utf8_encode t))) = t"
  using label_is_cut [OF assms(1)] assms(2) by (simp add: fit_all)

lemma long_label_is_not_the_label:
  assumes "\<forall>c \<in> set t. is_scalar c \<and> c \<noteq> 0" "255 < length (utf8_encode t)" "last t \<noteq> REPLACEMENT"
  shows "dc_label (Some (map word_of_nat (utf8_encode t))) \<noteq> t"
proof -
  have "fit 255 t \<noteq> t" using fit_length [of 255 t] assms(2) by auto
  moreover have "fit 255 t @ [REPLACEMENT] \<noteq> t" using assms(3) by (metis last_snoc)
  ultimately show ?thesis using label_is_cut [OF assms(1)] by (auto split: if_splits)
qed

end
