(* ===== verification/Spec2Isabelle.thy ===== *)
theory Spec2Isabelle
  imports Dc_Wire Dc_Agreement Chunking_Times Dc_Channel_Props Dc_Channel_Life Dc_Pump Dc_Notices Dc_Release
    Sender_Meta_Props Sender_Slots Media_Sinks Encoder_Registry_Props Encoded_Track
    Factory_Props Factory_Tracks Peer_Install Peer_Agreement Stats_Props OpenH264 Py_Factory Py_Handler Py_Stats Native_Link Abi_Options Transform_Life Channel_Label
begin

text \<open>
  A verification development for reactor-webrtc: a Rust library over libwebrtc that adds chunked
  data channels, per-frame metadata and per-track encoders to WebRTC's peer connections.

  \<^bold>\<open>The program.\<close> A \<open>PeerConnectionFactory\<close> is built from checked settings
  (\<open>builder.rs\<close>) and creates tracks and peer connections (\<open>lib.rs\<close>). A
  \<open>PeerConnection\<close> (\<open>peer_connection.rs\<close>) negotiates two capabilities of its own in the
  session descriptions: data-channel chunking (\<open>dc_chunking.rs\<close> over the crate
  \<open>reactor-webrtc-dc-chunking\<close>) and frame metadata (\<open>metadata.rs\<close>). A channel of a
  connection that negotiated chunking cuts each message into frames, feeds them to libwebrtc no
  faster than its buffer takes them, and joins them at the other end. A video track keeps the
  metadata of its frames (\<open>media.rs\<close>); once both ends agreed, the connection installs a step on the
  sending transceiver that appends it to the encoded frame and one on the receiving transceiver
  that takes it off (\<open>sender_meta.rs\<close>). An encoder registry routes libwebrtc's encoder instances
  to the tracks that bring their own frames (\<open>encoded.rs\<close>).

  \<^bold>\<open>The theories.\<close>
  \<^item> Prelude, Rust_Str, Utf8, Rust_Error: machine words, results, Rust's string functions,
    UTF-8 validation, the crate's error type.
  \<^item> Dc_Frame, Dc_Recv, Dc_Send (\<open>frame.rs\<close>, \<open>recv.rs\<close>, \<open>send.rs\<close>): the header byte, the
    reassembler and the send queue, each with its invariant. Dc_Wire puts a queue and a
    reassembler together and shows that they refine a first-in first-out list of messages. The
    locales \<open>header_codec\<close> and \<open>frame_source\<close> are the interfaces between the three.
  \<^item> Dc_Sdp (\<open>sdp.rs\<close>) and Session_Description (\<open>peer_connection.rs\<close>): the two session-level
    attributes, both interpretations of the locale \<open>sdp_capability\<close>, the substitution of ICE
    credentials, and the enumerations of the native layer.
  \<^item> Dc_Negotiation (\<open>dc_chunking.rs\<close>): the settings and one connection's negotiation. Dc_Agreement:
    two connections exchanging descriptions, an inductive step relation, and the agreement of
    their decisions in every reachable state.
  \<^item> Dc_Channel, Dc_Channel_Props, Dc_Channel_Life (\<open>peer_connection.rs\<close>, \<open>ChannelCore\<close> and
    \<open>DataChannel\<close>): the decision to chunk, the pump, the callbacks and methods; that the pump ends
    within libwebrtc's buffer limit, that accepted messages arrive, that the decision is made once
    and alike at both ends. Dc_Pump: several threads in \<open>pump\<close>, a step relation. Dc_Notices:
    the order of the caller's handlers. Dc_Release: callbacks and drops on several threads, a step
    relation, and that no core is freed under a callback. Channel_Label: the label as it is read back. Chunking_Times (\<open>chunking_times.rs\<close>): the totals.
  \<^item> Frame_Metadata, Encoded_Frame, Sender_Meta, Sender_Meta_Props, Sender_Slots (\<open>metadata.rs\<close>,
    \<open>encoded.rs\<close>, \<open>sender_meta.rs\<close>): the trailer, the registries under a native identity
    (the locale \<open>weak_registry\<close>, interpreted for senders and receivers), the composed slots and
    their attachment, and a frame's way from the sender's source to the receiver's queue. Transform_Life
    (\<open>encoded.rs\<close>): who refers to a native transformer and when the state of its callback is freed, a step relation.
  \<^item> Media, Media_Props (\<open>media.rs\<close>): the checks of a pushed frame, capture stamps and the kept
    metadata, with concurrent pushes as a step function. Media_Sinks: threads attaching sinks while
    frames are delivered and the track is dropped, and that no sink is called after it was freed.
    Encoder_Registry, Encoder_Registry_Props,
    Encoded_Track (\<open>encoded.rs\<close>): the registry, and a pre-encoded track with its queue.
  \<^item> Rtc_Config (\<open>config.rs\<close>, \<open>playout.rs\<close>, \<open>sctp_tuning.rs\<close>), Factory, Factory_Props,
    Factory_Tracks (\<open>builder.rs\<close>, \<open>lib.rs\<close>): settings, their checks and native form, the
    build, and the life of a track.
  \<^item> Transceiver, Peer_Connection, Peer_Connection_Props, Peer_Install (\<open>peer_connection.rs\<close>,
    \<open>observer.rs\<close>): the connection over the components above: offers and answers, applying
    descriptions, the metadata install on the slots, candidates, bitrate bounds, drop.
    Peer_Agreement: two whole connections exchanging descriptions, a step relation over the
    connection's operations that is simulated by Dc_Agreement's, and the gates of the two ends in
    every reachable state.
  \<^item> Stats, Stats_Props (\<open>peer_connection.rs\<close>): the statistics report.
  \<^item> OpenH264 (\<open>crates/reactor-webrtc-sys/src/openh264.rs\<close>): the installer of the codec library,
    over a map of paths to files; the network and the outcome of every file-system call are arguments.
  \<^item> Prebuilt_Scan, Prebuilt, Native_Link (\<open>crates/reactor-webrtc-sys/build.rs\<close>, \<open>build_platform.rs\<close>): the
    build script: names, digests and the scan of an archive for its machine; the cached download over
    any history of runs; the checks of the archive, the builds of the glue and what Cargo is told.
  \<^item> Abi_Layout, Abi_Structs, Abi_Options (\<open>crates/reactor-webrtc-sys/src/lib.rs\<close>,
    \<open>glue/reactor_webrtc.cpp\<close>): the structs of the native boundary as either side declares them, the bytes they
    become on a target of either address width, what the layout assertions guard, and that the glue reads the options
    of a factory as they were set.
  \<^item> Py_Values, Py_Track, Py_Factory (\<open>crates/reactor-webrtc-py/src/lib.rs\<close>): the Python bindings over the
    crate's model: exceptions and conversions, pushes and callbacks, the builder and the flag that admits
    one factory, with a process of constructors and drops as a step relation. Py_Handler: threads that
    set the message callback of a channel while messages arrive, with the locks they take, a step
    relation, and when they stand still. Py_Connection: the wrappers of connections, transceivers and
    channels, and two Python applications that negotiate, simulated by Peer_Agreement's connections.
    Py_Stats: the statistics Python reads.

  \<^bold>\<open>How the code is represented.\<close> A struct is a record with the struct's fields, an enum a datatype,
  a \<open>Result\<close> a sum with the error on the left, a message its template and arguments. State is
  passed and returned; shared objects (\<open>Arc\<close>) are identities in a world record where the identity
  matters (metadata sources, queues, gates, feedback listeners, slots) and values otherwise. A lock held
  over a whole operation makes it one step; where the code lets go of a lock in the middle the
  interleavings are steps of their own (Dc_Pump, the stamps of Media, Media_Sinks, Dc_Release, Transform_Life, Py_Handler,
  Dc_Agreement's records and undos). Lengths and byte counts are natural numbers, everything the code casts, masks or wraps
  is a word of its width. Bytes are 8-bit words; text is a list of characters, and of scalar values in
  Utf8.

  \<^bold>\<open>Parameters.\<close> libwebrtc and the C++ glue are not Rust code and are arguments: the native
  channel is a record of functions over an abstract native state (\<open>native_api\<close>), and each native
  call of a transceiver, connection or factory is its answer. The protobuf encoding of the
  metadata is a pair of functions of which only the round trip is assumed. A caller's transforms and
  encoders are functions. A theorem that relies on documented behaviour of a parameter names it
  as a hypothesis, and its witness gives an instance.

  \<^bold>\<open>Bounds and fuel.\<close> The pump's loop has the fuel \<open>pump_fuel\<close>, three times the frames left
  and a few turns, and \<open>pump_returns_within_limit\<close> shows that it is never used up when the native
  side does not raise its event without end. The delivery of notices has a fuel of the notices queued
  and raised, which \<open>notices_run_in_order\<close> shows to be enough. Every other loop is a structural
  or measured recursion. The compare-and-swap loop of the capture stamps is a step function;
  \<open>capture_ms_unique\<close> says when a thread leaves it.

  \<^bold>\<open>Not modelled.\<close> Memory safety of the native boundary beyond the sinks of a track, the cores
  of channels and the states of transformers (how long other pointers are valid), threads and locks beyond the interleavings named above, clocks (their readings are
  arguments), floating-point values (carried over or left out), printed warnings, most
  \<open>Display\<close> texts, the plain getters of the Python classes, the declarations of the native functions, the Android start-up, the tests and
  examples.
\<close>

end
